theory Spec2Isabelle
  imports Main
begin

section \<open>Errors\<close>

text \<open>
  Every \<^verbatim>\<open>throw\<close> of the TypeScript sources is a value of \<open>error\<close>; a function that
  can throw returns \<open>error + 'a\<close> (\<open>Inl\<close> is the exception).  A read that yields
  \<^verbatim>\<open>undefined\<close> in JavaScript (an array index out of range) is modelled as the error
  \<open>UndefinedValue\<close>: every caller in the modelled code dereferences the value at once.
\<close>

datatype error =
    InvalidPosition
  | InvalidArguments
  | InvalidLayout
  | OutOfBounds
  | InvalidSlice
  | InvalidLine
  | InvalidEndLine
  | WindowMismatch
  | UndefinedValue
  | InvalidTerminalHandle
  | DuplicateSymbol
  | InternalError

section \<open>Numbers\<close>

text \<open>
  Lines, columns and lengths are natural numbers.  In the source they are JavaScript
  numbers, which hold every natural number up to \<open>2^53 - 1\<close> exactly, and the arithmetic
  of the source is exact as long as it stays in this range.  \<^verbatim>\<open>nat.is\<close> (package
  \<^verbatim>\<open>things\<close>) is the test for such a safe natural number; among the naturals it is the
  bound \<open>n \<le> 2^53 - 1\<close>.
\<close>

definition nat_is :: "nat \<Rightarrow> bool" where
  "nat_is n = (n \<le> 9007199254740991)"

section \<open>Text (textlines.ts)\<close>

text \<open>
  A \<^verbatim>\<open>TextChar\<close> is one normalized character.  \<^verbatim>\<open>TextSlice\<close> is the only implementation
  of \<^verbatim>\<open>Text\<close>: a window \<open>[startIndex, startIndex + count)\<close> into a shared array of
  characters.  A JavaScript string is a \<open>string\<close>; NFC normalization and the split into
  code points are the identity on the ASCII strings used here.
\<close>

type_synonym TextChar = char

record TextSlice =
  startIndex :: nat
  count :: nat
  chars :: "TextChar list"

type_synonym Text = TextSlice

definition textOf :: "string \<Rightarrow> Text" where
  "textOf text = \<lparr> startIndex = 0, count = length text, chars = text \<rparr>"

definition textOfChars :: "TextChar list \<Rightarrow> Text" where
  "textOfChars cs = \<lparr> startIndex = 0, count = length cs, chars = cs \<rparr>"

text \<open>The iterator of a slice: the characters \<open>chars[startIndex .. startIndex + count)\<close>.\<close>

definition iterText :: "Text \<Rightarrow> TextChar list" where
  "iterText t = take (count t) (drop (startIndex t) (chars t))"

definition charAt :: "Text \<Rightarrow> nat \<Rightarrow> error + TextChar" where
  "charAt t index =
     (if index \<ge> count t then Inl OutOfBounds
      else if startIndex t + index < length (chars t) then Inr (chars t ! (startIndex t + index))
      else Inl UndefinedValue)"

definition slice :: "Text \<Rightarrow> nat \<Rightarrow> nat option \<Rightarrow> error + Text" where
  "slice t startIndexInclusive endIndexExclusive =
     (let e = (case endIndexExclusive of None \<Rightarrow> count t | Some e \<Rightarrow> e) in
      if startIndexInclusive > e then Inl InvalidSlice
      else if e > count t then Inl InvalidSlice
      else Inr \<lparr> startIndex = startIndexInclusive + startIndex t,
                 count = e - startIndexInclusive,
                 chars = chars t \<rparr>)"

text \<open>\<^verbatim>\<open>toString\<close> joins the whole underlying array, whatever the window is.\<close>

definition toString :: "Text \<Rightarrow> string" where
  "toString t = chars t"

text \<open>
  A \<^verbatim>\<open>Lexer\<close> returns the number of columns read from a column of a text, or a
  negative number.  Lexers are taken to be total: one that throws or does not return is
  not modelled.
\<close>

type_synonym Lexer = "Text \<Rightarrow> nat \<Rightarrow> int"

section \<open>TextLines and its views (textlines.ts)\<close>

text \<open>
  The implementations of the interface \<^verbatim>\<open>TextLines\<close>, one constructor each:
  \<^verbatim>\<open>TextLinesImpl\<close>; the object literal returned by \<^verbatim>\<open>cutoffAfterIndentation\<close>
  (\<open>CutoffLines source lineCount line\<close>, holding the three variables its closures capture);
  \<^verbatim>\<open>TextLinesWindow\<close> (source, startLine, lines, columns); \<^verbatim>\<open>EmptyTextLines\<close>
  (source, startLine, startColumn); \<^verbatim>\<open>TextLinesUntil\<close> (source, endLine, lastLine).
  Method calls dispatch on the constructor.
\<close>

datatype TextLines =
    TextLinesImpl "Text list"
  | CutoffLines TextLines nat nat
  | TextLinesWindow TextLines nat "Text list" "nat list"
  | EmptyTextLines TextLines nat nat
  | TextLinesUntil TextLines nat Text

fun lineCount :: "TextLines \<Rightarrow> nat" where
  "lineCount (TextLinesImpl ls) = length ls"
| "lineCount (CutoffLines source lc line) = line"
| "lineCount (TextLinesWindow source sl ls cols) = length ls"
| "lineCount (EmptyTextLines source sl sc) = 0"
| "lineCount (TextLinesUntil source el lastLine) = el + 1"

fun lineAt :: "TextLines \<Rightarrow> nat \<Rightarrow> error + Text" where
  "lineAt (TextLinesImpl ls) l = (if l < length ls then Inr (ls ! l) else Inl UndefinedValue)"
| "lineAt (CutoffLines source lc line) l = (if l \<ge> lc then Inl InvalidLine else lineAt source l)"
| "lineAt (TextLinesWindow source sl ls cols) l =
     (if l < length ls then Inr (ls ! l) else Inl UndefinedValue)"
| "lineAt (EmptyTextLines source sl sc) l = Inl OutOfBounds"
| "lineAt (TextLinesUntil source el lastLine) l =
     (if l < el then lineAt source l else if l = el then Inr lastLine else Inl InvalidLine)"

fun valid :: "TextLines \<Rightarrow> nat \<Rightarrow> nat \<Rightarrow> bool" where
  "valid (TextLinesImpl ls) l c =
     (if \<not> (nat_is l \<and> nat_is c) then False
      else if l < length ls then c \<le> count (ls ! l)
      else length ls = 0 \<and> l = 0 \<and> c = 0)"
| "valid (CutoffLines source lc line) l c = (valid source l c \<and> l < line)"
| "valid (TextLinesWindow source sl ls cols) l c =
     (if \<not> (nat_is l \<and> nat_is c) then False
      else if l < length ls then c \<le> count (ls ! l)
      else length ls = 0 \<and> l = 0 \<and> c = 0)"
| "valid (EmptyTextLines source sl sc) l c = (l = 0 \<and> c = 0)"
| "valid (TextLinesUntil source el lastLine) l c =
     (if \<not> valid source l c then False
      else if l < el then True
      else if l > el then False
      else c \<le> count lastLine)"

text \<open>\<^verbatim>\<open>assert\<close> throws at a position that is not \<open>valid\<close>.\<close>

definition assert :: "TextLines \<Rightarrow> nat \<Rightarrow> nat \<Rightarrow> error + unit" where
  "assert lines l c = (if valid lines l c then Inr () else Inl InvalidPosition)"

text \<open>
  \<^verbatim>\<open>shift\<close> exists on the two cut-out views only.  In a window, \<open>columns[line]\<close> out of
  range is \<^verbatim>\<open>undefined\<close>.
\<close>

fun shift :: "TextLines \<Rightarrow> nat \<Rightarrow> nat \<Rightarrow> error + (nat \<times> nat)" where
  "shift (TextLinesWindow source sl ls cols) l c =
     (if \<not> valid (TextLinesWindow source sl ls cols) l c then Inl InvalidPosition
      else if l < length cols then Inr (l + sl, c + cols ! l)
      else Inl UndefinedValue)"
| "shift (EmptyTextLines source sl sc) l c =
     (if \<not> valid (EmptyTextLines source sl sc) l c then Inl InvalidPosition
      else Inr (sl, sc))"
| "shift other l c = Inl UndefinedValue"

text \<open>The constructors of the classes, with the checks they make.\<close>

definition createTextLines :: "Text list \<Rightarrow> TextLines" where
  "createTextLines ls = TextLinesImpl ls"

definition new_TextLinesWindow ::
  "TextLines \<Rightarrow> nat \<Rightarrow> Text list \<Rightarrow> nat list \<Rightarrow> error + TextLines" where
  "new_TextLinesWindow source sl ls cols =
     (if length ls \<noteq> length cols then Inl WindowMismatch
      else Inr (TextLinesWindow source sl ls cols))"

definition new_EmptyTextLines :: "TextLines \<Rightarrow> nat \<Rightarrow> nat \<Rightarrow> error + TextLines" where
  "new_EmptyTextLines source l c =
     (if \<not> valid source l c then Inl InvalidPosition
      else Inr (EmptyTextLines source l c))"

definition new_TextLinesUntil :: "TextLines \<Rightarrow> nat \<Rightarrow> nat \<Rightarrow> error + TextLines" where
  "new_TextLinesUntil source el ec =
     (if el \<ge> lineCount source then Inl InvalidEndLine
      else case lineAt source el of
        Inl e \<Rightarrow> Inl e
      | Inr lastLine \<Rightarrow>
          if count lastLine \<le> ec then Inr (TextLinesUntil source el lastLine)
          else (case slice lastLine 0 (Some ec) of
                  Inl e \<Rightarrow> Inl e
                | Inr t \<Rightarrow> Inr (TextLinesUntil source el t)))"

definition textlinesUntil :: "TextLines \<Rightarrow> nat \<Rightarrow> nat \<Rightarrow> error + TextLines" where
  "textlinesUntil lines el ec =
     (if el \<ge> lineCount lines then Inr lines else new_TextLinesUntil lines el ec)"

subsection \<open>cutoffAfterIndentation\<close>

function cutoff_loop ::
  "TextLines \<Rightarrow> nat \<Rightarrow> (Text \<Rightarrow> bool) \<Rightarrow> nat \<Rightarrow> error + TextLines" where
  "cutoff_loop source lc isIndented line =
     (if line < lc then
        (case lineAt source line of
           Inl e \<Rightarrow> Inl e
         | Inr text \<Rightarrow>
             if isIndented text then cutoff_loop source lc isIndented (line + 1)
             else Inr (CutoffLines source lc line))
      else Inr source)"
  by pat_completeness auto
termination
  by (relation "measure (\<lambda>(source, lc, isIndented, line). lc - line)") auto

declare cutoff_loop.simps [simp del]

definition cutoffAfterIndentation ::
  "TextLines \<Rightarrow> nat \<Rightarrow> (Text \<Rightarrow> bool) \<Rightarrow> error + TextLines" where
  "cutoffAfterIndentation source line isIndented =
     (if \<not> valid source line 0 then Inl InvalidPosition
      else cutoff_loop source (lineCount source) isIndented (line + 1))"

subsection \<open>cutoutTextLines\<close>

function cutout_loop ::
  "TextLines \<Rightarrow> nat \<Rightarrow> Lexer \<Rightarrow> nat \<Rightarrow> Text list \<Rightarrow> nat list
     \<Rightarrow> error + (Text list \<times> nat list)" where
  "cutout_loop source sourceCount skipRemaining i ls cols =
     (if i < sourceCount then
        (case lineAt source i of
           Inl e \<Rightarrow> Inl e
         | Inr text \<Rightarrow>
             let skipped = skipRemaining text 0 in
             if skipped < 0 then Inr (ls, cols)
             else (case slice text (nat skipped) None of
                     Inl e \<Rightarrow> Inl e
                   | Inr t \<Rightarrow>
                       cutout_loop source sourceCount skipRemaining (i + 1)
                         (ls @ [t]) (cols @ [nat skipped])))
      else Inr (ls, cols))"
  by pat_completeness auto
termination
  by (relation "measure (\<lambda>(source, sourceCount, skipRemaining, i, ls, cols). sourceCount - i)")
     auto

declare cutout_loop.simps [simp del]

definition cutoutTextLines ::
  "TextLines \<Rightarrow> nat \<Rightarrow> nat \<Rightarrow> Lexer \<Rightarrow> Lexer \<Rightarrow> error + TextLines" where
  "cutoutTextLines source line column skipFirst skipRemaining =
     (if \<not> valid source line column then Inl InvalidPosition
      else if lineCount source = 0 then new_EmptyTextLines source line column
      else case lineAt source line of
        Inl e \<Rightarrow> Inl e
      | Inr text \<Rightarrow>
          let skipped = nat (max (skipFirst text column) 0) in
          (case slice text (column + skipped) None of
             Inl e \<Rightarrow> Inl e
           | Inr first \<Rightarrow>
               (case cutout_loop source (lineCount source) skipRemaining (line + 1)
                       [first] [column + skipped] of
                  Inl e \<Rightarrow> Inl e
                | Inr (ls, cols) \<Rightarrow> new_TextLinesWindow source line ls cols)))"

section \<open>Parse results (parser.ts)\<close>

text \<open>
  The field \<^verbatim>\<open>type : T | null | undefined\<close> of a result: a label, \<^verbatim>\<open>null\<close>
  (\<open>Structural\<close>) or \<^verbatim>\<open>undefined\<close> (\<open>Discarded\<close>: throw the result away).  A \<open>Result\<close>
  is the value of a result tree.  The combinators of the source build a fresh object for
  every node they return; where the identity of result objects matters (\<^verbatim>\<open>shiftResult\<close>
  updates objects in place), the objects are modelled with their identity, further down.
\<close>

datatype 't ResultType = Labeled 't | Structural | Discarded

datatype 't Result =
  Result (type: "'t ResultType") (startLine: nat) (startColumnInclusive: nat)
         (endLine: nat) (endColumnExclusive: nat) (children: "'t Result list")

type_synonym ('s, 't) ParseResult = "('s \<times> 't Result) option"

text \<open>
  A parser call may not return at all (\<open>None\<close>), throw (\<open>Some (Inl e)\<close>), return
  \<^verbatim>\<open>undefined\<close> (\<open>Some (Inr None)\<close>) or return a state and a result
  (\<open>Some (Inr (Some (state, result)))\<close>).
\<close>

type_synonym ('s, 't) Parser =
  "'s \<Rightarrow> TextLines \<Rightarrow> nat \<Rightarrow> nat \<Rightarrow> (error + ('s, 't) ParseResult) option"

definition resultCoordinatesAreValid :: "nat \<Rightarrow> nat \<Rightarrow> nat \<Rightarrow> nat \<Rightarrow> bool" where
  "resultCoordinatesAreValid sl sc el ec =
     (if \<not> (nat_is sl \<and> nat_is sc \<and> nat_is el \<and> nat_is ec) then False
      else if sl \<noteq> el then sl < el
      else sc \<le> ec)"

text \<open>
  The loop of \<^verbatim>\<open>joinResults\<close>: the cursor \<open>(line, column)\<close> and the children kept so far.
  The parameter \<^verbatim>\<open>type\<close> has the default \<^verbatim>\<open>null\<close>, which JavaScript also takes when
  the argument is \<^verbatim>\<open>undefined\<close>: \<open>defaultType\<close>.
\<close>

definition defaultType :: "'t ResultType \<Rightarrow> 't ResultType" where
  "defaultType ty = (case ty of Discarded \<Rightarrow> Structural | Structural \<Rightarrow> Structural | Labeled t \<Rightarrow> Labeled t)"

fun joinResults_loop ::
  "'t Result list \<Rightarrow> nat \<Rightarrow> nat \<Rightarrow> 't Result list \<Rightarrow> error + ('t Result list \<times> nat \<times> nat)" where
  "joinResults_loop [] line column kept = Inr (kept, line, column)"
| "joinResults_loop (r # rs) line column kept =
     (if \<not> resultCoordinatesAreValid line column (startLine r) (startColumnInclusive r)
      then Inl InvalidLayout
      else joinResults_loop rs (endLine r) (endColumnExclusive r)
             (if type r \<noteq> Discarded then kept @ [r] else kept))"

definition joinResults ::
  "'t Result list \<Rightarrow> 't ResultType \<Rightarrow> (nat \<times> nat) option \<Rightarrow> (nat \<times> nat) option
     \<Rightarrow> error + 't Result" where
  "joinResults results ty start end =
     (if results = [] \<and> (start = None \<or> end = None) then Inl InvalidArguments
      else
        let s = (case start of
                   None \<Rightarrow> (startLine (hd results), startColumnInclusive (hd results))
                 | Some p \<Rightarrow> p);
            e = (case end of
                   None \<Rightarrow> (endLine (last results), endColumnExclusive (last results))
                 | Some p \<Rightarrow> p)
        in case joinResults_loop results (fst s) (snd s) [] of
             Inl err \<Rightarrow> Inl err
           | Inr (kept, line, column) \<Rightarrow>
               if \<not> resultCoordinatesAreValid line column (fst e) (snd e)
               then Inl InvalidLayout
               else Inr (Result (defaultType ty) (fst s) (snd s) (fst e) (snd e) kept))"

definition startOfResult :: "'t Result \<Rightarrow> nat \<times> nat" where
  "startOfResult r = (startLine r, startColumnInclusive r)"

definition endOfResult :: "'t Result \<Rightarrow> nat \<times> nat" where
  "endOfResult r = (endLine r, endColumnExclusive r)"

subsection \<open>Text of a result\<close>

function copySlice_loop ::
  "TextLines \<Rightarrow> nat \<Rightarrow> nat \<Rightarrow> nat \<Rightarrow> nat \<Rightarrow> int \<Rightarrow> nat \<Rightarrow> Text list \<Rightarrow> error + Text list" where
  "copySlice_loop textlines sl sc el ec lastLine i acc =
     (if int i \<le> lastLine then
        (case lineAt textlines i of
           Inl e \<Rightarrow> Inl e
         | Inr text \<Rightarrow>
             (case slice text (if i = sl then sc else 0)
                     (Some (if i = el then ec else count text)) of
                Inl e \<Rightarrow> Inl e
              | Inr t \<Rightarrow> copySlice_loop textlines sl sc el ec lastLine (i + 1) (acc @ [t])))
      else Inr acc)"
  by pat_completeness auto
termination
  by (relation "measure (\<lambda>(textlines, sl, sc, el, ec, lastLine, i, acc). nat (lastLine + 1 - int i))")
     auto

definition copySliceOfTextLines ::
  "TextLines \<Rightarrow> nat \<Rightarrow> nat \<Rightarrow> nat \<Rightarrow> nat \<Rightarrow> error + TextLines" where
  "copySliceOfTextLines textlines sl sc el ec =
     (if \<not> valid textlines sl sc then Inl InvalidPosition
      else if \<not> valid textlines el ec then Inl InvalidPosition
      else case copySlice_loop textlines sl sc el ec
                  (min (int (lineCount textlines) - 1) (int el)) sl [] of
             Inl e \<Rightarrow> Inl e
           | Inr ls \<Rightarrow> Inr (createTextLines ls))"

definition NEWLINE :: Text where
  "NEWLINE = textOf [CHR 0x0A]"

function textOfTextLines_loop ::
  "TextLines \<Rightarrow> TextChar list \<Rightarrow> nat \<Rightarrow> nat \<Rightarrow> TextChar list \<Rightarrow> error + TextChar list" where
  "textOfTextLines_loop textlines separator n i cs =
     (if i < n then
        (case lineAt textlines i of
           Inl e \<Rightarrow> Inl e
         | Inr text \<Rightarrow>
             textOfTextLines_loop textlines separator n (i + 1)
               ((if i > 0 then cs @ separator else cs) @ iterText text))
      else Inr cs)"
  by pat_completeness auto
termination
  by (relation "measure (\<lambda>(textlines, separator, n, i, cs). n - i)") auto

definition textOfTextLines :: "TextLines \<Rightarrow> Text \<Rightarrow> error + Text" where
  "textOfTextLines textlines line_separator =
     (case textOfTextLines_loop textlines (iterText line_separator) (lineCount textlines) 0 [] of
        Inl e \<Rightarrow> Inl e
      | Inr cs \<Rightarrow> Inr (textOfChars cs))"

definition textlinesOfResult :: "TextLines \<Rightarrow> 't Result \<Rightarrow> error + TextLines" where
  "textlinesOfResult lines r =
     copySliceOfTextLines lines (startLine r) (startColumnInclusive r)
       (endLine r) (endColumnExclusive r)"

definition textOfResult :: "TextLines \<Rightarrow> 't Result \<Rightarrow> error + Text" where
  "textOfResult lines r =
     (case textlinesOfResult lines r of
        Inl e \<Rightarrow> Inl e
      | Inr sliced \<Rightarrow> textOfTextLines sliced NEWLINE)"

subsection \<open>Printing\<close>

text \<open>
  The decimal rendering of a number by a template literal, for a safe natural number
  (from \<open>2^53\<close> on a JavaScript number is printed from its floating-point value).
\<close>

fun decimal :: "nat \<Rightarrow> string" where
  "decimal n =
     (if n < 10 then [''0123456789'' ! n]
      else decimal (n div 10) @ [''0123456789'' ! (n mod 10)])"

function digits_loop :: "string \<Rightarrow> nat \<Rightarrow> string" where
  "digits_loop s len = (if length s < len then digits_loop (CHR ''0'' # s) len else s)"
  by pat_completeness auto
termination
  by (relation "measure (\<lambda>(s, len). len - length s)") auto

definition digits :: "nat \<Rightarrow> nat \<Rightarrow> string" where
  "digits x len = digits_loop (decimal x) len"

definition printRange :: "'t Result \<Rightarrow> string" where
  "printRange r =
     (let d2 = (\<lambda>x. digits x 2);
          from = d2 (startLine r) @ '':'' @ d2 (startColumnInclusive r);
          to = d2 (endLine r) @ '':'' @ d2 (endColumnExclusive r)
      in ''['' @ from @ '' to '' @ to @ ''['')"

text \<open>
  \<^verbatim>\<open>pruneResult(result, pruned)\<close> appends to \<^verbatim>\<open>pruned\<close>; the model returns what is
  appended.
\<close>

fun pruneResult :: "'t Result \<Rightarrow> 't Result list"
  and pruneResults :: "'t Result list \<Rightarrow> 't Result list" where
  "pruneResult (Result ty sl sc el ec ch) =
     (case ty of
        Discarded \<Rightarrow> []
      | Structural \<Rightarrow> pruneResults ch
      | Labeled t \<Rightarrow> [Result (Labeled t) sl sc el ec (pruneResults ch)])"
| "pruneResults [] = []"
| "pruneResults (c # cs) = pruneResult c @ pruneResults cs"

text \<open>
  \<^verbatim>\<open>printResult\<close> writes lines to the sink \<^verbatim>\<open>print\<close>.  The model returns the lines
  written, in order, and the exception that ended the run, if any.  \<^verbatim>\<open>force\<close> (package
  \<^verbatim>\<open>things\<close>) throws on \<^verbatim>\<open>null\<close> and \<^verbatim>\<open>undefined\<close>.
\<close>

fun process ::
  "TextLines \<Rightarrow> ('t \<Rightarrow> string) \<Rightarrow> ('t \<Rightarrow> bool) \<Rightarrow> string \<Rightarrow> 't Result
     \<Rightarrow> string list \<times> error option"
  and process_children ::
  "TextLines \<Rightarrow> ('t \<Rightarrow> string) \<Rightarrow> ('t \<Rightarrow> bool) \<Rightarrow> string \<Rightarrow> 't Result list
     \<Rightarrow> string list \<times> error option" where
  "process lines nameOf isOpaque prefix (Result ty sl sc el ec ch) =
     (case ty of
        Structural \<Rightarrow> ([], Some UndefinedValue)
      | Discarded \<Rightarrow> ([], Some UndefinedValue)
      | Labeled t \<Rightarrow>
          let r = Result ty sl sc el ec ch; opaque = isOpaque t in
          if length ch = 0 \<and> sl = el then
            (case textOfResult lines r of
               Inl e \<Rightarrow> ([], Some e)
             | Inr text \<Rightarrow>
                 if opaque then ([printRange r @ prefix @ ''   '' @ nameOf t], None)
                 else ([printRange r @ prefix @ ''   '' @ nameOf t @ '' = '' @ [CHR 0x22]
                          @ toString text @ [CHR 0x22]], None))
          else if \<not> opaque then
            (case process_children lines nameOf isOpaque (prefix @ ''    '') ch of
               (out, err) \<Rightarrow> ((printRange r @ prefix @ ''   '' @ nameOf t) # out, err))
          else ([printRange r @ prefix @ ''   '' @ nameOf t], None))"
| "process_children lines nameOf isOpaque prefix [] = ([], None)"
| "process_children lines nameOf isOpaque prefix (c # cs) =
     (case process lines nameOf isOpaque prefix c of
        (out, Some e) \<Rightarrow> (out, Some e)
      | (out, None) \<Rightarrow>
          (case process_children lines nameOf isOpaque prefix cs of
             (out', err) \<Rightarrow> (out @ out', err)))"

definition printResult ::
  "TextLines \<Rightarrow> 't Result \<Rightarrow> ('t \<Rightarrow> string) \<Rightarrow> ('t \<Rightarrow> bool) \<Rightarrow> string list \<times> error option" where
  "printResult lines r nameOf isOpaque =
     process_children lines nameOf isOpaque [] (pruneResult r)"

section \<open>Combinators (combinators.ts)\<close>

definition emptyP :: "('s, 't) Parser" where
  "emptyP state lines line column =
     (if \<not> valid lines line column then Some (Inl InvalidPosition)
      else Some (Inr (Some (state, Result Structural line column line column []))))"

definition failP :: "('s, 't) Parser" where
  "failP state lines line column =
     (if \<not> valid lines line column then Some (Inl InvalidPosition)
      else Some (Inr None))"

text \<open>
  The \<^verbatim>\<open>for\<close> loop of \<^verbatim>\<open>seqP\<close> over the remaining parsers, with the variables it
  updates: the state, the children kept and the cursor.
\<close>

fun seqP_loop ::
  "('s, 't) Parser list \<Rightarrow> TextLines \<Rightarrow> nat \<Rightarrow> nat \<Rightarrow> 's \<Rightarrow> 't Result list \<Rightarrow> nat \<Rightarrow> nat
     \<Rightarrow> (error + ('s, 't) ParseResult) option" where
  "seqP_loop [] lines sl sc state kept line column =
     Some (Inr (Some (state, Result Structural sl sc line column kept)))"
| "seqP_loop (parser # parsers) lines sl sc state kept line column =
     (case parser state lines line column of
        None \<Rightarrow> None
      | Some (Inl e) \<Rightarrow> Some (Inl e)
      | Some (Inr None) \<Rightarrow> Some (Inr None)
      | Some (Inr (Some (state', result))) \<Rightarrow>
          seqP_loop parsers lines sl sc state'
            (if type result \<noteq> Discarded then kept @ [result] else kept)
            (endLine result) (endColumnExclusive result))"

definition seqP :: "('s, 't) Parser list \<Rightarrow> ('s, 't) Parser" where
  "seqP parsers =
     (if length parsers = 0 then emptyP
      else if length parsers = 1 then hd parsers
      else (\<lambda>state lines line column.
              if \<not> valid lines line column then Some (Inl InvalidPosition)
              else seqP_loop parsers lines line column state [] line column))"

definition charP :: "(TextChar \<Rightarrow> bool) \<Rightarrow> ('s, 't) Parser" where
  "charP predicate state lines line column =
     (if \<not> valid lines line column then Some (Inl InvalidPosition)
      else if line \<ge> lineCount lines then Some (Inr None)
      else case lineAt lines line of
        Inl e \<Rightarrow> Some (Inl e)
      | Inr text \<Rightarrow>
          if column \<ge> count text then Some (Inr None)
          else (case charAt text column of
                  Inl e \<Rightarrow> Some (Inl e)
                | Inr c \<Rightarrow>
                    if \<not> predicate c then Some (Inr None)
                    else Some (Inr (Some (state,
                           Result Discarded line column line (column + 1) [])))))"

definition anyCharP :: "('s, 't) Parser" where
  "anyCharP = charP (\<lambda>c. True)"

definition newlineP :: "('s, 't) Parser" where
  "newlineP state lines line column =
     (if \<not> valid lines line column then Some (Inl InvalidPosition)
      else if line + 1 < lineCount lines then
        (case lineAt lines line of
           Inl e \<Rightarrow> Some (Inl e)
         | Inr text \<Rightarrow>
             if column = count text
             then Some (Inr (Some (state, Result Discarded line column (line + 1) 0 [])))
             else Some (Inr None))
      else Some (Inr None))"

definition modifyParseResultP ::
  "('s, 't) Parser \<Rightarrow> (TextLines \<Rightarrow> ('s, 't) ParseResult \<Rightarrow> ('s, 't) ParseResult) \<Rightarrow> ('s, 't) Parser" where
  "modifyParseResultP parser modify state lines line column =
     (case parser state lines line column of
        None \<Rightarrow> None
      | Some (Inl e) \<Rightarrow> Some (Inl e)
      | Some (Inr parse_result) \<Rightarrow> Some (Inr (modify lines parse_result)))"

definition modifyResultP ::
  "('s, 't) Parser \<Rightarrow> (TextLines \<Rightarrow> 's \<Rightarrow> 't Result \<Rightarrow> 't Result option) \<Rightarrow> ('s, 't) Parser" where
  "modifyResultP parser modify =
     modifyParseResultP parser (\<lambda>lines parse_result.
       case parse_result of
         None \<Rightarrow> None
       | Some (state, result) \<Rightarrow>
           (case modify lines state result of
              None \<Rightarrow> None
            | Some result' \<Rightarrow> Some (state, result')))"

definition modifyTypeP ::
  "('s, 't) Parser \<Rightarrow> (TextLines \<Rightarrow> 's \<Rightarrow> 't Result \<Rightarrow> 't ResultType) \<Rightarrow> ('s, 't) Parser" where
  "modifyTypeP parser ty =
     modifyResultP parser (\<lambda>lines state result.
       Some (Result (ty lines state result) (startLine result) (startColumnInclusive result)
               (endLine result) (endColumnExclusive result) (children result)))"

definition setTypeP :: "'t ResultType \<Rightarrow> ('s, 't) Parser \<Rightarrow> ('s, 't) Parser" where
  "setTypeP ty parser = modifyTypeP parser (\<lambda>lines state result. ty)"

definition literalP :: "string \<Rightarrow> 't ResultType \<Rightarrow> ('s, 't) Parser" where
  "literalP text ty =
     (let literal = textOf text;
          parsers = map (\<lambda>c. charP (\<lambda>d. c = d)) (iterText literal);
          parser = seqP parsers
      in setTypeP ty parser)"

fun orP_loop ::
  "('s, 't) Parser list \<Rightarrow> 's \<Rightarrow> TextLines \<Rightarrow> nat \<Rightarrow> nat
     \<Rightarrow> (error + ('s, 't) ParseResult) option" where
  "orP_loop [] state lines line column = Some (Inr None)"
| "orP_loop (parser # parsers) state lines line column =
     (case parser state lines line column of
        None \<Rightarrow> None
      | Some (Inl e) \<Rightarrow> Some (Inl e)
      | Some (Inr None) \<Rightarrow> orP_loop parsers state lines line column
      | Some (Inr (Some result)) \<Rightarrow> Some (Inr (Some result)))"

definition orP :: "('s, 't) Parser list \<Rightarrow> ('s, 't) Parser" where
  "orP parsers state lines line column =
     (if \<not> valid lines line column then Some (Inl InvalidPosition)
      else orP_loop parsers state lines line column)"

definition literalsP :: "string list \<Rightarrow> ('s, 't) Parser" where
  "literalsP texts = orP (map (\<lambda>t. literalP t Discarded) texts)"

definition optP :: "('s, 't) Parser list \<Rightarrow> ('s, 't) Parser" where
  "optP parsers = orP [seqP parsers, emptyP]"

text \<open>
  The \<^verbatim>\<open>while (true)\<close> loop of \<^verbatim>\<open>repP\<close>.  Nothing bounds the number of iterations, so
  the loop is a partial function: \<open>None\<close> is a run that never returns.
\<close>

partial_function (option) repP_loop ::
  "('s, 't) Parser \<Rightarrow> TextLines \<Rightarrow> nat \<Rightarrow> nat \<Rightarrow> 's \<Rightarrow> 't Result list \<Rightarrow> nat \<Rightarrow> nat
     \<Rightarrow> (error + ('s, 't) ParseResult) option" where
  "repP_loop parser lines sl sc state kept line column =
     (case parser state lines line column of
        None \<Rightarrow> None
      | Some (Inl e) \<Rightarrow> Some (Inl e)
      | Some (Inr None) \<Rightarrow>
          Some (Inr (Some (state, Result Structural sl sc line column kept)))
      | Some (Inr (Some (state', result))) \<Rightarrow>
          repP_loop parser lines sl sc state'
            (if type result \<noteq> Discarded then kept @ [result] else kept)
            (endLine result) (endColumnExclusive result))"

definition repP :: "('s, 't) Parser list \<Rightarrow> ('s, 't) Parser" where
  "repP parsers state lines line column =
     (let parser = seqP parsers in
      if \<not> valid lines line column then Some (Inl InvalidPosition)
      else repP_loop parser lines line column state [] line column)"

definition rep1P :: "('s, 't) Parser list \<Rightarrow> ('s, 't) Parser" where
  "rep1P parsers = (let parser = seqP parsers in seqP [parser, repP [parser]])"

definition joinP :: "('s, 't) Parser \<Rightarrow> ('s, 't) Parser \<Rightarrow> ('s, 't) Parser" where
  "joinP elemP jointP = seqP [elemP, repP [jointP, elemP]]"

definition eofP :: "('s, 't) Parser" where
  "eofP state lines line column =
     (if \<not> valid lines line column then Some (Inl InvalidPosition)
      else if line = lineCount lines then
        Some (Inr (Some (state, Result Discarded line column line column [])))
      else if line + 1 = lineCount lines then
        (case lineAt lines line of
           Inl e \<Rightarrow> Some (Inl e)
         | Inr text \<Rightarrow>
             if column = count text
             then Some (Inr (Some (state, Result Discarded line column line column [])))
             else Some (Inr None))
      else Some (Inr None))"

definition bolP :: "('s, 't) Parser" where
  "bolP state lines line column =
     (if \<not> valid lines line column then Some (Inl InvalidPosition)
      else if line < lineCount lines \<and> column = 0
      then Some (Inr (Some (state, Result Discarded line column line column [])))
      else Some (Inr None))"

definition eolP :: "('s, 't) Parser" where
  "eolP = orP [eofP, newlineP]"

text \<open>
  \<^verbatim>\<open>shiftResult\<close> shifts the span of a result object and of the objects below it, in
  place.  On values: the tree after the update, when no object occurs twice in the tree
  (see \<open>shiftResult_store\<close> below for the update of objects with their identity, and
  \<open>shift_fresh\<close> for the two on a tree of distinct objects).
\<close>

fun shiftResult :: "TextLines \<Rightarrow> 't Result \<Rightarrow> error + 't Result"
  and shiftResults :: "TextLines \<Rightarrow> 't Result list \<Rightarrow> error + 't Result list" where
  "shiftResult lines (Result ty sl sc el ec ch) =
     (case shift lines sl sc of
        Inl e \<Rightarrow> Inl e
      | Inr (sl', sc') \<Rightarrow>
          (case shift lines el ec of
             Inl e \<Rightarrow> Inl e
           | Inr (el', ec') \<Rightarrow>
               (case shiftResults lines ch of
                  Inl e \<Rightarrow> Inl e
                | Inr ch' \<Rightarrow> Inr (Result ty sl' sc' el' ec' ch'))))"
| "shiftResults lines [] = Inr []"
| "shiftResults lines (c # cs) =
     (case shiftResult lines c of
        Inl e \<Rightarrow> Inl e
      | Inr c' \<Rightarrow>
          (case shiftResults lines cs of
             Inl e \<Rightarrow> Inl e
           | Inr cs' \<Rightarrow> Inr (c' # cs')))"

subsection \<open>sectionP\<close>

text \<open>
  The lexers \<^verbatim>\<open>spacesL\<close> and \<^verbatim>\<open>indentationL\<close> and the function \<^verbatim>\<open>bodyP\<close> (which
  picks the body parser) are total functions.  The part of \<^verbatim>\<open>sectionP\<close> after the body
  result has been shifted is \<open>sectionP_after\<close>; it is given the bullet result and the
  body result as they stand after the shift.  The returned state is the one of the body
  parser (\<^verbatim>\<open>bodyParseResult.state\<close>).

  \<open>sectionP\<close> is \<^verbatim>\<open>sectionP\<close> on values, for parsers that return new objects, as all
  combinators of the source do: no object of the body result is an object of the bullet
  result or occurs twice.  \<open>sectionP_store\<close>, below, is \<^verbatim>\<open>sectionP\<close> for any parsers;
  for parsers that return new objects it returns what \<open>sectionP\<close> returns
  (\<open>sectionP_store_fresh\<close>).
\<close>

definition sectionP_after ::
  "('s, 't) Parser \<Rightarrow> TextLines \<Rightarrow> nat \<times> nat \<Rightarrow> 't Result \<Rightarrow> 's \<Rightarrow> 't Result
     \<Rightarrow> (error + ('s, 't) ParseResult) option" where
  "sectionP_after afterP lines start bulletResult bodyState bodyResult =
     (case afterP bodyState lines (endLine bodyResult) (endColumnExclusive bodyResult) of
        None \<Rightarrow> None
      | Some (Inl e) \<Rightarrow> Some (Inl e)
      | Some (Inr after) \<Rightarrow>
          let results = (case after of
                           None \<Rightarrow> [bulletResult, bodyResult]
                         | Some (afterState, afterResult) \<Rightarrow>
                             [bulletResult, bodyResult, afterResult]);
              end = (case after of
                       None \<Rightarrow> (endLine bodyResult, endColumnExclusive bodyResult)
                     | Some (afterState, afterResult) \<Rightarrow>
                         (endLine afterResult, endColumnExclusive afterResult))
          in (case joinResults results Structural (Some start) (Some end) of
                Inl e \<Rightarrow> Some (Inl e)
              | Inr joinedResult \<Rightarrow> Some (Inr (Some (bodyState, joinedResult)))))"

definition sectionP ::
  "('s, 't) Parser \<Rightarrow> (TextLines \<Rightarrow> 's \<Rightarrow> 't Result \<Rightarrow> ('s, 't) Parser) \<Rightarrow> Lexer \<Rightarrow> Lexer
     \<Rightarrow> ('s, 't) Parser \<Rightarrow> ('s, 't) Parser" where
  "sectionP bulletP bodyP spacesL indentationL afterP state lines line column =
     (if \<not> valid lines line column then Some (Inl InvalidPosition)
      else if column > 0 then Some (Inr None)
      else case cutoffAfterIndentation lines line (\<lambda>text. spacesL text 0 > 0) of
        Inl e \<Rightarrow> Some (Inl e)
      | Inr bulletLines \<Rightarrow>
          (case bulletP state bulletLines line column of
             None \<Rightarrow> None
           | Some (Inl e) \<Rightarrow> Some (Inl e)
           | Some (Inr None) \<Rightarrow> Some (Inr None)
           | Some (Inr (Some (bulletState, bulletResult))) \<Rightarrow>
               (case cutoutTextLines lines (endLine bulletResult)
                       (endColumnExclusive bulletResult) spacesL indentationL of
                  Inl e \<Rightarrow> Some (Inl e)
                | Inr bodyLines \<Rightarrow>
                    (case bodyP lines bulletState bulletResult bulletState bodyLines 0 0 of
                       None \<Rightarrow> None
                     | Some (Inl e) \<Rightarrow> Some (Inl e)
                     | Some (Inr None) \<Rightarrow> Some (Inr None)
                     | Some (Inr (Some (bodyState, bodyResult))) \<Rightarrow>
                         (case shiftResult bodyLines bodyResult of
                            Inl e \<Rightarrow> Some (Inl e)
                          | Inr shifted \<Rightarrow>
                              sectionP_after afterP lines (line, column) bulletResult
                                bodyState shifted)))))"

subsection \<open>Result objects and sectionP\<close>

text \<open>
  \<^verbatim>\<open>shiftResult\<close> assigns to the fields of result objects, and \<^verbatim>\<open>bodyP\<close> is handed
  the bullet result object: the body parser can return a tree that holds this object,
  or one that holds an object twice, and the shift then moves such an object with the
  body, or twice.  So here are result objects with their identity.

  A store is the list of the result objects there are; the address of an object is its
  index in the store, and a new object is put at the end.  An \<open>Obj\<close> has the four
  coordinates as two positions, and for \<^verbatim>\<open>children\<close> the addresses of the children.  A
  parser on the store is given the store, and returns the store as it has left it with
  what it returns: the address of the result object where the source returns the object.
  It may have changed any object.
\<close>

datatype 't Obj =
  Obj (otype: "'t ResultType") (ostart: "nat \<times> nat") (oend: "nat \<times> nat") (ochildren: "nat list")

type_synonym 't Store = "'t Obj list"

type_synonym ('s, 't) StoreParser =
  "'s \<Rightarrow> TextLines \<Rightarrow> nat \<Rightarrow> nat \<Rightarrow> 't Store
     \<Rightarrow> (error + 't Store \<times> ('s \<times> nat) option) option"

text \<open>
  \<^verbatim>\<open>shiftResult\<close> on the store.  The recursion of the source over the children is the
  list \<open>work\<close> of the objects still to shift, the first one next: an object is shifted
  (both positions are computed, then assigned) and its children are put in front of the
  others.  When an object is below itself the recursion of the source has no end (it
  stops only when the call stack is used up); the value is \<open>None\<close> then.
\<close>

partial_function (option) shiftResult_store ::
  "TextLines \<Rightarrow> nat list \<Rightarrow> 't Store \<Rightarrow> (error + 't Store) option" where
  "shiftResult_store lines work store =
     (case work of
        [] \<Rightarrow> Some (Inr store)
      | result # others \<Rightarrow>
          (case shift lines (fst (ostart (store ! result))) (snd (ostart (store ! result))) of
             Inl e \<Rightarrow> Some (Inl e)
           | Inr start \<Rightarrow>
               (case shift lines (fst (oend (store ! result))) (snd (oend (store ! result))) of
                  Inl e \<Rightarrow> Some (Inl e)
                | Inr end \<Rightarrow>
                    shiftResult_store lines (ochildren (store ! result) @ others)
                      (store[result := Obj (otype (store ! result)) start end
                                          (ochildren (store ! result))]))))"

text \<open>
  \<^verbatim>\<open>joinResults\<close> on the store: it reads the type and the span of every result, keeps
  the addresses of the results that are not \<open>Discarded\<close>, and returns a new object.
\<close>

fun joinResults_store_loop ::
  "'t Store \<Rightarrow> nat list \<Rightarrow> nat \<Rightarrow> nat \<Rightarrow> nat list \<Rightarrow> error + (nat list \<times> nat \<times> nat)" where
  "joinResults_store_loop store [] line column kept = Inr (kept, line, column)"
| "joinResults_store_loop store (r # rs) line column kept =
     (if \<not> resultCoordinatesAreValid line column (fst (ostart (store ! r))) (snd (ostart (store ! r)))
      then Inl InvalidLayout
      else joinResults_store_loop store rs (fst (oend (store ! r))) (snd (oend (store ! r)))
             (if otype (store ! r) \<noteq> Discarded then kept @ [r] else kept))"

definition joinResults_store ::
  "nat list \<Rightarrow> 't ResultType \<Rightarrow> (nat \<times> nat) option \<Rightarrow> (nat \<times> nat) option \<Rightarrow> 't Store
     \<Rightarrow> error + 't Store \<times> nat" where
  "joinResults_store results ty start end store =
     (if results = [] \<and> (start = None \<or> end = None) then Inl InvalidArguments
      else
        let s = (case start of None \<Rightarrow> ostart (store ! hd results) | Some p \<Rightarrow> p);
            e = (case end of None \<Rightarrow> oend (store ! last results) | Some p \<Rightarrow> p)
        in case joinResults_store_loop store results (fst s) (snd s) [] of
             Inl err \<Rightarrow> Inl err
           | Inr (kept, line, column) \<Rightarrow>
               if \<not> resultCoordinatesAreValid line column (fst e) (snd e)
               then Inl InvalidLayout
               else Inr (store @ [Obj (defaultType ty) s e kept], length store))"

text \<open>
  \<^verbatim>\<open>sectionP\<close> on the store.  The end of the bullet is read when the bullet parser has
  returned.  The call of \<^verbatim>\<open>bodyP\<close> and the call of the parser it gives follow one
  another: \<open>bodyP lines state bullet\<close> is the two together, with what they do to the
  store.  The end of the body is read when the body result has been shifted, before
  \<^verbatim>\<open>afterP\<close> runs; \<^verbatim>\<open>joinResults\<close> reads the results when \<^verbatim>\<open>afterP\<close> has returned.
  The pair of a state and a result that a parser returns is a value.
\<close>

definition sectionP_after_store ::
  "('s, 't) StoreParser \<Rightarrow> TextLines \<Rightarrow> nat \<times> nat \<Rightarrow> nat \<Rightarrow> 's \<Rightarrow> nat \<Rightarrow> 't Store
     \<Rightarrow> (error + 't Store \<times> ('s \<times> nat) option) option" where
  "sectionP_after_store afterP lines start bullet bodyState body store =
     (case afterP bodyState lines (fst (oend (store ! body))) (snd (oend (store ! body))) store of
        None \<Rightarrow> None
      | Some (Inl e) \<Rightarrow> Some (Inl e)
      | Some (Inr (store', after)) \<Rightarrow>
          let results = (case after of
                           None \<Rightarrow> [bullet, body]
                         | Some (afterState, afterResult) \<Rightarrow> [bullet, body, afterResult]);
              end = (case after of
                       None \<Rightarrow> oend (store ! body)
                     | Some (afterState, afterResult) \<Rightarrow> oend (store' ! afterResult))
          in (case joinResults_store results Structural (Some start) (Some end) store' of
                Inl e \<Rightarrow> Some (Inl e)
              | Inr (store'', joinedResult) \<Rightarrow>
                  Some (Inr (store'', Some (bodyState, joinedResult)))))"

definition sectionP_store ::
  "('s, 't) StoreParser \<Rightarrow> (TextLines \<Rightarrow> 's \<Rightarrow> nat \<Rightarrow> ('s, 't) StoreParser) \<Rightarrow> Lexer \<Rightarrow> Lexer
     \<Rightarrow> ('s, 't) StoreParser \<Rightarrow> ('s, 't) StoreParser" where
  "sectionP_store bulletP bodyP spacesL indentationL afterP state lines line column store =
     (if \<not> valid lines line column then Some (Inl InvalidPosition)
      else if column > 0 then Some (Inr (store, None))
      else case cutoffAfterIndentation lines line (\<lambda>text. spacesL text 0 > 0) of
        Inl e \<Rightarrow> Some (Inl e)
      | Inr bulletLines \<Rightarrow>
          (case bulletP state bulletLines line column store of
             None \<Rightarrow> None
           | Some (Inl e) \<Rightarrow> Some (Inl e)
           | Some (Inr (store1, None)) \<Rightarrow> Some (Inr (store1, None))
           | Some (Inr (store1, Some (bulletState, bullet))) \<Rightarrow>
               (case cutoutTextLines lines (fst (oend (store1 ! bullet)))
                       (snd (oend (store1 ! bullet))) spacesL indentationL of
                  Inl e \<Rightarrow> Some (Inl e)
                | Inr bodyLines \<Rightarrow>
                    (case bodyP lines bulletState bullet bulletState bodyLines 0 0 store1 of
                       None \<Rightarrow> None
                     | Some (Inl e) \<Rightarrow> Some (Inl e)
                     | Some (Inr (store2, None)) \<Rightarrow> Some (Inr (store2, None))
                     | Some (Inr (store2, Some (bodyState, body))) \<Rightarrow>
                         (case shiftResult_store bodyLines [body] store2 of
                            None \<Rightarrow> None
                          | Some (Inl e) \<Rightarrow> Some (Inl e)
                          | Some (Inr store3) \<Rightarrow>
                              sectionP_after_store afterP lines (line, column) bullet
                                bodyState body store3)))))"

text \<open>
  A parser that builds its result of new objects, as the combinators of the source do:
  \<open>alloc\<close> puts the objects of a result tree into the store, the children before their
  parent, and gives the address of the root.
\<close>

fun alloc :: "'t Result \<Rightarrow> 't Store \<Rightarrow> 't Store \<times> nat"
  and allocs :: "'t Result list \<Rightarrow> 't Store \<Rightarrow> 't Store \<times> nat list" where
  "alloc (Result ty sl sc el ec ch) store =
     (case allocs ch store of
        (store', addresses) \<Rightarrow>
          (store' @ [Obj ty (sl, sc) (el, ec) addresses], length store'))"
| "allocs [] store = (store, [])"
| "allocs (c # cs) store =
     (case alloc c store of
        (store', address) \<Rightarrow>
          (case allocs cs store' of
             (store'', addresses) \<Rightarrow> (store'', address # addresses)))"

definition freshP :: "('s, 't) Parser \<Rightarrow> ('s, 't) StoreParser" where
  "freshP parser state lines line column store =
     (case parser state lines line column of
        None \<Rightarrow> None
      | Some (Inl e) \<Rightarrow> Some (Inl e)
      | Some (Inr None) \<Rightarrow> Some (Inr (store, None))
      | Some (Inr (Some (state', result))) \<Rightarrow>
          (case alloc result store of
             (store', address) \<Rightarrow> Some (Inr (store', Some (state', address)))))"

text \<open>
  \<open>holds store address result\<close>: the object at \<open>address\<close>, with the objects below it,
  is the result tree \<open>result\<close>.  \<open>addrs store address result\<close> are the addresses of these
  objects, the root first.  After \<open>alloc\<close> they are new and no two of them are the same
  (\<open>alloc_fresh\<close>, below).
\<close>

fun holds :: "'t Store \<Rightarrow> nat \<Rightarrow> 't Result \<Rightarrow> bool"
  and holdsAll :: "'t Store \<Rightarrow> nat list \<Rightarrow> 't Result list \<Rightarrow> bool" where
  "holds store a (Result ty sl sc el ec ch) =
     (a < length store \<and> otype (store ! a) = ty \<and> ostart (store ! a) = (sl, sc)
      \<and> oend (store ! a) = (el, ec) \<and> holdsAll store (ochildren (store ! a)) ch)"
| "holdsAll store as [] = (as = [])"
| "holdsAll store as (c # cs) =
     (case as of [] \<Rightarrow> False | a # as' \<Rightarrow> holds store a c \<and> holdsAll store as' cs)"

fun addrs :: "'t Store \<Rightarrow> nat \<Rightarrow> 't Result \<Rightarrow> nat list"
  and addrsL :: "'t Store \<Rightarrow> nat list \<Rightarrow> 't Result list \<Rightarrow> nat list" where
  "addrs store a (Result ty sl sc el ec ch) = a # addrsL store (ochildren (store ! a)) ch"
| "addrsL store as [] = []"
| "addrsL store as (c # cs) =
     (case as of [] \<Rightarrow> [] | a # as' \<Rightarrow> addrs store a c @ addrsL store as' cs)"

text \<open>
  \<open>agrees v w\<close>: a parser on the store has returned, in \<open>w\<close>, what a parser on values
  has returned in \<open>v\<close>: both do not return, or both throw the same, or both return
  \<^verbatim>\<open>undefined\<close>, or both return the same state and the object returned is the result
  tree returned.
\<close>

definition agrees ::
  "(error + ('s \<times> 't Result) option) option
     \<Rightarrow> (error + 't Store \<times> ('s \<times> nat) option) option \<Rightarrow> bool" where
  "agrees v w =
     (case v of
        None \<Rightarrow> w = None
      | Some (Inl e) \<Rightarrow> w = Some (Inl e)
      | Some (Inr None) \<Rightarrow>
          (case w of Some (Inr (store', None)) \<Rightarrow> True | _ \<Rightarrow> False)
      | Some (Inr (Some (state, result))) \<Rightarrow>
          (case w of
             Some (Inr (store', Some (state', address))) \<Rightarrow>
               state' = state \<and> holds store' address result
           | _ \<Rightarrow> False))"

subsection \<open>TextLines of a string\<close>

text \<open>
  \<^verbatim>\<open>createTextLines\<close> of a string splits it at \<^verbatim>\<open>/\n\r|\r\n|\r|\n/\<close> and takes
  \<^verbatim>\<open>textOf\<close> of every piece.  \<open>splitLines_loop cur s\<close> scans \<open>s\<close>, \<open>cur\<close> being the
  piece read so far; at a line feed or a carriage return the alternatives of the regular
  expression are tried in their order.
\<close>

fun splitLines_loop :: "string \<Rightarrow> string \<Rightarrow> string list" where
  "splitLines_loop cur [] = [cur]"
| "splitLines_loop cur [c] =
     (if c = CHR 0x0A \<or> c = CHR 0x0D then [cur, []] else [cur @ [c]])"
| "splitLines_loop cur (c # d # rest) =
     (if c = CHR 0x0A \<and> d = CHR 0x0D then cur # splitLines_loop [] rest
      else if c = CHR 0x0D \<and> d = CHR 0x0A then cur # splitLines_loop [] rest
      else if c = CHR 0x0D \<or> c = CHR 0x0A then cur # splitLines_loop [] (d # rest)
      else splitLines_loop (cur @ [c]) (d # rest))"

definition createTextLinesOfString :: "string \<Rightarrow> TextLines" where
  "createTextLinesOfString s = TextLinesImpl (map textOf (splitLines_loop [] s))"

section \<open>The layout condition of joinResults, as the specification words it\<close>

text \<open>
  A position is a pair \<open>(line, column)\<close>; \<open>pos_less p q\<close> is "p lies strictly before q".
  \<open>layoutViolated cursor results end\<close> walks the results in order with a cursor: some
  result begins strictly before the cursor (which then moves to the end of that result),
  or the cursor after the last result lies strictly beyond \<open>end\<close>.  \<open>computedStart\<close> and
  \<open>computedEnd\<close> are the bounds: the override if given, else the start of the first
  result, the end of the last.
\<close>

definition pos_less :: "nat \<times> nat \<Rightarrow> nat \<times> nat \<Rightarrow> bool" where
  "pos_less p q = (fst p < fst q \<or> (fst p = fst q \<and> snd p < snd q))"

fun layoutViolated :: "nat \<times> nat \<Rightarrow> 't Result list \<Rightarrow> nat \<times> nat \<Rightarrow> bool" where
  "layoutViolated cursor [] end = pos_less end cursor"
| "layoutViolated cursor (r # rs) end =
     (pos_less (startOfResult r) cursor \<or> layoutViolated (endOfResult r) rs end)"

definition computedStart :: "'t Result list \<Rightarrow> (nat \<times> nat) option \<Rightarrow> nat \<times> nat" where
  "computedStart results start = (case start of None \<Rightarrow> startOfResult (hd results) | Some p \<Rightarrow> p)"

definition computedEnd :: "'t Result list \<Rightarrow> (nat \<times> nat) option \<Rightarrow> nat \<times> nat" where
  "computedEnd results end = (case end of None \<Rightarrow> endOfResult (last results) | Some p \<Rightarrow> p)"

text \<open>
  What \<^verbatim>\<open>joinResults\<close> rejects besides: every comparison of the walk is refused when
  one of its coordinates is not a safe natural number.  The walk compares the computed
  start, the start and the end of every result, and the computed end.
\<close>

definition safePos :: "nat \<times> nat \<Rightarrow> bool" where
  "safePos p = (nat_is (fst p) \<and> nat_is (snd p))"

definition coordinatesSafe :: "nat \<times> nat \<Rightarrow> 't Result list \<Rightarrow> nat \<times> nat \<Rightarrow> bool" where
  "coordinatesSafe s results e =
     (safePos s
      \<and> list_all (\<lambda>r. safePos (startOfResult r) \<and> safePos (endOfResult r)) results
      \<and> safePos e)"

definition layoutRejected :: "nat \<times> nat \<Rightarrow> 't Result list \<Rightarrow> nat \<times> nat \<Rightarrow> bool" where
  "layoutRejected s results e = (layoutViolated s results e \<or> \<not> coordinatesSafe s results e)"

section \<open>The LR driver (lr_parser.ts)\<close>

subsection \<open>Terminal parsers\<close>

text \<open>
  A terminal match is the object \<^verbatim>\<open>{ sym, state, result }\<close>; \<^verbatim>\<open>sym\<close> is a symbol or
  \<^verbatim>\<open>null\<close> (the final terminal).  \<^verbatim>\<open>TerminalParsers\<close> maps a set of requested
  terminals to a function that returns a list of matches.
\<close>

type_synonym ('sym, 's, 't) TerminalMatch = "'sym option \<times> 's \<times> 't Result"

type_synonym ('sym, 's, 't) TerminalParser =
  "'s \<Rightarrow> TextLines \<Rightarrow> nat \<Rightarrow> nat \<Rightarrow> (error + ('sym, 's, 't) TerminalMatch list) option"

type_synonym ('sym, 's, 't) TerminalParsers =
  "'sym option set \<Rightarrow> ('sym, 's, 't) TerminalParser"

fun mkTerminalParsers_loop ::
  "('sym option \<times> ('s, 't) Parser) list \<Rightarrow> ('sym, 's, 't) TerminalParser" where
  "mkTerminalParsers_loop [] state lines line offset = Some (Inr [])"
| "mkTerminalParsers_loop ((t, parser) # rest) state lines line offset =
     (case parser state lines line offset of
        None \<Rightarrow> None
      | Some (Inl e) \<Rightarrow> Some (Inl e)
      | Some (Inr None) \<Rightarrow> mkTerminalParsers_loop rest state lines line offset
      | Some (Inr (Some (state', result))) \<Rightarrow> Some (Inr [(t, state', result)]))"

definition mkTerminalParsers ::
  "('sym \<times> ('s, 't) Parser) list \<Rightarrow> error + ('sym, 's, 't) TerminalParsers" where
  "mkTerminalParsers parsers =
     (if \<not> distinct (map fst parsers) then Inl DuplicateSymbol
      else Inr (\<lambda>terminals.
        let filtered_parsers =
              map (\<lambda>p. (Some (fst p), snd p)) (filter (\<lambda>p. Some (fst p) \<in> terminals) parsers)
              @ (if None \<in> terminals then [(None, eofP)] else [])
        in mkTerminalParsers_loop filtered_parsers))"

fun orTerminalParsers_loop ::
  "('sym, 's, 't) TerminalParser list \<Rightarrow> 's \<Rightarrow> TextLines \<Rightarrow> nat \<Rightarrow> nat
     \<Rightarrow> ('sym, 's, 't) TerminalMatch list \<Rightarrow> (error + ('sym, 's, 't) TerminalMatch list) option" where
  "orTerminalParsers_loop [] state lines line offset results = Some (Inr results)"
| "orTerminalParsers_loop (parser # rest) state lines line offset results =
     (case parser state lines line offset of
        None \<Rightarrow> None
      | Some (Inl e) \<Rightarrow> Some (Inl e)
      | Some (Inr rs) \<Rightarrow> orTerminalParsers_loop rest state lines line offset (results @ rs))"

definition orTerminalParsers ::
  "('sym, 's, 't) TerminalParsers list \<Rightarrow> ('sym, 's, 't) TerminalParsers" where
  "orTerminalParsers parsers terminals =
     (let specific_parsers = map (\<lambda>p. p terminals) parsers
      in (\<lambda>state lines line offset.
            orTerminalParsers_loop specific_parsers state lines line offset []))"

fun orGreedyTerminalParsers_loop ::
  "('sym, 's, 't) TerminalParser list \<Rightarrow> ('sym, 's, 't) TerminalParser" where
  "orGreedyTerminalParsers_loop [] state lines line offset = Some (Inr [])"
| "orGreedyTerminalParsers_loop (parser # rest) state lines line offset =
     (case parser state lines line offset of
        None \<Rightarrow> None
      | Some (Inl e) \<Rightarrow> Some (Inl e)
      | Some (Inr results) \<Rightarrow>
          if length results > 0 then Some (Inr results)
          else orGreedyTerminalParsers_loop rest state lines line offset)"

definition orGreedyTerminalParsers ::
  "('sym, 's, 't) TerminalParsers list \<Rightarrow> ('sym, 's, 't) TerminalParsers" where
  "orGreedyTerminalParsers parsers terminals =
     (let specific_parsers = map (\<lambda>p. p terminals) parsers
      in orGreedyTerminalParsers_loop specific_parsers)"

subsection \<open>The tables of a grammar\<close>

text \<open>
  Modelled from the spec: the types \<^verbatim>\<open>ActionPlan\<close>, \<^verbatim>\<open>Action\<close> and \<^verbatim>\<open>Rule\<close>, whose
  declarations (\<^verbatim>\<open>actionplan.ts\<close>, \<^verbatim>\<open>lr.ts\<close>) are not among the sources.  The spec names
  the plans \<open>Error\<close>, \<open>Accept\<close>, \<open>Reduce(rule)\<close>, \<open>Shift(targetState, munch)\<close> and
  \<open>Read(options)\<close>, an option being a pair of candidate terminal handles and a
  continuation plan; \<^verbatim>\<open>lrP\<close> reads the fields \<^verbatim>\<open>plan.rule\<close>, \<^verbatim>\<open>plan.state\<close>,
  \<^verbatim>\<open>plan.munch\<close>, \<^verbatim>\<open>plan.options\<close>, \<^verbatim>\<open>rule.lhs\<close> and \<^verbatim>\<open>rule.rhs\<close>.
\<close>

datatype ActionPlan =
    PlanError
  | PlanAccept
  | PlanReduce nat
  | PlanShift nat nat
  | PlanRead "(int list \<times> ActionPlan) list"

datatype Action = Accept | Reduce nat | Shift nat

record Rule =
  lhs :: int
  rhs :: "int list"

text \<open>
  Everything \<^verbatim>\<open>lrP\<close> computes from the grammar before it builds the parsers, with code
  that is not among the sources (\<^verbatim>\<open>convertExprGrammar\<close>, \<^verbatim>\<open>computeLR1Graph\<close>,
  \<^verbatim>\<open>planActions\<close>, the symbol table), is a parameter: the plans of the states, the set of
  final states, the rules, the transition graph and the two directions of the symbol
  table.
\<close>

record 'sym LRTables =
  plans :: "ActionPlan list"
  finalStates :: "nat set"
  rules :: "Rule list"
  graph :: "nat \<Rightarrow> (int \<Rightarrow> nat option) option"
  symsOf :: "int \<Rightarrow> 'sym list option"
  handleOf :: "'sym list \<Rightarrow> int option"

definition goto :: "'sym LRTables \<Rightarrow> nat \<Rightarrow> int \<Rightarrow> nat option" where
  "goto G lr_state nonterminal =
     (case graph G lr_state of
        None \<Rightarrow> None
      | Some edges \<Rightarrow> edges nonterminal)"

text \<open>
  \<^verbatim>\<open>Array.prototype.splice(start, deleteCount, ...items)\<close>: the elements removed and the
  array that remains.
\<close>

definition splice :: "'a list \<Rightarrow> int \<Rightarrow> int \<Rightarrow> 'a list \<Rightarrow> 'a list \<times> 'a list" where
  "splice xs start deleteCount items =
     (let len = int (length xs);
          actualStart = nat (if start < 0 then max (len + start) 0 else min start len);
          actualDeleteCount = nat (min (max deleteCount 0) (len - int actualStart))
      in (take actualDeleteCount (drop actualStart xs),
          take actualStart xs @ items @ drop (actualStart + actualDeleteCount) xs))"

subsection \<open>executePlan\<close>

text \<open>The terminals a \<open>Read\<close> plan asks for: the two nested loops over its options.\<close>

fun terminal_symbols_loop ::
  "'sym LRTables \<Rightarrow> int list \<Rightarrow> 'sym option set \<Rightarrow> error + 'sym option set" where
  "terminal_symbols_loop G [] terminal_symbols = Inr terminal_symbols"
| "terminal_symbols_loop G (terminal # rest) terminal_symbols =
     (if terminal = 0 then terminal_symbols_loop G rest (insert None terminal_symbols)
      else case symsOf G terminal of
        None \<Rightarrow> Inl InvalidTerminalHandle
      | Some syms \<Rightarrow>
          if length syms \<noteq> 1 then Inl InvalidTerminalHandle
          else terminal_symbols_loop G rest (insert (Some (hd syms)) terminal_symbols))"

definition terminal_symbols ::
  "'sym LRTables \<Rightarrow> (int list \<times> ActionPlan) list \<Rightarrow> error + 'sym option set" where
  "terminal_symbols G options = terminal_symbols_loop G (concat (map fst options)) {}"

text \<open>
  The inner function \<^verbatim>\<open>execute\<close>, with the variables of \<^verbatim>\<open>executePlan\<close> it updates:
  the state, the position, the tokens and the states read so far.  It returns the action
  and \<^verbatim>\<open>munch\<close> (0 unless a \<open>Shift\<close> plan sets it).  \<open>execute_option\<close> is the loop that
  looks for the option holding the handle of the terminal read.
\<close>

fun execute ::
  "'sym LRTables \<Rightarrow> ('sym, 's, 't) TerminalParsers \<Rightarrow> TextLines \<Rightarrow> ActionPlan
     \<Rightarrow> 's \<Rightarrow> nat \<Rightarrow> nat \<Rightarrow> 't Result list \<Rightarrow> 's list
     \<Rightarrow> (error + (Action \<times> nat \<times> 't Result list \<times> 's list) option) option"
  and execute_option ::
  "'sym LRTables \<Rightarrow> ('sym, 's, 't) TerminalParsers \<Rightarrow> TextLines \<Rightarrow> (int list \<times> ActionPlan) list
     \<Rightarrow> int \<Rightarrow> 's \<Rightarrow> 't Result \<Rightarrow> 't Result list \<Rightarrow> 's list
     \<Rightarrow> (error + (Action \<times> nat \<times> 't Result list \<times> 's list) option) option" where
  "execute G terminal_parsers lines PlanError state line offset tokens states = Some (Inr None)"
| "execute G terminal_parsers lines PlanAccept state line offset tokens states =
     Some (Inr (Some (Accept, 0, tokens, states)))"
| "execute G terminal_parsers lines (PlanReduce rule) state line offset tokens states =
     Some (Inr (Some (Reduce rule, 0, tokens, states)))"
| "execute G terminal_parsers lines (PlanShift target munch) state line offset tokens states =
     Some (Inr (Some (Shift target, munch, tokens, states)))"
| "execute G terminal_parsers lines (PlanRead options) state line offset tokens states =
     (case terminal_symbols G options of
        Inl e \<Rightarrow> Some (Inl e)
      | Inr syms \<Rightarrow>
          (case terminal_parsers syms state lines line offset of
             None \<Rightarrow> None
           | Some (Inl e) \<Rightarrow> Some (Inl e)
           | Some (Inr results) \<Rightarrow>
               if length results \<noteq> 1 then Some (Inr None)
               else (case hd results of
                       (symb, new_state, result) \<Rightarrow>
                         (case (case symb of None \<Rightarrow> Some 0 | Some s \<Rightarrow> handleOf G [s]) of
                            None \<Rightarrow> Some (Inl UndefinedValue)
                          | Some sym_handle \<Rightarrow>
                              execute_option G terminal_parsers lines options sym_handle
                                new_state result tokens states))))"
| "execute_option G terminal_parsers lines [] sym_handle new_state result tokens states =
     Some (Inl InternalError)"
| "execute_option G terminal_parsers lines (option # rest) sym_handle new_state result tokens states =
     (if sym_handle \<in> set (fst option)
      then execute G terminal_parsers lines (snd option) new_state
             (endLine result) (endColumnExclusive result) (tokens @ [result]) (states @ [new_state])
      else execute_option G terminal_parsers lines rest sym_handle new_state result tokens states)"

text \<open>
  \<^verbatim>\<open>states[munch]\<close> beyond the states read is \<^verbatim>\<open>undefined\<close> in the source, which goes on
  with that as the user state; the model stops there with \<open>UndefinedValue\<close>.
\<close>

definition executePlan ::
  "'sym LRTables \<Rightarrow> ('sym, 's, 't) TerminalParsers \<Rightarrow> 's \<Rightarrow> TextLines \<Rightarrow> nat \<Rightarrow> nat \<Rightarrow> ActionPlan
     \<Rightarrow> (error + ('t Result list \<times> 's \<times> Action) option) option" where
  "executePlan G terminal_parsers state lines line offset plan =
     (case execute G terminal_parsers lines plan state line offset [] [state] of
        None \<Rightarrow> None
      | Some (Inl e) \<Rightarrow> Some (Inl e)
      | Some (Inr None) \<Rightarrow> Some (Inr None)
      | Some (Inr (Some (action, munch, tokens, states))) \<Rightarrow>
          if munch < length states
          then Some (Inr (Some (take munch tokens, states ! munch, action)))
          else Some (Inl UndefinedValue))"

subsection \<open>mkParser\<close>

text \<open>
  The \<^verbatim>\<open>while (true)\<close> loop of \<^verbatim>\<open>parse\<close> leaves in three ways: it throws, it accepts
  (\<open>Accepted state result\<close>), or it calls \<^verbatim>\<open>failed()\<close> in return position; then
  \<open>Failed state line offset results last_valid\<close> holds the variables \<^verbatim>\<open>failed\<close> reads.
  The loop may run forever, so it is a partial function.
\<close>

datatype ('s, 't) LoopExit =
    Accepted 's "'t Result"
  | Failed 's nat nat "'t Result list" "(nat \<times> nat) option"

definition reduceTree :: "'t ResultType \<Rightarrow> 't Result list \<Rightarrow> nat \<Rightarrow> nat \<Rightarrow> 't Result" where
  "reduceTree s rhs_results line offset =
     (if length rhs_results > 0
      then Result s (startLine (hd rhs_results)) (startColumnInclusive (hd rhs_results))
             (endLine (last rhs_results)) (endColumnExclusive (last rhs_results)) rhs_results
      else Result s line offset line offset rhs_results)"

partial_function (option) parse_loop ::
  "'sym LRTables \<Rightarrow> ('sym \<Rightarrow> 't option) \<Rightarrow> ('sym, 's, 't) TerminalParsers \<Rightarrow> TextLines
     \<Rightarrow> nat list \<Rightarrow> 't Result list \<Rightarrow> (nat \<times> nat) option \<Rightarrow> 's \<Rightarrow> nat \<Rightarrow> nat
     \<Rightarrow> (error + ('s, 't) LoopExit) option" where
  "parse_loop G nonterminals terminal_parsers lines lr_states results last_valid state line offset =
     (if lr_states = [] then Some (Inl UndefinedValue)
      else if last lr_states \<ge> length (plans G) then Some (Inl UndefinedValue)
      else
        case executePlan G terminal_parsers state lines line offset (plans G ! last lr_states) of
          None \<Rightarrow> None
        | Some (Inl e) \<Rightarrow> Some (Inl e)
        | Some (Inr None) \<Rightarrow>
            Some (Inr (Failed state line offset results
              (if last lr_states \<in> finalStates G then Some (line, offset) else last_valid)))
        | Some (Inr (Some (tokens, new_state, action))) \<Rightarrow>
            (case action of
               Accept \<Rightarrow>
                 if length results = 1 then Some (Inr (Accepted new_state (hd results)))
                 else Some (Inl InternalError)
             | Reduce r \<Rightarrow>
                 if r \<ge> length (rules G) then Some (Inl UndefinedValue)
                 else if length lr_states > length (rhs (rules G ! r)) then
                   (case goto G (lr_states ! (length lr_states - length (rhs (rules G ! r)) - 1))
                           (lhs (rules G ! r)) of
                      None \<Rightarrow>
                        Some (Inr (Failed new_state line offset results
                          (if last lr_states \<in> finalStates G then Some (line, offset)
                           else last_valid)))
                    | Some goto_lr_state \<Rightarrow>
                        (case symsOf G (lhs (rules G ! r)) of
                           None \<Rightarrow> Some (Inl InternalError)
                         | Some nonterminal \<Rightarrow>
                             if length nonterminal \<noteq> 1 then Some (Inl InternalError)
                             else
                               parse_loop G nonterminals terminal_parsers lines
                                 (snd (splice lr_states
                                         (int (length lr_states) - int (length (rhs (rules G ! r))))
                                         (int (length (rhs (rules G ! r)))) [goto_lr_state]))
                                 (snd (splice results
                                         (int (length results) - int (length (rhs (rules G ! r))))
                                         (int (length (rhs (rules G ! r)))) [])
                                  @ [reduceTree
                                       (case nonterminals (hd nonterminal) of
                                          None \<Rightarrow> Structural
                                        | Some t \<Rightarrow> Labeled t)
                                       (fst (splice results
                                         (int (length results) - int (length (rhs (rules G ! r))))
                                         (int (length (rhs (rules G ! r)))) []))
                                       line offset])
                                 (if last lr_states \<in> finalStates G then Some (line, offset)
                                  else last_valid)
                                 new_state line offset))
                 else Some (Inl InternalError)
             | Shift target \<Rightarrow>
                 if length tokens = 1 then
                   parse_loop G nonterminals terminal_parsers lines
                     (lr_states @ [target]) (results @ [hd tokens])
                     (if last lr_states \<in> finalStates G then Some (line, offset) else last_valid)
                     new_state (endLine (hd tokens)) (endColumnExclusive (hd tokens))
                 else
                   parse_loop G nonterminals terminal_parsers lines
                     (lr_states @ [target])
                     (results @ [Result Structural line offset
                        (if length tokens > 0 then endLine (last tokens) else line)
                        (if length tokens > 0 then endColumnExclusive (last tokens) else offset)
                        tokens])
                     (if last lr_states \<in> finalStates G then Some (line, offset) else last_valid)
                     new_state
                     (if length tokens > 0 then endLine (last tokens) else line)
                     (if length tokens > 0 then endColumnExclusive (last tokens) else offset)))"

text \<open>
  \<^verbatim>\<open>invalid\<close> has the type of a result's \<^verbatim>\<open>type\<close> field: a label, \<^verbatim>\<open>null\<close> or
  \<^verbatim>\<open>undefined\<close> (not provided, \<open>Discarded\<close>).  \<^verbatim>\<open>mkParser(true)\<close> calls
  \<^verbatim>\<open>mkParser(false)\<close>, which calls no parser of its own kind.
\<close>

function mkParser ::
  "'sym LRTables \<Rightarrow> ('sym \<Rightarrow> 't option) \<Rightarrow> ('sym, 's, 't) TerminalParsers \<Rightarrow> 't ResultType
     \<Rightarrow> bool \<Rightarrow> ('s, 't) Parser" where
  "mkParser G nonterminals terminal_parsers invalid maximum_valid state lines line offset =
     (case parse_loop G nonterminals terminal_parsers lines [0] [] None state line offset of
        None \<Rightarrow> None
      | Some (Inl e) \<Rightarrow> Some (Inl e)
      | Some (Inr (Accepted state' result)) \<Rightarrow> Some (Inr (Some (state', result)))
      | Some (Inr (Failed state' line' offset' results last_valid)) \<Rightarrow>
          if maximum_valid \<and> last_valid \<noteq> None then
            (case textlinesUntil lines (fst (the last_valid)) (snd (the last_valid)) of
               Inl e \<Rightarrow> Some (Inl e)
             | Inr linesUntil \<Rightarrow>
                 mkParser G nonterminals terminal_parsers invalid False state linesUntil line offset)
          else if invalid = Discarded then Some (Inr None)
          else Some (Inr (Some (state', Result invalid line offset line' offset' results))))"
  by pat_completeness auto
termination
  by (relation "measure (\<lambda>(G, nonterminals, terminal_parsers, invalid, maximum_valid, rest).
                  if maximum_valid then 1 else 0)") auto

declare mkParser.simps [simp del]

text \<open>
  \<^verbatim>\<open>lrP\<close> returns \<^verbatim>\<open>mkParser(true)\<close> and \<^verbatim>\<open>mkParser(false)\<close>; the map \<^verbatim>\<open>nonterminals\<close>
  is filled from the list of labels in order, a later entry replacing an earlier one.
\<close>

definition nonterminalsOf :: "('sym \<times> 't) list \<Rightarrow> 'sym \<Rightarrow> 't option" where
  "nonterminalsOf nonterminal_labels = map_of (rev nonterminal_labels)"

definition maximum_valid ::
  "'sym LRTables \<Rightarrow> ('sym \<times> 't) list \<Rightarrow> ('sym, 's, 't) TerminalParsers \<Rightarrow> 't ResultType
     \<Rightarrow> ('s, 't) Parser" where
  "maximum_valid G nonterminal_labels terminal_parsers invalid =
     mkParser G (nonterminalsOf nonterminal_labels) terminal_parsers invalid True"

definition maximum_invalid ::
  "'sym LRTables \<Rightarrow> ('sym \<times> 't) list \<Rightarrow> ('sym, 's, 't) TerminalParsers \<Rightarrow> 't ResultType
     \<Rightarrow> ('s, 't) Parser" where
  "maximum_invalid G nonterminal_labels terminal_parsers invalid =
     mkParser G (nonterminalsOf nonterminal_labels) terminal_parsers invalid False"

section \<open>A small grammar, for running the driver\<close>

text \<open>
  The grammar \<open>S \<rightarrow> a\<close> with the terminal \<open>a\<close> (handle 1) and the nonterminal \<open>S\<close>
  (handle 2; handle 0 is the final terminal).  State 0 reads \<open>a\<close> and shifts to state 1;
  state 1 reduces by the rule at the end of the input; state 2, reached by the goto on
  \<open>S\<close>, accepts at the end of the input.  States 1 and 2 are final.
\<close>

definition exTables :: "string LRTables" where
  "exTables = \<lparr>
     plans = [PlanRead [([1], PlanShift 1 1)],
              PlanRead [([0], PlanReduce 0)],
              PlanRead [([0], PlanAccept)]],
     finalStates = {1, 2},
     rules = [\<lparr> lhs = 2, rhs = [1] \<rparr>],
     graph = [0 \<mapsto> [2 \<mapsto> 2]],
     symsOf = [1 \<mapsto> [''a''], 2 \<mapsto> [''S'']],
     handleOf = [[''a''] \<mapsto> 1, [''S''] \<mapsto> 2] \<rparr>"

text \<open>
  The terminal parsers \<^verbatim>\<open>mkTerminalParsers([[sym, literalP(text, sym)]])\<close> of one literal.
\<close>

definition exTerminalParsers :: "string \<Rightarrow> (string, nat, string) TerminalParsers" where
  "exTerminalParsers text terminals =
     mkTerminalParsers_loop
       (map (\<lambda>p. (Some (fst p), snd p))
          (filter (\<lambda>p. Some (fst p) \<in> terminals) [(text, literalP text (Labeled text))])
        @ (if None \<in> terminals then [(None, eofP)] else []))"

definition exLines :: TextLines where
  "exLines = TextLinesImpl [textOf ''ab'']"

definition exTruncated :: TextLines where
  "exTruncated = TextLinesUntil exLines 0 \<lparr> startIndex = 0, count = 1, chars = ''ab'' \<rparr>"

section \<open>Example lexers and the slice a window keeps of a line\<close>

text \<open>
  \<open>skipText k t\<close> is the slice \<^verbatim>\<open>t.slice(k)\<close> when \<open>k \<le> count t\<close>: the text \<open>t\<close> without
  its first \<open>k\<close> characters.
\<close>

definition skipText :: "nat \<Rightarrow> Text \<Rightarrow> Text" where
  "skipText k t = \<lparr> startIndex = k + startIndex t, count = count t - k, chars = chars t \<rparr>"

text \<open>
  Two lexers of the kind \<^verbatim>\<open>sectionP\<close> is used with: \<open>exSpacesL\<close> reads one or more
  spaces, \<open>exIndentationL\<close> reads exactly four spaces; both return \<open>-1\<close> when they do
  not match.
\<close>

definition exSpacesL :: Lexer where
  "exSpacesL text column =
     (let n = length (takeWhile (\<lambda>c. c = CHR '' '') (drop column (iterText text)))
      in if n = 0 then - 1 else int n)"

definition exIndentationL :: Lexer where
  "exIndentationL text column =
     (if take 4 (drop column (iterText text)) = ''    '' then 4 else - 1)"

definition exSection :: TextLines where
  "exSection = TextLinesImpl [textOf ''- x'', textOf ''    a'', textOf ''    b'', textOf ''end'']"

section \<open>Repetition: the runs of repP\<close>

text \<open>
  \<open>repeats parser lines (state, line, column) results (state', line', column')\<close>: applied
  again and again, each time at the end of the previous result and with the previous
  state, \<open>parser\<close> succeeds with the results \<open>results\<close>, in this order, and so leads from
  \<open>(state, line, column)\<close> to \<open>(state', line', column')\<close>.
\<close>

inductive repeats ::
  "('s, 't) Parser \<Rightarrow> TextLines \<Rightarrow> 's \<times> nat \<times> nat \<Rightarrow> 't Result list \<Rightarrow> 's \<times> nat \<times> nat \<Rightarrow> bool"
  for parser :: "('s, 't) Parser" and lines :: TextLines where
  repeats_none: "repeats parser lines p [] p"
| repeats_step:
    "parser state lines line column = Some (Inr (Some (state', result))) \<Longrightarrow>
     repeats parser lines (state', endLine result, endColumnExclusive result) results q \<Longrightarrow>
     repeats parser lines (state, line, column) (result # results) q"

code_pred repeats .

definition isDigit :: "TextChar \<Rightarrow> bool" where
  "isDigit c = (c \<in> set ''0123456789'')"


section \<open>A section, for running sectionP\<close>

text \<open>
  The text \<open>exSection\<close> has a bullet line \<open>- x\<close>, two body lines indented by four
  spaces and a line \<open>end\<close>.  \<open>exWindow\<close> is the window cut out after the bullet.  The
  body parser reads the rest of the bullet line and the two body lines; \<open>countingP\<close>
  makes a parser add one to the user state when it succeeds.
\<close>

definition exWindow :: TextLines where
  "exWindow = TextLinesWindow exSection 0
              [\<lparr> startIndex = 3, count = 0, chars = ''- x'' \<rparr>,
               \<lparr> startIndex = 4, count = 1, chars = ''    a'' \<rparr>,
               \<lparr> startIndex = 4, count = 1, chars = ''    b'' \<rparr>]
              [3, 4, 4]"

definition exBulletP :: "(nat, string) Parser" where
  "exBulletP = literalP ''- x'' (Labeled ''Bullet'')"

definition exBodyP :: "TextLines \<Rightarrow> nat \<Rightarrow> string Result \<Rightarrow> (nat, string) Parser" where
  "exBodyP lines state bullet_result =
     seqP [newlineP, literalP ''a'' (Labeled ''A''), newlineP, literalP ''b'' (Labeled ''B'')]"

definition countingP :: "(nat, string) Parser \<Rightarrow> (nat, string) Parser" where
  "countingP parser =
     modifyParseResultP parser (\<lambda>lines parse_result.
       case parse_result of None \<Rightarrow> None | Some (state, result) \<Rightarrow> Some (state + 1, result))"

definition exAfterP :: "(nat, string) Parser" where
  "exAfterP = countingP (seqP [newlineP, literalP ''end'' (Labeled ''End'')])"


text \<open>The results of a section as \<^verbatim>\<open>sectionP\<close> hands them to \<^verbatim>\<open>joinResults\<close>.\<close>

definition sectionResults ::
  "'t Result \<Rightarrow> 't Result \<Rightarrow> ('s, 't) ParseResult \<Rightarrow> 't Result list" where
  "sectionResults bulletResult bodyResult after =
     (case after of
        None \<Rightarrow> [bulletResult, bodyResult]
      | Some (afterState, afterResult) \<Rightarrow> [bulletResult, bodyResult, afterResult])"

definition sectionEnd :: "'t Result \<Rightarrow> ('s, 't) ParseResult \<Rightarrow> nat \<times> nat" where
  "sectionEnd bodyResult after =
     (case after of
        None \<Rightarrow> endOfResult bodyResult
      | Some (afterState, afterResult) \<Rightarrow> endOfResult afterResult)"

section \<open>A section on the store\<close>

text \<open>
  The parsers of the section \<open>exSection\<close> as parsers that build new objects.
\<close>

definition exBodyS :: "TextLines \<Rightarrow> nat \<Rightarrow> nat \<Rightarrow> (nat, string) StoreParser" where
  "exBodyS lines state bullet =
     freshP (seqP [newlineP, literalP ''a'' (Labeled ''A''), newlineP, literalP ''b'' (Labeled ''B'')])"

text \<open>
  A body parser that returns the bullet result object in its result: on the one line
  \<open>- x yzw\<close>, the body parser reads \<open>yzw\<close> and returns a new node at the end of it, with
  the bullet result for its child.
\<close>

definition exShared :: TextLines where
  "exShared = TextLinesImpl [textOf ''- x yzw'']"

definition exSharedWindow :: TextLines where
  "exSharedWindow = TextLinesWindow exShared 0
                      [\<lparr> startIndex = 4, count = 3, chars = ''- x yzw'' \<rparr>] [4]"

definition exSharingBodyS :: "TextLines \<Rightarrow> nat \<Rightarrow> nat \<Rightarrow> (nat, string) StoreParser" where
  "exSharingBodyS lines state bullet state' bodyLines line column store =
     Some (Inr (store @ [Obj Structural (0, 3) (0, 3) [bullet]], Some (state', length store)))"

text \<open>
  The results of a section as \<^verbatim>\<open>sectionP\<close> hands them to \<^verbatim>\<open>joinResults\<close>, and the end
  it gives: of the after result, in the store \<open>store'\<close> that \<^verbatim>\<open>afterP\<close> has left, or
  of the body result, in the store \<open>store\<close> that \<^verbatim>\<open>afterP\<close> was given.  \<open>resultAt\<close> is
  what \<^verbatim>\<open>joinResults\<close> reads of an object: the type and the span, not the children.
\<close>

definition sectionResults_store :: "nat \<Rightarrow> nat \<Rightarrow> ('s \<times> nat) option \<Rightarrow> nat list" where
  "sectionResults_store bullet body after =
     (case after of
        None \<Rightarrow> [bullet, body]
      | Some (afterState, afterResult) \<Rightarrow> [bullet, body, afterResult])"

definition sectionEnd_store ::
  "'t Store \<Rightarrow> 't Store \<Rightarrow> nat \<Rightarrow> ('s \<times> nat) option \<Rightarrow> nat \<times> nat" where
  "sectionEnd_store store store' body after =
     (case after of
        None \<Rightarrow> oend (store ! body)
      | Some (afterState, afterResult) \<Rightarrow> oend (store' ! afterResult))"

definition resultAt :: "'t Store \<Rightarrow> nat \<Rightarrow> 't Result" where
  "resultAt store address =
     Result (otype (store ! address))
       (fst (ostart (store ! address))) (snd (ostart (store ! address)))
       (fst (oend (store ! address))) (snd (oend (store ! address))) []"

section \<open>Spans, and the parsers built from the combinators\<close>

text \<open>
  \<open>pos_le p q\<close>: the position \<open>p\<close> is \<open>q\<close> or lies before it.  A span is valid when it
  starts at or before its end; a child lies within its parent when it starts at or after
  the parent's start and ends at or before the parent's end; children are in order when
  each ends at or before the start of every later one.
\<close>

definition pos_le :: "nat \<times> nat \<Rightarrow> nat \<times> nat \<Rightarrow> bool" where
  "pos_le p q = (fst p < fst q \<or> (fst p = fst q \<and> snd p \<le> snd q))"

definition spanValid :: "'t Result \<Rightarrow> bool" where
  "spanValid r = pos_le (startOfResult r) (endOfResult r)"

definition within :: "'t Result \<Rightarrow> 't Result \<Rightarrow> bool" where
  "within child parent =
     (pos_le (startOfResult parent) (startOfResult child)
      \<and> pos_le (endOfResult child) (endOfResult parent))"

definition childrenOrdered :: "'t Result list \<Rightarrow> bool" where
  "childrenOrdered cs = sorted_wrt (\<lambda>a b. pos_le (endOfResult a) (startOfResult b)) cs"

text \<open>
  The parsers built from \<open>emptyP\<close>, \<open>charP\<close>, \<open>newlineP\<close>, \<open>eofP\<close>, \<open>bolP\<close>, \<open>seqP\<close>,
  \<open>orP\<close>, \<open>repP\<close>, \<open>literalP\<close> and \<open>sectionP\<close>.  The body parser of a section is chosen
  by a function; every parser it can choose is built in this way too.
\<close>

inductive built :: "('s, 't) Parser \<Rightarrow> bool" where
  built_emptyP: "built emptyP"
| built_charP: "built (charP predicate)"
| built_newlineP: "built newlineP"
| built_eofP: "built eofP"
| built_bolP: "built bolP"
| built_seqP: "(\<And>p. p \<in> set parsers \<Longrightarrow> built p) \<Longrightarrow> built (seqP parsers)"
| built_orP: "(\<And>p. p \<in> set parsers \<Longrightarrow> built p) \<Longrightarrow> built (orP parsers)"
| built_repP: "(\<And>p. p \<in> set parsers \<Longrightarrow> built p) \<Longrightarrow> built (repP parsers)"
| built_literalP: "built (literalP text ty)"
| built_sectionP:
    "built bulletP \<Longrightarrow> (\<And>lines state bullet_result. built (bodyP lines state bullet_result)) \<Longrightarrow>
     built afterP \<Longrightarrow> built (sectionP bulletP bodyP spacesL indentationL afterP)"

text \<open>The invariant carried through the proof: what every result of a built parser satisfies.\<close>

definition spanInvariant :: "nat \<Rightarrow> nat \<Rightarrow> 't Result \<Rightarrow> bool" where
  "spanInvariant l c r =
     (startOfResult r = (l, c) \<and> spanValid r \<and> childrenOrdered (children r)
      \<and> list_all spanValid (children r) \<and> list_all (\<lambda>ch. within ch r) (children r))"

definition good :: "('s, 't) Parser \<Rightarrow> bool" where
  "good p = (\<forall>state lines l c state' r.
     p state lines l c = Some (Inr (Some (state', r))) \<longrightarrow> spanInvariant l c r)"

text \<open>The invariant of the loops: the children kept so far, between start and cursor.\<close>

definition keptBetween :: "nat \<times> nat \<Rightarrow> 't Result list \<Rightarrow> nat \<times> nat \<Rightarrow> bool" where
  "keptBetween s kept cur =
     (pos_le s cur \<and> childrenOrdered kept \<and> list_all spanValid kept
      \<and> list_all (\<lambda>k. pos_le s (startOfResult k) \<and> pos_le (endOfResult k) cur) kept)"

text \<open>The section example with an after parser built from the combinators.\<close>

definition exSectionP :: "(nat, string) Parser" where
  "exSectionP =
     sectionP exBulletP exBodyP exSpacesL exIndentationL
       (seqP [newlineP, literalP ''end'' (Labeled ''End'')])"

section \<open>Running the combinators\<close>

text \<open>The definitions a run of the basic combinators on a concrete text unfolds.\<close>

lemmas parser_eval =
  textOf_def iterText_def charAt_def slice_def
  literalP_def seqP_def setTypeP_def modifyTypeP_def modifyResultP_def modifyParseResultP_def
  charP_def eofP_def newlineP_def nat_is_def defaultType_def

section \<open>joinResults\<close>

lemma not_resultCoordinatesAreValid:
  "(\<not> resultCoordinatesAreValid l c l' c')
     = (pos_less (l', c') (l, c) \<or> \<not> safePos (l, c) \<or> \<not> safePos (l', c'))"
  by (auto simp: resultCoordinatesAreValid_def pos_less_def safePos_def)

lemma layoutRejected_Nil:
  "layoutRejected p [] e = (pos_less e p \<or> \<not> safePos p \<or> \<not> safePos e)"
  by (auto simp: layoutRejected_def coordinatesSafe_def)

lemma layoutRejected_Cons:
  "layoutRejected p (r # rs) e =
     (pos_less (startOfResult r) p \<or> \<not> safePos p \<or> \<not> safePos (startOfResult r)
      \<or> layoutRejected (endOfResult r) rs e)"
  by (auto simp: layoutRejected_def coordinatesSafe_def)

lemma not_layoutRejected:
  "\<not> layoutRejected s results e \<Longrightarrow> \<not> layoutViolated s results e"
  by (simp add: layoutRejected_def)

lemma joinResults_loop_Inl:
  "joinResults_loop rs (fst p) (snd p) kept = Inl e \<Longrightarrow>
     e = InvalidLayout \<and> layoutRejected p rs end"
proof (induction rs arbitrary: p kept)
  case Nil
  then show ?case by simp
next
  case (Cons r rs)
  show ?case
  proof (cases "resultCoordinatesAreValid (fst p) (snd p) (startLine r) (startColumnInclusive r)")
    case False
    then show ?thesis
      using Cons.prems not_resultCoordinatesAreValid[of "fst p" "snd p" "startLine r" "startColumnInclusive r"]
      by (auto simp: startOfResult_def layoutRejected_Cons)
  next
    case True
    then show ?thesis
      using Cons.prems
        Cons.IH[where p = "endOfResult r"
                  and kept = "if type r \<noteq> Discarded then kept @ [r] else kept"]
      by (simp add: endOfResult_def layoutRejected_Cons)
  qed
qed

lemma joinResults_loop_Inr:
  "joinResults_loop rs (fst p) (snd p) kept = Inr (k, l', c') \<Longrightarrow>
     k = kept @ filter (\<lambda>r. type r \<noteq> Discarded) rs
     \<and> (layoutRejected p rs end
          \<longleftrightarrow> pos_less end (l', c') \<or> \<not> safePos (l', c') \<or> \<not> safePos end)"
proof (induction rs arbitrary: p kept)
  case Nil
  then show ?case by (auto simp: layoutRejected_Nil)
next
  case (Cons r rs)
  have v: "resultCoordinatesAreValid (fst p) (snd p) (startLine r) (startColumnInclusive r)"
    using Cons.prems by (simp split: if_splits)
  then have nv: "\<not> pos_less (startOfResult r) p" "safePos p" "safePos (startOfResult r)"
    using not_resultCoordinatesAreValid[of "fst p" "snd p" "startLine r" "startColumnInclusive r"]
    by (simp_all add: startOfResult_def)
  show ?case
    using Cons.prems v nv
      Cons.IH[where p = "endOfResult r"
                and kept = "if type r \<noteq> Discarded then kept @ [r] else kept"]
    by (simp add: endOfResult_def layoutRejected_Cons)
qed

lemma joinResults_given_bounds:
  "joinResults results ty (Some s) (Some e) =
     (if layoutRejected s results e then Inl InvalidLayout
      else Inr (Result (defaultType ty) (fst s) (snd s) (fst e) (snd e)
                  (filter (\<lambda>r. type r \<noteq> Discarded) results)))"
proof (cases "joinResults_loop results (fst s) (snd s) []")
  case (Inl err)
  from joinResults_loop_Inl[OF Inl, of e] show ?thesis
    unfolding joinResults_def Let_def using Inl by simp
next
  case (Inr x)
  obtain k l' c' where x: "x = (k, l', c')" by (cases x) auto
  from joinResults_loop_Inr[OF Inr[unfolded x], of e] show ?thesis
    unfolding joinResults_def Let_def using Inr x
    by (auto simp: not_resultCoordinatesAreValid)
qed

text \<open>
  Claim C6, amended.  \<open>joinResults\<close> throws \<open>InvalidArguments\<close> if and only if there is no
  result and the start or the end is not given.  Otherwise it throws \<open>InvalidLayout\<close> if
  and only if, walking the results with a cursor from the computed start, some result
  begins strictly before the cursor or the final cursor lies strictly beyond the computed
  end, or a coordinate of the walk (of the computed start, of a start or an end of a
  result, of the computed end) is not a safe natural number: \<open>layoutRejected\<close>.  In
  every remaining case it returns the node with the computed bounds and the results that
  are not \<open>Discarded\<close>; the type of the node is the type given, and \<^verbatim>\<open>null\<close> when
  \<^verbatim>\<open>undefined\<close> is given.
\<close>

theorem joinResults_errors:
  "(joinResults results ty start end = Inl InvalidArguments
      \<longleftrightarrow> results = [] \<and> (start = None \<or> end = None))
   \<and> (\<not> (results = [] \<and> (start = None \<or> end = None)) \<longrightarrow>
        (joinResults results ty start end = Inl InvalidLayout
           \<longleftrightarrow> layoutRejected (computedStart results start) results (computedEnd results end))
        \<and> (\<not> layoutRejected (computedStart results start) results (computedEnd results end) \<longrightarrow>
             joinResults results ty start end =
               Inr (Result (defaultType ty)
                      (fst (computedStart results start)) (snd (computedStart results start))
                      (fst (computedEnd results end)) (snd (computedEnd results end))
                      (filter (\<lambda>r. type r \<noteq> Discarded) results))))"
proof -
  let ?s = "computedStart results start" and ?e = "computedEnd results end"
  have s: "(case start of None \<Rightarrow> (startLine (hd results), startColumnInclusive (hd results)) | Some p \<Rightarrow> p) = ?s"
    by (simp add: computedStart_def startOfResult_def split: option.splits)
  have e: "(case end of None \<Rightarrow> (endLine (last results), endColumnExclusive (last results)) | Some p \<Rightarrow> p) = ?e"
    by (simp add: computedEnd_def endOfResult_def split: option.splits)
  show ?thesis
  proof (cases "joinResults_loop results (fst ?s) (snd ?s) []")
    case (Inl err)
    from joinResults_loop_Inl[OF Inl, of ?e] show ?thesis
      unfolding joinResults_def s e Let_def using Inl by auto
  next
    case (Inr x)
    obtain k l' c' where x: "x = (k, l', c')" by (cases x) auto
    from joinResults_loop_Inr[OF Inr[unfolded x], of ?e] show ?thesis
      unfolding joinResults_def s e Let_def using Inr x
      by (auto simp: not_resultCoordinatesAreValid)
  qed
qed

theorem joinResults_errors_witness:
  "joinResults [Result (Labeled ''a'') 0 0 0 2 [], Result Discarded 0 2 1 0 []] Discarded None None
     = Inr (Result Structural 0 0 1 0 [Result (Labeled ''a'') 0 0 0 2 []])
   \<and> joinResults [Result (Labeled ''a'') 0 3 0 5 []] Structural (Some (0, 4)) None
     = Inl InvalidLayout
   \<and> joinResults [Result (Labeled ''a'') 0 0 0 9007199254740992 []] (Labeled ''b'') None None
     = Inl InvalidLayout
   \<and> joinResults ([] :: string Result list) Structural None (Some (0, 0)) = Inl InvalidArguments"
  using joinResults_errors[of "[Result (Labeled ''a'') 0 0 0 2 [], Result Discarded 0 2 1 0 []]"
          Discarded None None]
        joinResults_errors[of "[Result (Labeled ''a'') 0 3 0 5 []]" Structural "Some (0, 4)" None]
        joinResults_errors[of "[Result (Labeled ''a'') 0 0 0 9007199254740992 []]" "Labeled ''b''"
          None None]
        joinResults_errors[of "[] :: string Result list" Structural None "Some (0, 0)"]
  by (simp add: computedStart_def computedEnd_def startOfResult_def endOfResult_def pos_less_def
        layoutRejected_def coordinatesSafe_def safePos_def nat_is_def defaultType_def)

text \<open>
  As stated, the claim fails where a coordinate is beyond the safe natural numbers.  The
  one result here starts at \<open>(0, 0)\<close> and ends at column \<open>2^53\<close> of that line; walking it
  from its start to its end, no result begins before the cursor and the final cursor is
  the computed end, but \<^verbatim>\<open>joinResults\<close> throws \<open>InvalidLayout\<close>:
  \<^verbatim>\<open>resultCoordinatesAreValid\<close> refuses every comparison with such a coordinate.
\<close>

theorem joinResults_unsafe_counterexample:
  "joinResults [Result (Labeled ''a'') 0 0 0 9007199254740992 []] (Labeled ''b'') None None
     = Inl InvalidLayout
   \<and> computedStart [Result (Labeled ''a'') 0 0 0 9007199254740992 []] None = (0, 0)
   \<and> computedEnd [Result (Labeled ''a'') 0 0 0 9007199254740992 []] None = (0, 9007199254740992)
   \<and> \<not> layoutViolated (0, 0) [Result (Labeled ''a'') 0 0 0 9007199254740992 []]
         (0, 9007199254740992)"
  by (simp add: joinResults_def resultCoordinatesAreValid_def nat_is_def computedStart_def
        computedEnd_def startOfResult_def endOfResult_def pos_less_def)

section \<open>eofP\<close>

text \<open>
  Claim C5, amended.  At every valid position, \<open>eofP\<close> succeeds exactly when
  \<open>line = lineCount\<close>, or when \<open>line\<close> is the last line and \<open>column\<close> is the length of
  \<open>lineAt line\<close>; it then returns the state unchanged and a zero-length \<open>Discarded\<close> node
  at \<open>(line, column)\<close>; at every other valid position it returns \<^verbatim>\<open>undefined\<close>.
\<close>

theorem eofP_at_valid_position:
  assumes "valid lines line column"
    and "line < lineCount lines \<Longrightarrow> lineAt lines line = Inr text"
  shows "eofP state lines line column =
     (if line = lineCount lines \<or> (line + 1 = lineCount lines \<and> column = count text)
      then Some (Inr (Some (state, Result Discarded line column line column [])))
      else Some (Inr None))"
  using assms by (auto simp: eofP_def)

theorem eofP_at_valid_position_witness:
  "eofP (7::nat) (TextLinesImpl [textOf ''ab'', textOf ''cd'']) 1 2 =
     Some (Inr (Some (7, Result Discarded 1 2 1 2 ([] :: unit Result list))))
   \<and> eofP (7::nat) (TextLinesImpl [textOf ''ab'', textOf ''cd'']) 1 1 =
     (Some (Inr None) :: (error + (nat, unit) ParseResult) option)
   \<and> eofP (7::nat) (TextLinesImpl []) 0 0 =
     Some (Inr (Some (7, Result Discarded 0 0 0 0 ([] :: unit Result list))))"
  using eofP_at_valid_position[of "TextLinesImpl [textOf ''ab'', textOf ''cd'']" 1 2 "textOf ''cd''" "7::nat"]
        eofP_at_valid_position[of "TextLinesImpl [textOf ''ab'', textOf ''cd'']" 1 1 "textOf ''cd''" "7::nat"]
        eofP_at_valid_position[of "TextLinesImpl []" 0 0 "textOf ''''" "7::nat"]
  by (simp add: textOf_def nat_is_def)

text \<open>
  As stated for every line and column, the claim fails: \<open>eofP\<close> first asserts the
  position, and \<open>(lineCount, 0)\<close> is not a valid position of a text with one line, so
  the call throws although \<open>line = lineCount\<close>.
\<close>

theorem eofP_invalid_position_counterexample:
  "1 = lineCount (TextLinesImpl [textOf ''a''])
   \<and> eofP () (TextLinesImpl [textOf ''a'']) 1 0
       = (Some (Inl InvalidPosition) :: (error + (unit, unit) ParseResult) option)"
  by (simp add: eofP_def)

section \<open>The LR driver: restart at the last valid position\<close>

lemma exTerminalParsers_mk:
  "mkTerminalParsers [(text, literalP text (Labeled text))] = Inr (exTerminalParsers text)"
  by (simp add: mkTerminalParsers_def exTerminalParsers_def fun_eq_iff)

lemma exTruncated_until: "textlinesUntil exLines 0 1 = Inr exTruncated"
  by (simp add: textlinesUntil_def new_TextLinesUntil_def exLines_def exTruncated_def
      textOf_def slice_def)

lemmas ex_eval =
  exTables_def exTerminalParsers_def exLines_def exTruncated_def
  executePlan_def terminal_symbols_def goto_def splice_def reduceTree_def nonterminalsOf_def
  parser_eval

lemma ex_parse_loop_fails:
  "parse_loop exTables (nonterminalsOf [(''S'', ''Start'')]) (exTerminalParsers ''a'') exLines
     [0] [] None (5::nat) 0 0
   = Some (Inr (Failed 5 0 1 [Result (Labeled ''a'') 0 0 0 1 []] (Some (0, 1))))"
  by (simp add: parse_loop.simps ex_eval)

lemma ex_parse_loop_accepts:
  "parse_loop exTables (nonterminalsOf [(''S'', ''Start'')]) (exTerminalParsers ''a'') exTruncated
     [0] [] None (5::nat) 0 0
   = Some (Inr (Accepted 5 (Result (Labeled ''Start'') 0 0 0 1 [Result (Labeled ''a'') 0 0 0 1 []])))"
  by (simp add: parse_loop.simps ex_eval)

text \<open>
  Claim C1.  When the loop of the maximum-valid parser ends in \<^verbatim>\<open>failed()\<close> with a
  recorded \<open>last_valid = (ql, qc)\<close>, the parser returns what the maximum-invalid parser
  returns from the same initial state and entry position on
  \<open>textlinesUntil lines ql qc\<close> (also when that run throws or does not return).  This
  holds for all tables, so for those \<^verbatim>\<open>lrP\<close> builds, and whatever \<open>invalid\<close> is.
\<close>

theorem maximum_valid_restart:
  assumes "parse_loop G (nonterminalsOf nonterminal_labels) terminal_parsers lines
             [0] [] None state line offset
           = Some (Inr (Failed state' line' offset' results (Some (ql, qc))))"
    and "textlinesUntil lines ql qc = Inr linesUntil"
  shows "maximum_valid G nonterminal_labels terminal_parsers invalid state lines line offset
         = maximum_invalid G nonterminal_labels terminal_parsers invalid state linesUntil line offset"
  unfolding maximum_valid_def maximum_invalid_def
  by (subst mkParser.simps) (simp add: assms)

theorem maximum_valid_restart_witness:
  "maximum_valid exTables [(''S'', ''Start'')] (exTerminalParsers ''a'') (Labeled ''Invalid'')
     (5::nat) exLines 0 0
   = maximum_invalid exTables [(''S'', ''Start'')] (exTerminalParsers ''a'') (Labeled ''Invalid'')
       5 exTruncated 0 0
   \<and> maximum_invalid exTables [(''S'', ''Start'')] (exTerminalParsers ''a'') (Labeled ''Invalid'')
       (5::nat) exTruncated 0 0
     = Some (Inr (Some (5, Result (Labeled ''Start'') 0 0 0 1 [Result (Labeled ''a'') 0 0 0 1 []])))
   \<and> maximum_invalid exTables [(''S'', ''Start'')] (exTerminalParsers ''a'') (Labeled ''Invalid'')
       (5::nat) exLines 0 0
     = Some (Inr (Some (5, Result (Labeled ''Invalid'') 0 0 0 1 [Result (Labeled ''a'') 0 0 0 1 []])))"
proof -
  have "maximum_invalid exTables [(''S'', ''Start'')] (exTerminalParsers ''a'') (Labeled ''Invalid'')
       (5::nat) exTruncated 0 0
     = Some (Inr (Some (5, Result (Labeled ''Start'') 0 0 0 1 [Result (Labeled ''a'') 0 0 0 1 []])))"
    unfolding maximum_invalid_def
    by (subst mkParser.simps) (simp add: ex_parse_loop_accepts)
  moreover have "maximum_invalid exTables [(''S'', ''Start'')] (exTerminalParsers ''a'')
       (Labeled ''Invalid'') (5::nat) exLines 0 0
     = Some (Inr (Some (5, Result (Labeled ''Invalid'') 0 0 0 1 [Result (Labeled ''a'') 0 0 0 1 []])))"
    unfolding maximum_invalid_def
    by (subst mkParser.simps) (simp add: ex_parse_loop_fails)
  ultimately show ?thesis
    using maximum_valid_restart[OF ex_parse_loop_fails exTruncated_until, of "Labeled ''Invalid''"]
    by simp
qed

section \<open>Choice of terminal parsers\<close>

lemma orTerminalParsers_loop_concat:
  "map (\<lambda>p. p state lines line offset) ps = map (\<lambda>rs. Some (Inr rs)) rss \<Longrightarrow>
     orTerminalParsers_loop ps state lines line offset acc = Some (Inr (acc @ concat rss))"
proof (induction ps arbitrary: rss acc)
  case Nil
  then show ?case by simp
next
  case (Cons p ps)
  then obtain rs rss' where rss: "rss = rs # rss'" by (cases rss) auto
  with Cons.prems have p: "p state lines line offset = Some (Inr rs)"
    and rest: "map (\<lambda>p. p state lines line offset) ps = map (\<lambda>rs. Some (Inr rs)) rss'"
    by simp_all
  show ?case using Cons.IH[OF rest, of "acc @ rs"] p rss by simp
qed

lemma orGreedyTerminalParsers_loop_first:
  "map (\<lambda>p. p state lines line offset) ps = map (\<lambda>rs. Some (Inr rs)) rss \<Longrightarrow>
     orGreedyTerminalParsers_loop ps state lines line offset
       = Some (Inr (case filter (\<lambda>rs. rs \<noteq> []) rss of [] \<Rightarrow> [] | rs # others \<Rightarrow> rs))"
proof (induction ps arbitrary: rss)
  case Nil
  then show ?case by simp
next
  case (Cons p ps)
  then obtain rs rss' where rss: "rss = rs # rss'" by (cases rss) auto
  with Cons.prems have p: "p state lines line offset = Some (Inr rs)"
    and rest: "map (\<lambda>p. p state lines line offset) ps = map (\<lambda>rs. Some (Inr rs)) rss'"
    by simp_all
  show ?case using Cons.IH[OF rest] p rss by simp
qed

text \<open>
  Claim C7.  For every set of terminals, state, lines and position: when the parsers
  obtained from the elements of \<open>parsers\<close> return the lists \<open>rss\<close>, in this order, the
  parser obtained from \<open>orTerminalParsers parsers\<close> returns their concatenation, and the
  one obtained from \<open>orGreedyTerminalParsers parsers\<close> returns the first list that is
  not empty, or the empty list if all are empty.
\<close>

theorem terminal_choice:
  assumes "map (\<lambda>p. p terminals state lines line offset) parsers = map (\<lambda>rs. Some (Inr rs)) rss"
  shows "orTerminalParsers parsers terminals state lines line offset = Some (Inr (concat rss))
       \<and> orGreedyTerminalParsers parsers terminals state lines line offset
           = Some (Inr (case filter (\<lambda>rs. rs \<noteq> []) rss of [] \<Rightarrow> [] | rs # others \<Rightarrow> rs))"
proof -
  have m: "map (\<lambda>p. p state lines line offset) (map (\<lambda>p. p terminals) parsers)
             = map (\<lambda>rs. Some (Inr rs)) rss"
    using assms by (simp add: comp_def)
  show ?thesis
    using orTerminalParsers_loop_concat[OF m, of "[]"] orGreedyTerminalParsers_loop_first[OF m]
    by (simp add: orTerminalParsers_def orGreedyTerminalParsers_def)
qed

theorem terminal_choice_witness:
  "orTerminalParsers [exTerminalParsers ''b'', exTerminalParsers ''a'', exTerminalParsers ''ab'']
       {Some ''a'', Some ''ab'', Some ''b''} (5::nat) exLines 0 0
     = Some (Inr [(Some ''a'', 5, Result (Labeled ''a'') 0 0 0 1 []),
                  (Some ''ab'', 5, Result (Labeled ''ab'') 0 0 0 2 [])])
   \<and> orGreedyTerminalParsers
       [exTerminalParsers ''b'', exTerminalParsers ''a'', exTerminalParsers ''ab'']
       {Some ''a'', Some ''ab'', Some ''b''} (5::nat) exLines 0 0
     = Some (Inr [(Some ''a'', 5, Result (Labeled ''a'') 0 0 0 1 [])])"
  using terminal_choice[where
      parsers = "[exTerminalParsers ''b'', exTerminalParsers ''a'', exTerminalParsers ''ab'']"
      and terminals = "{Some ''a'', Some ''ab'', Some ''b''}" and state = "5::nat"
      and lines = exLines and line = 0 and offset = 0
      and rss = "[[], [(Some ''a'', 5, Result (Labeled ''a'') 0 0 0 1 [])],
        [(Some ''ab'', 5, Result (Labeled ''ab'') 0 0 0 2 [])]]"]
  by (simp add: exTerminalParsers_def exLines_def parser_eval)

section \<open>Printing a literal\<close>

lemma literalP_abc: "literalP ''abc'' (Labeled ''A'') state (createTextLinesOfString ''abc'') 0 0
      = Some (Inr (Some (state, Result (Labeled ''A'') 0 0 0 3 [])))"
  by (simp add: nat_is_def createTextLinesOfString_def literalP_def seqP_def setTypeP_def modifyTypeP_def
      modifyResultP_def modifyParseResultP_def charP_def charAt_def iterText_def textOf_def)

lemma printRange_abc: \<open>printRange (Result (Labeled ''A'') 0 0 0 3 []) = ''[00:00 to 00:03[''\<close>
  by (simp add: nat_is_def printRange_def digits_def)

lemma textOfResult_abc: \<open>textOfResult (createTextLinesOfString ''abc'') (Result (Labeled ''A'') 0 0 0 3 []) = Inr (textOfChars ''abc'')\<close>
  by (simp add: nat_is_def textOfResult_def textlinesOfResult_def copySliceOfTextLines_def createTextLinesOfString_def
     textOf_def slice_def createTextLines_def textOfTextLines_def iterText_def NEWLINE_def)

text \<open>
  Claim C8.  \<open>literalP "abc" "A"\<close> at \<open>(0, 0)\<close> of the text lines of \<open>"abc"\<close> returns the
  node labeled \<open>A\<close> spanning \<open>[0:0, 0:3)\<close>, and \<open>printResult\<close> on it, with \<open>nameOf\<close> the
  identity and \<open>isOpaque\<close> constantly false, writes exactly one line, with line and
  column numbers padded to two digits, and throws nothing.
\<close>

theorem printResult_literal:
  \<open>literalP ''abc'' (Labeled ''A'') state (createTextLinesOfString ''abc'') 0 0
      = Some (Inr (Some (state, Result (Labeled ''A'') 0 0 0 3 [])))
   \<and> printResult (createTextLinesOfString ''abc'') (Result (Labeled ''A'') 0 0 0 3 [])
        (\<lambda>t. t) (\<lambda>t. False)
      = ([''[00:00 to 00:03[   A = "abc"''], None)\<close>
  by (simp add: nat_is_def literalP_abc printRange_abc textOfResult_abc printResult_def textOfChars_def toString_def)

section \<open>cutoutTextLines\<close>

lemma slice_to_end: "k \<le> count t \<Longrightarrow> slice t k None = Inr (skipText k t)"
  by (simp add: nat_is_def slice_def skipText_def)

lemma cutout_loop_takeWhile:
  assumes "map (lineAt source) [i..<n] = map Inr rest"
    and "\<forall>t \<in> set (takeWhile (\<lambda>t. 0 \<le> skipRemaining t 0) rest). skipRemaining t 0 \<le> int (count t)"
  shows "cutout_loop source n skipRemaining i ls cols =
           Inr (ls @ map (\<lambda>t. skipText (nat (skipRemaining t 0)) t)
                      (takeWhile (\<lambda>t. 0 \<le> skipRemaining t 0) rest),
                cols @ map (\<lambda>t. nat (skipRemaining t 0))
                      (takeWhile (\<lambda>t. 0 \<le> skipRemaining t 0) rest))"
  using assms
proof (induction rest arbitrary: i ls cols)
  case Nil
  then have "\<not> i < n" by auto
  then show ?case by (subst cutout_loop.simps) simp
next
  case (Cons t rest)
  from Cons.prems(1) have lt: "i < n" by (cases "i < n") auto
  then have upt: "[i..<n] = i # [Suc i..<n]" by (simp add: nat_is_def upt_conv_Cons)
  from Cons.prems(1) upt have la: "lineAt source i = Inr t"
    and rest: "map (lineAt source) [Suc i..<n] = map Inr rest" by simp_all
  show ?case
  proof (cases "0 \<le> skipRemaining t 0")
    case False
    then show ?thesis using lt la by (subst cutout_loop.simps) simp
  next
    case True
    with Cons.prems(2) have le: "nat (skipRemaining t 0) \<le> count t"
      and more: "\<forall>t \<in> set (takeWhile (\<lambda>t. 0 \<le> skipRemaining t 0) rest). skipRemaining t 0 \<le> int (count t)"
      by auto
    show ?thesis
      using Cons.IH[OF _ more, of "Suc i" "ls @ [skipText (nat (skipRemaining t 0)) t]"
                       "cols @ [nat (skipRemaining t 0)]"] rest True lt la slice_to_end[OF le]
      by (subst cutout_loop.simps) (simp add: nat_is_def Let_def)
  qed
qed

text \<open>
  Claim C10, amended.  At a valid position \<open>(line, column)\<close> of a source with at least
  one line, where \<open>text\<close> is the line and \<open>column\<close> lies within it, and \<open>rest\<close> are the
  lines after it: if \<open>skipFirst text column < 0\<close> and \<open>skipRemaining\<close> returns no more
  than the length of a line on the lines it accepts, then the window is built, it starts
  at source line \<open>line\<close>, its first line is \<open>text\<close> from \<open>column\<close> on with column offset
  \<open>column\<close> (nothing skipped), and the further lines are exactly the lines before the
  first one on which \<open>skipRemaining\<close> is negative (or all of them), each without the
  columns skipped.
\<close>

theorem cutoutTextLines_negative_skipFirst:
  assumes "valid source line column"
    and "lineCount source \<noteq> 0"
    and "lineAt source line = Inr text"
    and "skipFirst text column < 0"
    and "column \<le> count text"
    and "map (lineAt source) [line + 1..<lineCount source] = map Inr rest"
    and "\<forall>t \<in> set (takeWhile (\<lambda>t. 0 \<le> skipRemaining t 0) rest). skipRemaining t 0 \<le> int (count t)"
  shows "cutoutTextLines source line column skipFirst skipRemaining =
           Inr (TextLinesWindow source line
                  (skipText column text
                     # map (\<lambda>t. skipText (nat (skipRemaining t 0)) t)
                         (takeWhile (\<lambda>t. 0 \<le> skipRemaining t 0) rest))
                  (column
                     # map (\<lambda>t. nat (skipRemaining t 0))
                         (takeWhile (\<lambda>t. 0 \<le> skipRemaining t 0) rest)))"
  using assms(1,2,3,4) slice_to_end[OF assms(5)]
    cutout_loop_takeWhile[where source = source and i = "line + 1" and n = "lineCount source"
      and rest = rest and skipRemaining = skipRemaining
      and ls = "[skipText column text]" and cols = "[column]", OF assms(6,7)]
  by (simp add: nat_is_def cutoutTextLines_def Let_def new_TextLinesWindow_def)

theorem cutoutTextLines_negative_skipFirst_witness:
  "exSpacesL (textOf ''- x'') 3 < 0
   \<and> cutoutTextLines exSection 0 3 exSpacesL exIndentationL =
       Inr (TextLinesWindow exSection 0
              [\<lparr> startIndex = 3, count = 0, chars = ''- x'' \<rparr>,
               \<lparr> startIndex = 4, count = 1, chars = ''    a'' \<rparr>,
               \<lparr> startIndex = 4, count = 1, chars = ''    b'' \<rparr>]
              [3, 4, 4])"
  using cutoutTextLines_negative_skipFirst[where source = exSection and line = 0 and column = 3
      and ?text = "textOf ''- x''" and skipFirst = exSpacesL and skipRemaining = exIndentationL
      and rest = "[textOf ''    a'', textOf ''    b'', textOf ''end'']"]
  by (simp add: nat_is_def exSection_def exSpacesL_def exIndentationL_def textOf_def iterText_def
      skipText_def upt_conv_Cons)

text \<open>
  As stated for every source, line and column, the claim fails.  At column 3 of the
  line \<open>ab\<close> a lexer returns \<open>-1\<close>, but \<^verbatim>\<open>source.assert\<close> throws; and with a negative
  \<open>skipFirst\<close> at a valid position, a \<open>skipRemaining\<close> that returns 5 on the line \<open>c\<close>
  makes \<^verbatim>\<open>text.slice(5)\<close> throw: in both runs the construction of the window fails.
\<close>

theorem cutoutTextLines_failure_counterexample:
  "(\<lambda>text column. - 1 :: int) (textOf ''ab'') 3 < 0
   \<and> cutoutTextLines (TextLinesImpl [textOf ''ab'']) 0 3 (\<lambda>text column. - 1) (\<lambda>text column. - 1)
       = Inl InvalidPosition
   \<and> cutoutTextLines (TextLinesImpl [textOf ''ab'', textOf ''c'']) 0 0
         (\<lambda>text column. - 1) (\<lambda>text column. 5)
       = Inl InvalidSlice"
  by (simp add: nat_is_def cutoutTextLines_def cutout_loop.simps textOf_def slice_def)

section \<open>repP\<close>

lemma repP_loop_repeats:
  assumes "repeats parser lines p results q"
    and "parser (fst q) lines (fst (snd q)) (snd (snd q)) = Some (Inr None)"
  shows "repP_loop parser lines sl sc (fst p) kept (fst (snd p)) (snd (snd p))
         = Some (Inr (Some (fst q, Result Structural sl sc (fst (snd q)) (snd (snd q))
                               (kept @ filter (\<lambda>r. type r \<noteq> Discarded) results))))"
  using assms
proof (induction arbitrary: kept rule: repeats.induct)
  case (repeats_none p)
  then show ?case by (subst repP_loop.simps) simp
next
  case (repeats_step state line column state' result results q)
  show ?case
    using repeats_step.hyps(1)
      repeats_step.IH[OF repeats_step.prems,
        of "if type result \<noteq> Discarded then kept @ [result] else kept"]
    by (subst repP_loop.simps) simp
qed

lemma repP_loop_returns:
  fixes parser :: "('a, 'b) Parser"
  assumes "repP_loop parser lines sl sc state kept line column = Some (Inr v)"
  shows "\<exists>state' line' column' results.
        repeats parser lines (state, line, column) results (state', line', column')
        \<and> parser state' lines line' column' = Some (Inr None)
        \<and> v = Some (state', Result Structural sl sc line' column'
                       (kept @ filter (\<lambda>r. type r \<noteq> Discarded) results))"
proof -
  let ?P = "\<lambda>(parser :: ('a, 'b) Parser) lines (sl :: nat) (sc :: nat) (state :: 'a)
               (kept :: 'b Result list) line column (y :: error + ('a, 'b) ParseResult).
     \<forall>v. y = Inr v \<longrightarrow>
       (\<exists>state' line' column' results.
        repeats parser lines (state, line, column) results (state', line', column')
        \<and> parser state' lines line' column' = Some (Inr None)
        \<and> v = Some (state', Result Structural sl sc line' column'
                       (kept @ filter (\<lambda>r. type r \<noteq> Discarded) results)))"
  have "?P parser lines sl sc state kept line column (Inr v)"
  proof (rule repP_loop.raw_induct[where P = ?P, OF _ assms])
    fix loop :: "('a, 'b) Parser \<Rightarrow> TextLines \<Rightarrow> nat \<Rightarrow> nat \<Rightarrow> 'a \<Rightarrow> 'b Result list \<Rightarrow> nat \<Rightarrow> nat
                   \<Rightarrow> (error + ('a, 'b) ParseResult) option"
      and parser :: "('a, 'b) Parser" and lines sl sc state kept line column y
    assume IH: "\<And>parser lines sl sc state kept line column y.
        loop parser lines sl sc state kept line column = Some y \<Longrightarrow>
        ?P parser lines sl sc state kept line column y"
      and eq: "(case parser state lines line column of
           None \<Rightarrow> None
         | Some (Inl e) \<Rightarrow> Some (Inl e)
         | Some (Inr None) \<Rightarrow> Some (Inr (Some (state, Result Structural sl sc line column kept)))
         | Some (Inr (Some (state', result))) \<Rightarrow>
             loop parser lines sl sc state'
               (if type result \<noteq> Discarded then kept @ [result] else kept)
               (endLine result) (endColumnExclusive result)) = Some y"
    show "?P parser lines sl sc state kept line column y"
    proof (intro allI impI)
      fix v assume yv: "y = Inr v"
      show "\<exists>state' line' column' results.
        repeats parser lines (state, line, column) results (state', line', column')
        \<and> parser state' lines line' column' = Some (Inr None)
        \<and> v = Some (state', Result Structural sl sc line' column'
                       (kept @ filter (\<lambda>r. type r \<noteq> Discarded) results))"
      proof (cases "parser state lines line column")
        case None
        with eq show ?thesis by simp
      next
        case (Some o1)
        note call0 = Some
        show ?thesis
        proof (cases o1)
          case (Inl e)
          with call0 eq yv show ?thesis by simp
        next
          case (Inr pr)
          show ?thesis
          proof (cases pr)
            case None
            with call0 Inr eq yv have "v = Some (state, Result Structural sl sc line column kept)"
              by auto
            moreover have "repeats parser lines (state, line, column) [] (state, line, column)"
              by (rule repeats_none)
            ultimately show ?thesis using call0 Inr None by fastforce
          next
            case (Some sr)
            obtain state' result where sr: "sr = (state', result)" by (cases sr) auto
            have call: "parser state lines line column = Some (Inr (Some (state', result)))"
              using call0 Inr Some sr by simp
            with eq have rec: "loop parser lines sl sc state'
                (if type result \<noteq> Discarded then kept @ [result] else kept)
                (endLine result) (endColumnExclusive result) = Some y"
              by simp
            from IH[OF rec] yv obtain state'' line'' column'' results where
              r: "repeats parser lines (state', endLine result, endColumnExclusive result) results
                    (state'', line'', column'')"
              and stop: "parser state'' lines line'' column'' = Some (Inr None)"
              and v: "v = Some (state'', Result Structural sl sc line'' column''
                           ((if type result \<noteq> Discarded then kept @ [result] else kept)
                              @ filter (\<lambda>r. type r \<noteq> Discarded) results))"
              by blast
            have "repeats parser lines (state, line, column) (result # results)
                    (state'', line'', column'')"
              by (rule repeats_step[OF call r])
            moreover have "v = Some (state'', Result Structural sl sc line'' column''
                           (kept @ filter (\<lambda>r. type r \<noteq> Discarded) (result # results)))"
              using v by simp
            ultimately show ?thesis using stop by blast
          qed
        qed
      qed
    qed
  qed
  then show ?thesis by simp
qed

text \<open>
  Claim C4, amended.  \<open>repP parsers\<close> never returns \<^verbatim>\<open>undefined\<close>.  It returns exactly
  when the entry position is valid and the inner sequence \<open>seqP parsers\<close>, after finitely
  many successes in a row, returns \<^verbatim>\<open>undefined\<close>; it stops at that first failure and
  returns the state and position reached, in a \<open>Structural\<close> node from the entry position
  to that position whose children are the results that are not \<open>Discarded\<close>.
\<close>

theorem repP_returns_iff:
  "repP parsers state lines line column = Some (Inr v) \<longleftrightarrow>
     valid lines line column
     \<and> (\<exists>state' line' column' results.
           repeats (seqP parsers) lines (state, line, column) results (state', line', column')
           \<and> seqP parsers state' lines line' column' = Some (Inr None)
           \<and> v = Some (state', Result Structural line column line' column'
                          (filter (\<lambda>r. type r \<noteq> Discarded) results)))"
proof
  assume a: "repP parsers state lines line column = Some (Inr v)"
  then have val: "valid lines line column"
    by (auto simp: nat_is_def repP_def Let_def split: if_splits)
  with a have "repP_loop (seqP parsers) lines line column state [] line column = Some (Inr v)"
    by (simp add: nat_is_def repP_def Let_def)
  from repP_loop_returns[OF this] val
  show "valid lines line column
     \<and> (\<exists>state' line' column' results.
           repeats (seqP parsers) lines (state, line, column) results (state', line', column')
           \<and> seqP parsers state' lines line' column' = Some (Inr None)
           \<and> v = Some (state', Result Structural line column line' column'
                          (filter (\<lambda>r. type r \<noteq> Discarded) results)))"
    by simp
next
  assume "valid lines line column
     \<and> (\<exists>state' line' column' results.
           repeats (seqP parsers) lines (state, line, column) results (state', line', column')
           \<and> seqP parsers state' lines line' column' = Some (Inr None)
           \<and> v = Some (state', Result Structural line column line' column'
                          (filter (\<lambda>r. type r \<noteq> Discarded) results)))"
  then obtain state' line' column' results where val: "valid lines line column"
    and r: "repeats (seqP parsers) lines (state, line, column) results (state', line', column')"
    and stop: "seqP parsers state' lines line' column' = Some (Inr None)"
    and v: "v = Some (state', Result Structural line column line' column'
                          (filter (\<lambda>r. type r \<noteq> Discarded) results))"
    by blast
  from repP_loop_repeats[OF r, of line column "[]"] stop v val
  show "repP parsers state lines line column = Some (Inr v)"
    by (simp add: nat_is_def repP_def Let_def)
qed

theorem repP_returns_iff_witness:
  "repP [charP isDigit] (5::nat) (TextLinesImpl [textOf ''12ab'']) 0 0
     = Some (Inr (Some (5, Result Structural 0 0 0 2 ([] :: unit Result list))))"
proof -
  let ?L = "TextLinesImpl [textOf ''12ab'']"
  let ?p = "seqP [charP isDigit] :: (nat, unit) Parser"
  have s0: "?p 5 ?L 0 0 = Some (Inr (Some (5, Result Discarded 0 0 0 1 [])))"
    by (simp add: nat_is_def seqP_def charP_def charAt_def textOf_def isDigit_def)
  have s1: "?p 5 ?L 0 1 = Some (Inr (Some (5, Result Discarded 0 1 0 2 [])))"
    by (simp add: nat_is_def seqP_def charP_def charAt_def textOf_def isDigit_def)
  have s2: "?p 5 ?L 0 2 = Some (Inr None)"
    by (simp add: nat_is_def seqP_def charP_def charAt_def textOf_def isDigit_def)
  have r: "repeats ?p ?L (5, 0, 0) [Result Discarded 0 0 0 1 [], Result Discarded 0 1 0 2 []] (5, 0, 2)"
    using repeats_step[of ?p 5 ?L 0 0 5 "Result Discarded 0 0 0 1 []" "[Result Discarded 0 1 0 2 []]" "(5, 0, 2)"]
          repeats_step[of ?p 5 ?L 0 1 5 "Result Discarded 0 1 0 2 []" "[]" "(5, 0, 2)"]
          repeats_none[of ?p ?L "(5, 0, 2)"] s0 s1
    by simp
  show ?thesis
  proof (rule iffD2[OF repP_returns_iff], intro conjI exI)
    show "valid ?L 0 0" by (simp add: nat_is_def textOf_def)
    show "repeats ?p ?L (5, 0, 0) [Result Discarded 0 0 0 1 [], Result Discarded 0 1 0 2 []] (5, 0, 2)"
      by (rule r)
    show "?p 5 ?L 0 2 = Some (Inr None)" by (rule s2)
    show "Some (5, Result Structural 0 0 0 2 ([] :: unit Result list))
          = Some (5, Result Structural 0 0 0 2
                (filter (\<lambda>r. type r \<noteq> Discarded)
                   [Result Discarded 0 0 0 1 [], Result Discarded 0 1 0 2 []]))"
      by simp
  qed
qed

lemma repP_loop_stuck:
  fixes parser :: "('a, 'b) Parser"
  assumes "repP_loop parser lines sl sc state kept line column = Some y"
    and "parser state lines line column = Some (Inr (Some (state, r)))"
    and "endLine r = line" and "endColumnExclusive r = column"
  shows False
proof -
  let ?P = "\<lambda>(parser' :: ('a, 'b) Parser) lines' (sl :: nat) (sc :: nat) (state' :: 'a)
               (kept :: 'b Result list) line' column' (y :: error + ('a, 'b) ParseResult).
              parser' = parser \<and> lines' = lines \<and> state' = state \<and> line' = line
                \<and> column' = column \<longrightarrow> False"
  have "?P parser lines sl sc state kept line column y"
  proof (rule repP_loop.raw_induct[where P = ?P, OF _ assms(1)])
    fix loop :: "('a, 'b) Parser \<Rightarrow> TextLines \<Rightarrow> nat \<Rightarrow> nat \<Rightarrow> 'a \<Rightarrow> 'b Result list \<Rightarrow> nat \<Rightarrow> nat
                   \<Rightarrow> (error + ('a, 'b) ParseResult) option"
      and parser' :: "('a, 'b) Parser" and lines' sl sc state' kept line' column' y
    assume IH: "\<And>parser' lines' sl sc state' kept line' column' y.
        loop parser' lines' sl sc state' kept line' column' = Some y \<Longrightarrow>
        ?P parser' lines' sl sc state' kept line' column' y"
      and eq: "(case parser' state' lines' line' column' of
           None \<Rightarrow> None
         | Some (Inl e) \<Rightarrow> Some (Inl e)
         | Some (Inr None) \<Rightarrow>
             Some (Inr (Some (state', Result Structural sl sc line' column' kept)))
         | Some (Inr (Some (state'', result))) \<Rightarrow>
             loop parser' lines' sl sc state''
               (if type result \<noteq> Discarded then kept @ [result] else kept)
               (endLine result) (endColumnExclusive result)) = Some y"
    show "?P parser' lines' sl sc state' kept line' column' y"
    proof (intro impI)
      assume same: "parser' = parser \<and> lines' = lines \<and> state' = state \<and> line' = line
                \<and> column' = column"
      with eq assms(2,3,4) have "loop parser lines sl sc state
          (if type r \<noteq> Discarded then kept @ [r] else kept) line column = Some y"
        by simp
      from IH[OF this] show False by simp
    qed
  qed
  then show False by simp
qed

text \<open>
  As stated, the claim fails: nothing in the loop of \<open>repP\<close> asks for progress, so when
  the inner sequence succeeds without end the loop never returns.  \<open>repP [eofP]\<close> and
  \<open>repP [emptyP]\<close>, at the valid position \<open>(0, 0)\<close> of the empty text, are such runs:
  the inner parser succeeds where it stands, again and again.
\<close>

theorem repP_emptyP_counterexample:
  "valid (TextLinesImpl []) 0 0
   \<and> repP [eofP] () (TextLinesImpl []) 0 0 = (None :: (error + (unit, unit) ParseResult) option)
   \<and> repP [emptyP] () (TextLinesImpl []) 0 0 = (None :: (error + (unit, unit) ParseResult) option)"
proof -
  have "repP_loop (eofP :: (unit, unit) Parser) (TextLinesImpl []) 0 0 () [] 0 0 = None"
    using repP_loop_stuck[where parser = "eofP :: (unit, unit) Parser"
        and lines = "TextLinesImpl []" and sl = 0 and sc = 0 and state = "()" and kept = "[]"
        and line = 0 and column = 0 and r = "Result Discarded 0 0 0 0 []"]
    by (cases "repP_loop (eofP :: (unit, unit) Parser) (TextLinesImpl []) 0 0 () [] 0 0")
       (auto simp: nat_is_def eofP_def)
  moreover
  have "repP_loop (emptyP :: (unit, unit) Parser) (TextLinesImpl []) 0 0 () [] 0 0 = None"
    using repP_loop_stuck[where parser = "emptyP :: (unit, unit) Parser"
        and lines = "TextLinesImpl []" and sl = 0 and sc = 0 and state = "()" and kept = "[]"
        and line = 0 and column = 0 and r = "Result Structural 0 0 0 0 []"]
    by (cases "repP_loop (emptyP :: (unit, unit) Parser) (TextLinesImpl []) 0 0 () [] 0 0")
       (auto simp: nat_is_def emptyP_def)
  ultimately show ?thesis by (simp add: nat_is_def repP_def seqP_def)
qed

section \<open>Running the section example\<close>

lemmas sec_eval =
  exSection_def exWindow_def exBulletP_def exBodyP_def countingP_def exAfterP_def
  exSpacesL_def exIndentationL_def parser_eval

lemmas section_eval =
  sectionP_def sectionP_after_def cutoffAfterIndentation_def cutoff_loop.simps
  cutoutTextLines_def cutout_loop.simps new_TextLinesWindow_def
  joinResults_def resultCoordinatesAreValid_def sec_eval

lemma ex_cutoff:
  "cutoffAfterIndentation exSection 0 (\<lambda>text. exSpacesL text 0 > 0) = Inr (CutoffLines exSection 4 3)"
  by (simp add: cutoffAfterIndentation_def cutoff_loop.simps sec_eval)

lemma ex_cutout: "cutoutTextLines exSection 0 3 exSpacesL exIndentationL = Inr exWindow"
  by (simp add: cutoutTextLines_def cutout_loop.simps new_TextLinesWindow_def sec_eval)

lemma ex_valid: "valid exSection 0 0"
  by (simp add: exSection_def nat_is_def)

lemma ex_shared_cutoff:
  "cutoffAfterIndentation exShared 0 (\<lambda>text. exSpacesL text 0 > 0) = Inr exShared"
  by (simp add: cutoffAfterIndentation_def cutoff_loop.simps exShared_def sec_eval)

lemma ex_shared_cutout:
  "cutoutTextLines exShared 0 3 exSpacesL exIndentationL = Inr exSharedWindow"
  by (simp add: cutoutTextLines_def cutout_loop.simps new_TextLinesWindow_def exShared_def
        exSharedWindow_def sec_eval)

section \<open>sectionP on the store\<close>

lemma shiftResult_store_Nil: "shiftResult_store lines [] store = Some (Inr store)"
  by (simp add: shiftResult_store.simps)

lemma shiftResult_store_Cons:
  "shiftResult_store lines (result # others) store =
     (case shift lines (fst (ostart (store ! result))) (snd (ostart (store ! result))) of
        Inl e \<Rightarrow> Some (Inl e)
      | Inr start \<Rightarrow>
          (case shift lines (fst (oend (store ! result))) (snd (oend (store ! result))) of
             Inl e \<Rightarrow> Some (Inl e)
           | Inr end \<Rightarrow>
               shiftResult_store lines (ochildren (store ! result) @ others)
                 (store[result := Obj (otype (store ! result)) start end
                                     (ochildren (store ! result))])))"
  by (subst shiftResult_store.simps) simp

lemmas store_eval =
  sectionP_store_def sectionP_after_store_def cutoffAfterIndentation_def cutoff_loop.simps
  cutoutTextLines_def cutout_loop.simps new_TextLinesWindow_def
  joinResults_store_def resultCoordinatesAreValid_def freshP_def exBodyS_def exSharingBodyS_def
  exShared_def emptyP_def Let_def shiftResult_store_Nil shiftResult_store_Cons sec_eval

lemma ex_bullet:
  "freshP exBulletP 5 (CutoffLines exSection 4 3) 0 0 []
     = Some (Inr ([Obj (Labeled ''Bullet'') (0, 0) (0, 3) []], Some (5, 0)))"
  by (simp add: store_eval)

lemma ex_body:
  "exBodyS exSection 5 0 5 exWindow 0 0 [Obj (Labeled ''Bullet'') (0, 0) (0, 3) []]
     = Some (Inr ([Obj (Labeled ''Bullet'') (0, 0) (0, 3) [],
                   Obj (Labeled ''A'') (1, 0) (1, 1) [],
                   Obj (Labeled ''B'') (2, 0) (2, 1) [],
                   Obj Structural (0, 0) (2, 1) [1, 2]], Some (5, 3)))"
  by (simp add: store_eval)

lemma ex_shift:
  "shiftResult_store exWindow [3]
     [Obj (Labeled ''Bullet'') (0, 0) (0, 3) [],
      Obj (Labeled ''A'') (1, 0) (1, 1) [],
      Obj (Labeled ''B'') (2, 0) (2, 1) [],
      Obj Structural (0, 0) (2, 1) [1, 2 :: nat]]
     = Some (Inr [Obj (Labeled ''Bullet'') (0, 0) (0, 3) [],
                  Obj (Labeled ''A'') (1, 4) (1, 5) [],
                  Obj (Labeled ''B'') (2, 4) (2, 5) [],
                  Obj Structural (0, 3) (2, 5) [1, 2]])"
  by (simp add: store_eval)

lemma ex_after:
  "freshP exAfterP 5 exSection 2 5
     [Obj (Labeled ''Bullet'') (0, 0) (0, 3) [],
      Obj (Labeled ''A'') (1, 4) (1, 5) [],
      Obj (Labeled ''B'') (2, 4) (2, 5) [],
      Obj Structural (0, 3) (2, 5) [1, 2]]
     = Some (Inr ([Obj (Labeled ''Bullet'') (0, 0) (0, 3) [],
                   Obj (Labeled ''A'') (1, 4) (1, 5) [],
                   Obj (Labeled ''B'') (2, 4) (2, 5) [],
                   Obj Structural (0, 3) (2, 5) [1, 2],
                   Obj (Labeled ''End'') (3, 0) (3, 3) [],
                   Obj Structural (2, 5) (3, 3) [4]], Some (6, 5)))"
  by (simp add: store_eval)

lemma ex_section:
  "sectionP_store (freshP exBulletP) exBodyS exSpacesL exIndentationL (freshP exAfterP)
     5 exSection 0 0 []
     = Some (Inr ([Obj (Labeled ''Bullet'') (0, 0) (0, 3) [],
                   Obj (Labeled ''A'') (1, 4) (1, 5) [],
                   Obj (Labeled ''B'') (2, 4) (2, 5) [],
                   Obj Structural (0, 3) (2, 5) [1, 2],
                   Obj (Labeled ''End'') (3, 0) (3, 3) [],
                   Obj Structural (2, 5) (3, 3) [4],
                   Obj Structural (0, 0) (3, 3) [0, 3, 5]], Some (5, 6)))"
  by (simp add: store_eval)

lemma resultAt_fields:
  "type (resultAt store a) = otype (store ! a)"
  "startLine (resultAt store a) = fst (ostart (store ! a))"
  "startColumnInclusive (resultAt store a) = snd (ostart (store ! a))"
  "endLine (resultAt store a) = fst (oend (store ! a))"
  "endColumnExclusive (resultAt store a) = snd (oend (store ! a))"
  by (simp_all add: resultAt_def)

lemma joinResults_store_loop_results:
  "joinResults_store_loop store rs l c kept =
     (case joinResults_loop (map (resultAt store) rs) l c kept' of
        Inl e \<Rightarrow> Inl e
      | Inr (k, l', c') \<Rightarrow>
          Inr (kept @ filter (\<lambda>a. otype (store ! a) \<noteq> Discarded) rs, l', c'))"
proof (induction rs arbitrary: l c kept kept')
  case Nil
  show ?case by simp
next
  case (Cons r rs)
  show ?case
    using Cons.IH[where kept = "if otype (store ! r) \<noteq> Discarded then kept @ [r] else kept"
        and kept' = "if otype (store ! r) \<noteq> Discarded then kept' @ [resultAt store r] else kept'"]
    by (auto simp: resultAt_fields split: sum.splits)
qed

lemma joinResults_store_given_bounds:
  "joinResults_store results ty (Some s) (Some e) store =
     (if layoutRejected s (map (resultAt store) results) e then Inl InvalidLayout
      else Inr (store @ [Obj (defaultType ty) s e
                           (filter (\<lambda>a. otype (store ! a) \<noteq> Discarded) results)],
                length store))"
proof (cases "joinResults_loop (map (resultAt store) results) (fst s) (snd s) []")
  case (Inl err)
  from joinResults_loop_Inl[OF Inl, of e] show ?thesis
    unfolding joinResults_store_def Let_def
    using Inl joinResults_store_loop_results[of store results "fst s" "snd s" "[]" "[]"]
    by simp
next
  case (Inr x)
  obtain k l' c' where x: "x = (k, l', c')" by (cases x) auto
  from joinResults_loop_Inr[OF Inr[unfolded x], of e] show ?thesis
    unfolding joinResults_store_def Let_def
    using Inr x joinResults_store_loop_results[of store results "fst s" "snd s" "[]" "[]"]
    by (auto simp: not_resultCoordinatesAreValid)
qed

lemma sectionP_store_steps:
  assumes "valid lines line 0"
    and "cutoffAfterIndentation lines line (\<lambda>text. spacesL text 0 > 0) = Inr bulletLines"
    and "bulletP state bulletLines line 0 store = Some (Inr (store1, Some (bulletState, bullet)))"
    and "cutoutTextLines lines (fst (oend (store1 ! bullet))) (snd (oend (store1 ! bullet)))
           spacesL indentationL = Inr bodyLines"
    and "bodyP lines bulletState bullet bulletState bodyLines 0 0 store1
           = Some (Inr (store2, Some (bodyState, body)))"
    and "shiftResult_store bodyLines [body] store2 = Some (Inr store3)"
  shows "sectionP_store bulletP bodyP spacesL indentationL afterP state lines line 0 store
         = sectionP_after_store afterP lines (line, 0) bullet bodyState body store3"
  using assms by (simp add: sectionP_store_def)

lemma sectionP_after_store_returns:
  assumes "afterP bodyState lines (fst (oend (store3 ! body))) (snd (oend (store3 ! body))) store3
             = Some (Inr (store4, after))"
  shows "sectionP_after_store afterP lines start bullet bodyState body store3 =
           (if layoutRejected start (map (resultAt store4) (sectionResults_store bullet body after))
                 (sectionEnd_store store3 store4 body after)
            then Some (Inl InvalidLayout)
            else Some (Inr (store4 @ [Obj Structural start (sectionEnd_store store3 store4 body after)
                                        (filter (\<lambda>a. otype (store4 ! a) \<noteq> Discarded)
                                           (sectionResults_store bullet body after))],
                            Some (bodyState, length store4))))"
proof (cases after)
  case None
  with assms show ?thesis
    by (simp add: sectionP_after_store_def sectionResults_store_def sectionEnd_store_def
          joinResults_store_given_bounds defaultType_def)
next
  case (Some a)
  with assms show ?thesis
    by (cases a)
       (simp add: sectionP_after_store_def sectionResults_store_def sectionEnd_store_def
          joinResults_store_given_bounds defaultType_def)
qed

section \<open>Parsers that build new objects\<close>

text \<open>
  What an update of the store away from the objects of a tree leaves of the tree, what
  \<open>alloc\<close> builds, and \<open>shiftResult_store\<close> on a tree of distinct objects: it does what
  \<open>shiftResult\<close> does on the value.
\<close>

lemma holds_bound:
  "holds s a r \<Longrightarrow> \<forall>i \<in> set (addrs s a r). i < length s"
  "holdsAll s as rs \<Longrightarrow> \<forall>i \<in> set (addrsL s as rs). i < length s"
  by (induction s a r and s as rs rule: holds_holdsAll.induct) (auto split: list.splits)

lemma frame:
  "holds s a r \<Longrightarrow> \<forall>i \<in> set (addrs s a r). i < length s' \<and> s' ! i = s ! i \<Longrightarrow>
     holds s' a r \<and> addrs s' a r = addrs s a r"
  "holdsAll s as rs \<Longrightarrow> \<forall>i \<in> set (addrsL s as rs). i < length s' \<and> s' ! i = s ! i \<Longrightarrow>
     holdsAll s' as rs \<and> addrsL s' as rs = addrsL s as rs"
  by (induction s a r and s as rs rule: holds_holdsAll.induct) (auto split: list.splits)

lemma alloc_fresh:
  "alloc r store = (store', a) \<Longrightarrow>
     holds store' a r \<and> distinct (addrs store' a r)
     \<and> (\<forall>i \<in> set (addrs store' a r). length store \<le> i)
     \<and> length store \<le> length store' \<and> (\<forall>i < length store. store' ! i = store ! i)"
  "allocs rs store = (store', as) \<Longrightarrow>
     holdsAll store' as rs \<and> distinct (addrsL store' as rs)
     \<and> (\<forall>i \<in> set (addrsL store' as rs). length store \<le> i)
     \<and> length store \<le> length store' \<and> (\<forall>i < length store. store' ! i = store ! i)"
proof (induction r store and rs store arbitrary: store' a and store' as rule: alloc_allocs.induct)
  case (1 ty sl sc el ec ch store)
  obtain s1 as where al: "allocs ch store = (s1, as)" by (cases "allocs ch store") auto
  from 1(2) al have s': "store' = s1 @ [Obj ty (sl, sc) (el, ec) as]" and a: "a = length s1"
    by auto
  from 1(1)[OF al] have h: "holdsAll s1 as ch" and d: "distinct (addrsL s1 as ch)"
    and lo: "\<forall>i \<in> set (addrsL s1 as ch). length store \<le> i"
    and le: "length store \<le> length s1" and pre: "\<forall>i < length store. s1 ! i = store ! i"
    by auto
  from holds_bound(2)[OF h] have hi: "\<forall>i \<in> set (addrsL s1 as ch). i < length s1" .
  have "\<forall>i \<in> set (addrsL s1 as ch). i < length store' \<and> store' ! i = s1 ! i"
    using hi by (auto simp: s' nth_append)
  from frame(2)[OF h this]
  have h': "holdsAll store' as ch" and ad: "addrsL store' as ch = addrsL s1 as ch"
    by auto
  show ?case
    using h' ad d lo le pre hi by (auto simp: s' a nth_append)
next
  case (2 store)
  then show ?case by auto
next
  case (3 c cs store)
  obtain s1 a1 where al: "alloc c store = (s1, a1)" by (cases "alloc c store") auto
  obtain s2 as' where als: "allocs cs s1 = (s2, as')" by (cases "allocs cs s1") auto
  from 3(3) al als have s': "store' = s2" and as: "as = a1 # as'" by auto
  from 3(1)[OF al] have h1: "holds s1 a1 c" and d1: "distinct (addrs s1 a1 c)"
    and lo1: "\<forall>i \<in> set (addrs s1 a1 c). length store \<le> i"
    and le1: "length store \<le> length s1" and pre1: "\<forall>i < length store. s1 ! i = store ! i"
    by auto
  from 3(2)[OF al[symmetric] als] have h2: "holdsAll s2 as' cs" and d2: "distinct (addrsL s2 as' cs)"
    and lo2: "\<forall>i \<in> set (addrsL s2 as' cs). length s1 \<le> i"
    and le2: "length s1 \<le> length s2" and pre2: "\<forall>i < length s1. s2 ! i = s1 ! i"
    by auto
  from holds_bound(1)[OF h1] have hi1: "\<forall>i \<in> set (addrs s1 a1 c). i < length s1" .
  have "\<forall>i \<in> set (addrs s1 a1 c). i < length s2 \<and> s2 ! i = s1 ! i"
    using hi1 pre2 le2 by auto
  from frame(1)[OF h1 this]
  have h1': "holds s2 a1 c" and ad1: "addrs s2 a1 c = addrs s1 a1 c" by auto
  have disj: "set (addrs s1 a1 c) \<inter> set (addrsL s2 as' cs) = {}"
    using hi1 lo2 by fastforce
  show ?case
    using h1' ad1 h2 d1 d2 disj lo1 lo2 le1 le2 pre1 pre2
    by (auto simp: s' as)
qed

lemma shift_fresh_list:
  assumes step: "\<And>c s a work. c \<in> set rs \<Longrightarrow> holds s a c \<Longrightarrow> distinct (addrs s a c) \<Longrightarrow>
     (case shiftResult lines c of
        Inl e \<Rightarrow> shiftResult_store lines (a # work) s = Some (Inl e)
      | Inr c' \<Rightarrow>
          (\<exists>s'. shiftResult_store lines (a # work) s = shiftResult_store lines work s'
                \<and> length s' = length s \<and> holds s' a c' \<and> addrs s' a c' = addrs s a c
                \<and> (\<forall>i. i \<notin> set (addrs s a c) \<longrightarrow> s' ! i = s ! i)))"
    and "holdsAll s as rs" and "distinct (addrsL s as rs)"
  shows "(case shiftResults lines rs of
        Inl e \<Rightarrow> shiftResult_store lines (as @ work) s = Some (Inl e)
      | Inr rs' \<Rightarrow>
          (\<exists>s'. shiftResult_store lines (as @ work) s = shiftResult_store lines work s'
                \<and> length s' = length s \<and> holdsAll s' as rs' \<and> addrsL s' as rs' = addrsL s as rs
                \<and> (\<forall>i. i \<notin> set (addrsL s as rs) \<longrightarrow> s' ! i = s ! i)))"
  using assms
proof (induction rs arbitrary: s as)
  case Nil
  then show ?case by auto
next
  case (Cons c cs)
  from Cons.prems(2) obtain a1 as' where as: "as = a1 # as'"
    and h1: "holds s a1 c" and h2: "holdsAll s as' cs"
    by (cases as) auto
  from Cons.prems(3) have d1: "distinct (addrs s a1 c)" and d2: "distinct (addrsL s as' cs)"
    and disj: "set (addrs s a1 c) \<inter> set (addrsL s as' cs) = {}"
    by (auto simp: as)
  have st: "case shiftResult lines c of
        Inl e \<Rightarrow> shiftResult_store lines (a1 # as' @ work) s = Some (Inl e)
      | Inr c' \<Rightarrow>
          (\<exists>s'. shiftResult_store lines (a1 # as' @ work) s = shiftResult_store lines (as' @ work) s'
                \<and> length s' = length s \<and> holds s' a1 c' \<and> addrs s' a1 c' = addrs s a1 c
                \<and> (\<forall>i. i \<notin> set (addrs s a1 c) \<longrightarrow> s' ! i = s ! i))"
    using Cons.prems(1)[OF _ h1 d1, of "as' @ work"] by simp
  show ?case
  proof (cases "shiftResult lines c")
    case (Inl e)
    with st show ?thesis by (simp add: as)
  next
    case (Inr c')
    with st obtain s1 where
      r1: "shiftResult_store lines (a1 # as' @ work) s = shiftResult_store lines (as' @ work) s1"
      and l1: "length s1 = length s" and h1': "holds s1 a1 c'"
      and a1: "addrs s1 a1 c' = addrs s a1 c"
      and f1: "\<forall>i. i \<notin> set (addrs s a1 c) \<longrightarrow> s1 ! i = s ! i"
      by auto
    have "\<forall>i \<in> set (addrsL s as' cs). i < length s1 \<and> s1 ! i = s ! i"
      using holds_bound(2)[OF h2] l1 f1 disj by auto
    from frame(2)[OF h2 this]
    have h2': "holdsAll s1 as' cs" and a2: "addrsL s1 as' cs = addrsL s as' cs" by auto
    have rec: "case shiftResults lines cs of
        Inl e \<Rightarrow> shiftResult_store lines (as' @ work) s1 = Some (Inl e)
      | Inr rs' \<Rightarrow>
          (\<exists>s'. shiftResult_store lines (as' @ work) s1 = shiftResult_store lines work s'
                \<and> length s' = length s1 \<and> holdsAll s' as' rs' \<and> addrsL s' as' rs' = addrsL s1 as' cs
                \<and> (\<forall>i. i \<notin> set (addrsL s1 as' cs) \<longrightarrow> s' ! i = s1 ! i))"
      using Cons.IH[OF _ h2'] Cons.prems(1) d2 a2 by simp
    show ?thesis
    proof (cases "shiftResults lines cs")
      case (Inl e)
      with rec r1 Inr show ?thesis by (simp add: as)
    next
      case cs': (Inr cs')
      with rec obtain s2 where
        r2: "shiftResult_store lines (as' @ work) s1 = shiftResult_store lines work s2"
        and l2: "length s2 = length s1" and h2'': "holdsAll s2 as' cs'"
        and a2': "addrsL s2 as' cs' = addrsL s1 as' cs"
        and f2: "\<forall>i. i \<notin> set (addrsL s1 as' cs) \<longrightarrow> s2 ! i = s1 ! i"
        by auto
      have "\<forall>i \<in> set (addrs s1 a1 c'). i < length s2 \<and> s2 ! i = s1 ! i"
        using holds_bound(1)[OF h1'] l2 f2 disj a1 a2 by auto
      from frame(1)[OF h1' this]
      have h1'': "holds s2 a1 c'" and a1': "addrs s2 a1 c' = addrs s1 a1 c'" by auto
      have "shiftResult_store lines (as @ work) s = shiftResult_store lines work s2
            \<and> length s2 = length s \<and> holdsAll s2 as (c' # cs')
            \<and> addrsL s2 as (c' # cs') = addrsL s as (c # cs)
            \<and> (\<forall>i. i \<notin> set (addrsL s as (c # cs)) \<longrightarrow> s2 ! i = s ! i)"
        using r1 r2 l1 l2 h1'' h2'' a1 a1' a2 a2' f1 f2 by (simp add: as)
      then show ?thesis using Inr cs' by auto
    qed
  qed
qed

lemma shift_fresh:
  "holds s a r \<Longrightarrow> distinct (addrs s a r) \<Longrightarrow>
     (case shiftResult lines r of
        Inl e \<Rightarrow> shiftResult_store lines (a # work) s = Some (Inl e)
      | Inr r' \<Rightarrow>
          (\<exists>s'. shiftResult_store lines (a # work) s = shiftResult_store lines work s'
                \<and> length s' = length s \<and> holds s' a r' \<and> addrs s' a r' = addrs s a r
                \<and> (\<forall>i. i \<notin> set (addrs s a r) \<longrightarrow> s' ! i = s ! i)))"
proof (induction r arbitrary: s a work)
  case (Result ty sl sc el ec ch)
  let ?kids = "ochildren (s ! a)"
  from Result.prems(1) have a: "a < length s" and ty: "otype (s ! a) = ty"
    and st: "ostart (s ! a) = (sl, sc)" and en: "oend (s ! a) = (el, ec)"
    and hk: "holdsAll s ?kids ch"
    by auto
  from Result.prems(2) have na: "a \<notin> set (addrsL s ?kids ch)" and dk: "distinct (addrsL s ?kids ch)"
    by auto
  show ?case
  proof (cases "shift lines sl sc")
    case (Inl e)
    then show ?thesis by (simp add: shiftResult_store_Cons st)
  next
    case start: (Inr start)
    obtain sl' sc' where start': "start = (sl', sc')" by (cases start) auto
    show ?thesis
    proof (cases "shift lines el ec")
      case (Inl e)
      then show ?thesis using start start' by (simp add: shiftResult_store_Cons st en)
    next
      case fin: (Inr fin)
      obtain el' ec' where fin': "fin = (el', ec')" by (cases fin) auto
      let ?s1 = "s[a := Obj ty (sl', sc') (el', ec') ?kids]"
      have r0: "shiftResult_store lines (a # work) s = shiftResult_store lines (?kids @ work) ?s1"
        using start start' fin fin' by (simp add: shiftResult_store_Cons st en ty)
      have "\<forall>i \<in> set (addrsL s ?kids ch). i < length ?s1 \<and> ?s1 ! i = s ! i"
      proof
        fix i
        assume i: "i \<in> set (addrsL s ?kids ch)"
        with na have "i \<noteq> a" by auto
        then show "i < length ?s1 \<and> ?s1 ! i = s ! i"
          using holds_bound(2)[OF hk] i by simp
      qed
      from frame(2)[OF hk this]
      have hk1: "holdsAll ?s1 ?kids ch" and ak1: "addrsL ?s1 ?kids ch = addrsL s ?kids ch" by auto
      have rec: "case shiftResults lines ch of
          Inl e \<Rightarrow> shiftResult_store lines (?kids @ work) ?s1 = Some (Inl e)
        | Inr rs' \<Rightarrow>
            (\<exists>s'. shiftResult_store lines (?kids @ work) ?s1 = shiftResult_store lines work s'
                  \<and> length s' = length ?s1 \<and> holdsAll s' ?kids rs'
                  \<and> addrsL s' ?kids rs' = addrsL ?s1 ?kids ch
                  \<and> (\<forall>i. i \<notin> set (addrsL ?s1 ?kids ch) \<longrightarrow> s' ! i = ?s1 ! i))"
        using shift_fresh_list[where rs = ch and lines = lines and s = ?s1 and as = ?kids
            and work = work, OF Result.IH hk1] dk ak1 by simp
      show ?thesis
      proof (cases "shiftResults lines ch")
        case (Inl e)
        with rec r0 start start' fin fin' show ?thesis by simp
      next
        case ch': (Inr ch')
        with rec obtain s' where
          r1: "shiftResult_store lines (?kids @ work) ?s1 = shiftResult_store lines work s'"
          and l1: "length s' = length s" and hk': "holdsAll s' ?kids ch'"
          and ak': "addrsL s' ?kids ch' = addrsL s ?kids ch"
          and f: "\<forall>i. i \<notin> set (addrsL s ?kids ch) \<longrightarrow> s' ! i = ?s1 ! i"
          using ak1 by auto
        from f na a have sa: "s' ! a = Obj ty (sl', sc') (el', ec') ?kids" by simp
        have "shiftResult_store lines (a # work) s = shiftResult_store lines work s'
              \<and> length s' = length s \<and> holds s' a (Result ty sl' sc' el' ec' ch')
              \<and> addrs s' a (Result ty sl' sc' el' ec' ch') = addrs s a (Result ty sl sc el ec ch)
              \<and> (\<forall>i. i \<notin> set (addrs s a (Result ty sl sc el ec ch)) \<longrightarrow> s' ! i = s ! i)"
          using r0 r1 l1 hk' ak' f sa a by simp
        then show ?thesis using start start' fin fin' ch' by auto
      qed
    qed
  qed
qed

lemma holds_fields:
  assumes "holds s a r"
  shows "a < length s" and "otype (s ! a) = type r"
    and "ostart (s ! a) = (startLine r, startColumnInclusive r)"
    and "oend (s ! a) = (endLine r, endColumnExclusive r)"
  using assms by (cases r; simp)+

lemma holds_prefix:
  assumes "holds s a r" and "length s \<le> length s'" and "\<forall>i < length s. s' ! i = s ! i"
  shows "holds s' a r"
proof -
  have "\<forall>i \<in> set (addrs s a r). i < length s' \<and> s' ! i = s ! i"
    using holds_bound(1)[OF assms(1)] assms(2,3) by auto
  from frame(1)[OF assms(1) this] show ?thesis by simp
qed

lemma holdsAll_prefix:
  assumes "holdsAll s as rs" and "length s \<le> length s'" and "\<forall>i < length s. s' ! i = s ! i"
  shows "holdsAll s' as rs"
proof -
  have "\<forall>i \<in> set (addrsL s as rs). i < length s' \<and> s' ! i = s ! i"
    using holds_bound(2)[OF assms(1)] assms(2,3) by auto
  from frame(2)[OF assms(1) this] show ?thesis by simp
qed

lemma layoutRejected_fresh:
  "holdsAll store as rs \<Longrightarrow>
     layoutRejected p (map (resultAt store) as) e = layoutRejected p rs e"
proof (induction rs arbitrary: as p)
  case Nil
  then show ?case by simp
next
  case (Cons r rs)
  from Cons.prems obtain a as' where as: "as = a # as'" and h: "holds store a r"
    and hs: "holdsAll store as' rs"
    by (cases as) auto
  show ?case
    using Cons.IH[OF hs] holds_fields[OF h]
    by (simp add: as layoutRejected_Cons startOfResult_def endOfResult_def resultAt_fields)
qed

lemma kept_fresh:
  "holdsAll store as rs \<Longrightarrow>
     holdsAll store (filter (\<lambda>a. otype (store ! a) \<noteq> Discarded) as)
       (filter (\<lambda>r. type r \<noteq> Discarded) rs)"
proof (induction rs arbitrary: as)
  case Nil
  then show ?case by simp
next
  case (Cons r rs)
  from Cons.prems obtain a as' where as: "as = a # as'" and h: "holds store a r"
    and hs: "holdsAll store as' rs"
    by (cases as) auto
  show ?case
    using Cons.IH[OF hs] holds_fields(2)[OF h] h by (simp add: as)
qed

lemma joinResults_fresh:
  assumes "holdsAll store as rs"
  shows "case joinResults rs ty (Some s) (Some e) of
           Inl err \<Rightarrow> joinResults_store as ty (Some s) (Some e) store = Inl err
         | Inr r \<Rightarrow>
             (\<exists>store'. joinResults_store as ty (Some s) (Some e) store = Inr (store', length store)
                       \<and> holds store' (length store) r)"
proof (cases "layoutRejected s rs e")
  case True
  then show ?thesis
    by (simp add: joinResults_given_bounds joinResults_store_given_bounds
          layoutRejected_fresh[OF assms])
next
  case False
  let ?kept = "filter (\<lambda>a. otype (store ! a) \<noteq> Discarded) as"
  let ?store' = "store @ [Obj (defaultType ty) s e ?kept]"
  have "holdsAll ?store' ?kept (filter (\<lambda>r. type r \<noteq> Discarded) rs)"
    using holdsAll_prefix[OF kept_fresh[OF assms], of ?store'] by (simp add: nth_append)
  then have "holds ?store' (length store)
               (Result (defaultType ty) (fst s) (snd s) (fst e) (snd e)
                  (filter (\<lambda>r. type r \<noteq> Discarded) rs))"
    by simp
  with False show ?thesis
    by (simp add: joinResults_given_bounds joinResults_store_given_bounds
          layoutRejected_fresh[OF assms])
qed

text \<open>
  \<open>sectionP_store\<close> with parsers that build new objects returns what \<open>sectionP\<close> returns
  with the parsers on values.  The body parser on the store is one that, given an object
  that is the tree \<open>r\<close>, builds what \<open>bodyP\<close> returns on the value \<open>r\<close>.
\<close>

lemma sectionP_after_fresh:
  assumes b: "holds store3 b rb" and body: "holds store3 body shifted"
  shows "agrees (sectionP_after afterP lines start rb bodyState shifted)
           (sectionP_after_store (freshP afterP) lines start b bodyState body store3)"
proof -
  let ?l = "endLine shifted" and ?c = "endColumnExclusive shifted"
  from holds_fields(4)[OF body] have en: "oend (store3 ! body) = (?l, ?c)" .
  show ?thesis
  proof (cases "afterP bodyState lines ?l ?c")
    case None
    then show ?thesis
      by (simp add: agrees_def sectionP_after_def sectionP_after_store_def freshP_def en)
  next
    case (Some v)
    show ?thesis
    proof (cases v)
      case (Inl e)
      with Some show ?thesis
        by (simp add: agrees_def sectionP_after_def sectionP_after_store_def freshP_def en)
    next
      case (Inr after)
      show ?thesis
      proof (cases after)
        case None
        have h: "holdsAll store3 [b, body] [rb, shifted]" using b body by simp
        from joinResults_fresh[OF h, of Structural start "(?l, ?c)"] Some Inr None
        show ?thesis
          by (auto simp: agrees_def sectionP_after_def sectionP_after_store_def freshP_def en
                split: sum.splits)
      next
        case after: (Some p)
        obtain afterState rafter where p: "p = (afterState, rafter)" by (cases p) auto
        obtain store4 a where al: "alloc rafter store3 = (store4, a)"
          by (cases "alloc rafter store3") auto
        from alloc_fresh(1)[OF al] have ha: "holds store4 a rafter"
          and le: "length store3 \<le> length store4"
          and pre: "\<forall>i < length store3. store4 ! i = store3 ! i"
          by auto
        have h: "holdsAll store4 [b, body, a] [rb, shifted, rafter]"
          using holds_prefix[OF b le pre] holds_prefix[OF body le pre] ha by simp
        from joinResults_fresh[OF h, of Structural start "(endLine rafter, endColumnExclusive rafter)"]
          Some Inr after p al holds_fields(4)[OF ha]
        show ?thesis
          by (auto simp: agrees_def sectionP_after_def sectionP_after_store_def freshP_def en
                split: sum.splits)
      qed
    qed
  qed
qed

lemma sectionP_store_fresh:
  assumes bodyS: "\<And>bulletState b r store1 bodyLines. holds store1 b r \<Longrightarrow>
            bodyS lines bulletState b bulletState bodyLines 0 0 store1
              = freshP (bodyP lines bulletState r) bulletState bodyLines 0 0 store1"
  shows "agrees (sectionP bulletP bodyP spacesL indentationL afterP state lines line column)
           (sectionP_store (freshP bulletP) bodyS spacesL indentationL (freshP afterP)
              state lines line column store)"
proof (cases "valid lines line column \<and> column = 0")
  case False
  then show ?thesis by (auto simp: agrees_def sectionP_def sectionP_store_def)
next
  case True
  then have v: "valid lines line column" and c: "column = 0" by auto
  show ?thesis
  proof (cases "cutoffAfterIndentation lines line (\<lambda>text. spacesL text 0 > 0)")
    case (Inl e)
    with v c show ?thesis by (simp add: agrees_def sectionP_def sectionP_store_def)
  next
    case cutoff: (Inr bulletLines)
    show ?thesis
    proof (cases "bulletP state bulletLines line column")
      case None
      with v c cutoff show ?thesis
        by (simp add: agrees_def sectionP_def sectionP_store_def freshP_def)
    next
      case (Some bv)
      show ?thesis
      proof (cases bv)
        case (Inl e)
        with v c cutoff Some show ?thesis
          by (simp add: agrees_def sectionP_def sectionP_store_def freshP_def)
      next
        case (Inr bo)
        show ?thesis
        proof (cases bo)
          case None
          with v c cutoff Some Inr show ?thesis
            by (simp add: agrees_def sectionP_def sectionP_store_def freshP_def)
        next
          case bullet: (Some bp)
          obtain bulletState rb where bp: "bp = (bulletState, rb)" by (cases bp) auto
          obtain store1 b where al1: "alloc rb store = (store1, b)"
            by (cases "alloc rb store") auto
          from alloc_fresh(1)[OF al1] have hb1: "holds store1 b rb" by simp
          have bullet_v: "bulletP state bulletLines line column = Some (Inr (Some (bulletState, rb)))"
            using Some Inr bullet bp by simp
          have bullet_s: "freshP bulletP state bulletLines line column store
                            = Some (Inr (store1, Some (bulletState, b)))"
            using bullet_v al1 by (simp add: freshP_def)
          have en1: "oend (store1 ! b) = (endLine rb, endColumnExclusive rb)"
            using holds_fields(4)[OF hb1] .
          show ?thesis
          proof (cases "cutoutTextLines lines (endLine rb) (endColumnExclusive rb)
                          spacesL indentationL")
            case (Inl e)
            with v c cutoff bullet_v bullet_s en1 show ?thesis
              by (simp add: agrees_def sectionP_def sectionP_store_def)
          next
            case cutout: (Inr bodyLines)
            have bs: "bodyS lines bulletState b bulletState bodyLines 0 0 store1
                        = freshP (bodyP lines bulletState rb) bulletState bodyLines 0 0 store1"
              using bodyS[OF hb1] .
            show ?thesis
            proof (cases "bodyP lines bulletState rb bulletState bodyLines 0 0")
              case None
              with v c cutoff bullet_v bullet_s en1 cutout bs show ?thesis
                by (simp add: agrees_def sectionP_def sectionP_store_def freshP_def)
            next
              case body: (Some dv)
              show ?thesis
              proof (cases dv)
                case (Inl e)
                with v c cutoff bullet_v bullet_s en1 cutout bs body show ?thesis
                  by (simp add: agrees_def sectionP_def sectionP_store_def freshP_def)
              next
                case dr: (Inr dopt)
                show ?thesis
                proof (cases dopt)
                  case None
                  with v c cutoff bullet_v bullet_s en1 cutout bs body dr show ?thesis
                    by (simp add: agrees_def sectionP_def sectionP_store_def freshP_def)
                next
                  case dsome: (Some dp)
                  obtain bodyState rbody where dp: "dp = (bodyState, rbody)" by (cases dp) auto
                  obtain store2 d where al2: "alloc rbody store1 = (store2, d)"
                    by (cases "alloc rbody store1") auto
                  from alloc_fresh(1)[OF al2] have hd2: "holds store2 d rbody"
                    and dd: "distinct (addrs store2 d rbody)"
                    and lo: "\<forall>i \<in> set (addrs store2 d rbody). length store1 \<le> i"
                    and le: "length store1 \<le> length store2"
                    and pre: "\<forall>i < length store1. store2 ! i = store1 ! i"
                    by auto
                  have body_v: "bodyP lines bulletState rb bulletState bodyLines 0 0
                                  = Some (Inr (Some (bodyState, rbody)))"
                    using body dr dsome dp by simp
                  have body_s: "bodyS lines bulletState b bulletState bodyLines 0 0 store1
                                  = Some (Inr (store2, Some (bodyState, d)))"
                    using bs body_v al2 by (simp add: freshP_def)
                  have hb2: "holds store2 b rb" using holds_prefix[OF hb1 le pre] .
                  note sh = shift_fresh[OF hd2 dd, of bodyLines "[]"]
                  show ?thesis
                  proof (cases "shiftResult bodyLines rbody")
                    case (Inl e)
                    with sh have "shiftResult_store bodyLines [d] store2 = Some (Inl e)" by simp
                    with Inl v c cutoff bullet_v bullet_s en1 cutout body_v body_s show ?thesis
                      by (simp add: agrees_def sectionP_def sectionP_store_def)
                  next
                    case shifted: (Inr shifted)
                    with sh obtain store3 where
                      r3: "shiftResult_store bodyLines [d] store2 = Some (Inr store3)"
                      and l3: "length store3 = length store2"
                      and hd3: "holds store3 d shifted"
                      and f3: "\<forall>i. i \<notin> set (addrs store2 d rbody) \<longrightarrow> store3 ! i = store2 ! i"
                      by (auto simp: shiftResult_store_Nil)
                    have "\<forall>i \<in> set (addrs store1 b rb). i < length store3 \<and> store3 ! i = store1 ! i"
                    proof
                      fix i
                      assume "i \<in> set (addrs store1 b rb)"
                      with holds_bound(1)[OF hb1] have i: "i < length store1" by simp
                      with lo have "i \<notin> set (addrs store2 d rbody)" by auto
                      with f3 pre i le l3 show "i < length store3 \<and> store3 ! i = store1 ! i"
                        by auto
                    qed
                    from frame(1)[OF hb1 this] have hb3: "holds store3 b rb" by simp
                    have "sectionP bulletP bodyP spacesL indentationL afterP state lines line column
                            = sectionP_after afterP lines (line, column) rb bodyState shifted"
                      using v c cutoff bullet_v cutout body_v shifted by (simp add: sectionP_def)
                    moreover
                    have "sectionP_store (freshP bulletP) bodyS spacesL indentationL (freshP afterP)
                            state lines line column store
                          = sectionP_after_store (freshP afterP) lines (line, column) b bodyState d
                              store3"
                      using v c cutoff bullet_s en1 cutout body_s r3 by (simp add: sectionP_store_def)
                    ultimately show ?thesis
                      using sectionP_after_fresh[OF hb3 hd3] by simp
                  qed
                qed
              qed
            qed
          qed
        qed
      qed
    qed
  qed
qed

text \<open>
  The section \<open>exSection\<close>: its parsers on the store are the parsers on values, building
  new objects.
\<close>

lemma ex_section_fresh:
  "agrees (sectionP exBulletP exBodyP exSpacesL exIndentationL exAfterP 5 exSection 0 0)
     (sectionP_store (freshP exBulletP) exBodyS exSpacesL exIndentationL (freshP exAfterP)
        5 exSection 0 0 [])"
  by (rule sectionP_store_fresh) (simp add: exBodyS_def exBodyP_def)


text \<open>
  Claim C3, amended.  At a valid position, \<open>sectionP\<close> returns \<^verbatim>\<open>undefined\<close> whenever
  \<open>column \<noteq> 0\<close>, and no result object has changed.  At column 0, whenever the two views
  are built, \<open>bulletP\<close> and the body parser succeed (with the result objects \<open>bullet\<close> and
  \<open>body\<close>), the body result is shifted back to source coordinates (which leaves the store
  \<open>store3\<close>), \<open>afterP\<close> returns (\<open>after\<close>: a success or \<^verbatim>\<open>undefined\<close>; it leaves the
  store \<open>store4\<close>) and \<^verbatim>\<open>joinResults\<close> does not reject the results as they are then
  (they lie in order and their coordinates are safe natural numbers), \<open>sectionP\<close> returns
  the state of the body parser and a new object: a \<open>Structural\<close> node from the entry
  position to the end of the after result (when \<open>afterP\<close> succeeded) or of the shifted
  body result, whose children are the objects among bullet, body and after (present
  exactly when \<open>afterP\<close> succeeded) that are not \<open>Discarded\<close> then.
\<close>

theorem sectionP_result:
  assumes "valid lines line column"
  shows "(column \<noteq> 0 \<longrightarrow>
            sectionP_store bulletP bodyP spacesL indentationL afterP state lines line column store
              = Some (Inr (store, None)))
       \<and> (column = 0 \<longrightarrow>
            cutoffAfterIndentation lines line (\<lambda>text. spacesL text 0 > 0) = Inr bulletLines \<longrightarrow>
            bulletP state bulletLines line 0 store
              = Some (Inr (store1, Some (bulletState, bullet))) \<longrightarrow>
            cutoutTextLines lines (fst (oend (store1 ! bullet))) (snd (oend (store1 ! bullet)))
              spacesL indentationL = Inr bodyLines \<longrightarrow>
            bodyP lines bulletState bullet bulletState bodyLines 0 0 store1
              = Some (Inr (store2, Some (bodyState, body))) \<longrightarrow>
            shiftResult_store bodyLines [body] store2 = Some (Inr store3) \<longrightarrow>
            afterP bodyState lines (fst (oend (store3 ! body))) (snd (oend (store3 ! body))) store3
              = Some (Inr (store4, after)) \<longrightarrow>
            \<not> layoutRejected (line, 0)
                (map (resultAt store4) (sectionResults_store bullet body after))
                (sectionEnd_store store3 store4 body after) \<longrightarrow>
            sectionP_store bulletP bodyP spacesL indentationL afterP state lines line column store
              = Some (Inr (store4 @ [Obj Structural (line, 0)
                                       (sectionEnd_store store3 store4 body after)
                                       (filter (\<lambda>a. otype (store4 ! a) \<noteq> Discarded)
                                          (sectionResults_store bullet body after))],
                           Some (bodyState, length store4))))"
proof (intro conjI impI)
  assume "column \<noteq> 0"
  with assms show "sectionP_store bulletP bodyP spacesL indentationL afterP state lines line column
                     store = Some (Inr (store, None))"
    by (simp add: sectionP_store_def)
next
  assume c: "column = 0"
    and 1: "cutoffAfterIndentation lines line (\<lambda>text. spacesL text 0 > 0) = Inr bulletLines"
    and 2: "bulletP state bulletLines line 0 store
              = Some (Inr (store1, Some (bulletState, bullet)))"
    and 3: "cutoutTextLines lines (fst (oend (store1 ! bullet))) (snd (oend (store1 ! bullet)))
              spacesL indentationL = Inr bodyLines"
    and 4: "bodyP lines bulletState bullet bulletState bodyLines 0 0 store1
              = Some (Inr (store2, Some (bodyState, body)))"
    and 5: "shiftResult_store bodyLines [body] store2 = Some (Inr store3)"
    and 6: "afterP bodyState lines (fst (oend (store3 ! body))) (snd (oend (store3 ! body))) store3
              = Some (Inr (store4, after))"
    and 7: "\<not> layoutRejected (line, 0)
                (map (resultAt store4) (sectionResults_store bullet body after))
                (sectionEnd_store store3 store4 body after)"
  from assms c have v: "valid lines line 0" by simp
  show "sectionP_store bulletP bodyP spacesL indentationL afterP state lines line column store
          = Some (Inr (store4 @ [Obj Structural (line, 0)
                                   (sectionEnd_store store3 store4 body after)
                                   (filter (\<lambda>a. otype (store4 ! a) \<noteq> Discarded)
                                      (sectionResults_store bullet body after))],
                       Some (bodyState, length store4)))"
    unfolding c sectionP_store_steps[where bulletP = bulletP and bodyP = bodyP
        and spacesL = spacesL and indentationL = indentationL and state = state
        and store = store, OF v 1 2 3 4 5]
    using sectionP_after_store_returns[where afterP = afterP and start = "(line, 0)"
        and bullet = bullet, OF 6] 7 by simp
qed

theorem sectionP_result_witness:
  "valid exSection 0 0 \<and> valid exSection 1 2
   \<and> sectionP_store (freshP exBulletP) exBodyS exSpacesL exIndentationL (freshP exAfterP)
       5 exSection 1 2 [] = Some (Inr ([], None))
   \<and> sectionP_store (freshP exBulletP) exBodyS exSpacesL exIndentationL (freshP exAfterP)
       5 exSection 0 0 []
       = Some (Inr ([Obj (Labeled ''Bullet'') (0, 0) (0, 3) [],
                     Obj (Labeled ''A'') (1, 4) (1, 5) [],
                     Obj (Labeled ''B'') (2, 4) (2, 5) [],
                     Obj Structural (0, 3) (2, 5) [1, 2],
                     Obj (Labeled ''End'') (3, 0) (3, 3) [],
                     Obj Structural (2, 5) (3, 3) [4],
                     Obj Structural (0, 0) (3, 3) [0, 3, 5]], Some (5, 6)))"
proof -
  let ?store1 = "[Obj (Labeled ''Bullet'') (0, 0) (0, 3) []] :: string Store"
  let ?store3 = "[Obj (Labeled ''Bullet'') (0, 0) (0, 3) [],
                  Obj (Labeled ''A'') (1, 4) (1, 5) [],
                  Obj (Labeled ''B'') (2, 4) (2, 5) [],
                  Obj Structural (0, 3) (2, 5) [1, 2]] :: string Store"
  let ?store4 = "[Obj (Labeled ''Bullet'') (0, 0) (0, 3) [],
                  Obj (Labeled ''A'') (1, 4) (1, 5) [],
                  Obj (Labeled ''B'') (2, 4) (2, 5) [],
                  Obj Structural (0, 3) (2, 5) [1, 2],
                  Obj (Labeled ''End'') (3, 0) (3, 3) [],
                  Obj Structural (2, 5) (3, 3) [4]] :: string Store"
  let ?after = "Some (6 :: nat, 5 :: nat)"
  have v12: "valid exSection 1 2" by (simp add: exSection_def textOf_def nat_is_def)
  have lay: "\<not> layoutRejected (0, 0) (map (resultAt ?store4) (sectionResults_store 0 3 ?after))
                  (sectionEnd_store ?store3 ?store4 3 ?after)"
    by (simp add: sectionResults_store_def sectionEnd_store_def resultAt_def startOfResult_def
          endOfResult_def pos_less_def layoutRejected_def coordinatesSafe_def safePos_def
          nat_is_def)
  have after: "freshP exAfterP 5 exSection (fst (oend (?store3 ! 3))) (snd (oend (?store3 ! 3)))
                 ?store3 = Some (Inr (?store4, ?after))"
    using ex_after by simp
  have cut: "cutoutTextLines exSection (fst (oend (?store1 ! 0))) (snd (oend (?store1 ! 0)))
               exSpacesL exIndentationL = Inr exWindow"
    using ex_cutout by simp
  have none: "sectionP_store (freshP exBulletP) exBodyS exSpacesL exIndentationL (freshP exAfterP)
                5 exSection 1 2 [] = Some (Inr ([], None))"
    using conjunct1[OF sectionP_result[where lines = exSection and line = 1 and column = 2
        and bulletP = "freshP exBulletP" and bodyP = exBodyS and spacesL = exSpacesL
        and indentationL = exIndentationL and afterP = "freshP exAfterP" and state = 5
        and store = "[]", OF v12]]
    by simp
  have some: "sectionP_store (freshP exBulletP) exBodyS exSpacesL exIndentationL (freshP exAfterP)
                5 exSection 0 0 []
       = Some (Inr (?store4 @ [Obj Structural (0, 0) (sectionEnd_store ?store3 ?store4 3 ?after)
                                 (filter (\<lambda>a. otype (?store4 ! a) \<noteq> Discarded)
                                    (sectionResults_store 0 3 ?after))],
                    Some (5, length ?store4)))"
    using conjunct2[OF sectionP_result[where lines = exSection and line = 0 and column = 0
        and bulletP = "freshP exBulletP" and bodyP = exBodyS and spacesL = exSpacesL
        and indentationL = exIndentationL and afterP = "freshP exAfterP" and state = 5
        and store = "[]", OF ex_valid],
        rule_format, OF refl ex_cutoff ex_bullet cut ex_body ex_shift after lay] .
  show ?thesis
    using ex_valid v12 none some
    by (simp add: sectionResults_store_def sectionEnd_store_def)
qed

text \<open>
  As stated, the claim fails.  At the position \<open>(0, 4)\<close>, which is not valid (the
  line \<open>- x\<close> has three characters), the column is not 0 but \<open>sectionP\<close> throws
  instead of returning \<^verbatim>\<open>undefined\<close>.  With the bullet parser \<^verbatim>\<open>literalP("- x")\<close>,
  whose result is \<open>Discarded\<close>, all parsers succeed but the children of the node returned
  (the object 6) are the body and the after result only (the objects 3 and 5):
  \<^verbatim>\<open>joinResults\<close> drops the bullet result (the object 0).  And the bullet and body
  parsers can succeed without a node being returned: when the after result starts before
  the end of the body, \<^verbatim>\<open>joinResults\<close> throws, and when the body result ends at a
  position that is not in the window, \<^verbatim>\<open>shift\<close> throws.
\<close>

theorem sectionP_children_counterexample:
  "sectionP_store (freshP exBulletP) exBodyS exSpacesL exIndentationL (freshP exAfterP)
       5 exSection 0 4 [] = Some (Inl InvalidPosition)
   \<and> freshP (literalP ''- x'' Discarded) (5::nat) (CutoffLines exSection 4 3) 0 0 []
       = Some (Inr ([Obj Discarded (0, 0) (0, 3) [] :: string Obj], Some (5, 0)))
   \<and> sectionP_store (freshP (literalP ''- x'' Discarded)) exBodyS exSpacesL exIndentationL
         (freshP exAfterP) 5 exSection 0 0 []
       = Some (Inr ([Obj Discarded (0, 0) (0, 3) [],
                     Obj (Labeled ''A'') (1, 4) (1, 5) [],
                     Obj (Labeled ''B'') (2, 4) (2, 5) [],
                     Obj Structural (0, 3) (2, 5) [1, 2],
                     Obj (Labeled ''End'') (3, 0) (3, 3) [],
                     Obj Structural (2, 5) (3, 3) [4],
                     Obj Structural (0, 0) (3, 3) [3, 5]], Some (5, 6)))
   \<and> sectionP_store (freshP exBulletP) exBodyS exSpacesL exIndentationL
         (freshP (modifyResultP emptyP (\<lambda>lines state result. Some (Result Structural 0 0 0 0 []))))
         5 exSection 0 0 []
       = Some (Inl InvalidLayout)
   \<and> sectionP_store (freshP exBulletP)
         (\<lambda>lines state bullet.
            freshP (modifyResultP emptyP (\<lambda>lines state result. Some (Result Structural 0 0 9 9 []))))
         exSpacesL exIndentationL (freshP exAfterP) 5 exSection 0 0 []
       = Some (Inl InvalidPosition)"
  by (simp add: store_eval)

text \<open>
  Claim C9, amended.  When \<open>sectionP\<close> succeeds and \<open>afterP\<close> succeeded at the end of the
  shifted body result, the state \<open>sectionP\<close> returns is the state of the body parser, not
  the one \<open>afterP\<close> returned; the node returned is a new object that ends where the after
  result ends, and its children are the objects among bullet, body and after that are not
  \<open>Discarded\<close>: the after result is a child unless it is \<open>Discarded\<close>.
\<close>

theorem sectionP_returns_body_state:
  assumes "cutoffAfterIndentation lines line (\<lambda>text. spacesL text 0 > 0) = Inr bulletLines"
    and "bulletP state bulletLines line column store
           = Some (Inr (store1, Some (bulletState, bullet)))"
    and "cutoutTextLines lines (fst (oend (store1 ! bullet))) (snd (oend (store1 ! bullet)))
           spacesL indentationL = Inr bodyLines"
    and "bodyP lines bulletState bullet bulletState bodyLines 0 0 store1
           = Some (Inr (store2, Some (bodyState, body)))"
    and "shiftResult_store bodyLines [body] store2 = Some (Inr store3)"
    and "afterP bodyState lines (fst (oend (store3 ! body))) (snd (oend (store3 ! body))) store3
           = Some (Inr (store4, Some (afterState, after)))"
    and "sectionP_store bulletP bodyP spacesL indentationL afterP state lines line column store
           = Some (Inr (store', Some (state', result)))"
  shows "state' = bodyState
       \<and> result = length store4
       \<and> store' = store4 @ [Obj Structural (line, column) (oend (store4 ! after))
                              (filter (\<lambda>a. otype (store4 ! a) \<noteq> Discarded)
                                 [bullet, body, after])]"
proof -
  from assms(7) have v: "valid lines line column" and c: "column = 0"
    by (auto simp: sectionP_store_def split: if_splits)
  from v c have v0: "valid lines line 0" by simp
  have "sectionP_store bulletP bodyP spacesL indentationL afterP state lines line column store
         = sectionP_after_store afterP lines (line, 0) bullet bodyState body store3"
    using sectionP_store_steps[where bulletP = bulletP and bodyP = bodyP and spacesL = spacesL
        and indentationL = indentationL and state = state and store = store,
        OF v0 assms(1) assms(2)[unfolded c] assms(3,4,5)] c by simp
  with assms(7) sectionP_after_store_returns[where afterP = afterP and start = "(line, 0)"
        and bullet = bullet, OF assms(6)] c
  show ?thesis
    by (auto simp: sectionResults_store_def sectionEnd_store_def split: if_splits)
qed

text \<open>
  The theorem on the line \<open>- x yzw\<close>, with the body parser that returns the bullet
  result object below its result: the shift of the body result moves the bullet result
  too, from columns 0 to 3 to columns 4 to 7, and so it is a child of the node returned.
\<close>

theorem sectionP_returns_body_state_witness:
  "freshP exBulletP 5 exShared 0 0 []
       = Some (Inr ([Obj (Labeled ''Bullet'') (0, 0) (0, 3) []], Some (5, 0)))
   \<and> freshP (countingP (setTypeP (Labeled ''End'') emptyP)) 5 exShared 0 7
         [Obj (Labeled ''Bullet'') (0, 4) (0, 7) [], Obj Structural (0, 7) (0, 7) [0]]
       = Some (Inr ([Obj (Labeled ''Bullet'') (0, 4) (0, 7) [], Obj Structural (0, 7) (0, 7) [0],
                     Obj (Labeled ''End'') (0, 7) (0, 7) []], Some (6, 2)))
   \<and> sectionP_store (freshP exBulletP) exSharingBodyS exSpacesL exIndentationL
         (freshP (countingP (setTypeP (Labeled ''End'') emptyP))) 5 exShared 0 0 []
       = Some (Inr ([Obj (Labeled ''Bullet'') (0, 4) (0, 7) [], Obj Structural (0, 7) (0, 7) [0],
                     Obj (Labeled ''End'') (0, 7) (0, 7) [],
                     Obj Structural (0, 0) (0, 7) [0, 1, 2]], Some (5, 3)))
   \<and> (5::nat) \<noteq> 6"
proof -
  let ?afterP = "freshP (countingP (setTypeP (Labeled ''End'') emptyP))
                   :: (nat, string) StoreParser"
  let ?store1 = "[Obj (Labeled ''Bullet'') (0, 0) (0, 3) []] :: string Store"
  let ?store2 = "[Obj (Labeled ''Bullet'') (0, 0) (0, 3) [],
                  Obj Structural (0, 3) (0, 3) [0]] :: string Store"
  let ?store3 = "[Obj (Labeled ''Bullet'') (0, 4) (0, 7) [],
                  Obj Structural (0, 7) (0, 7) [0]] :: string Store"
  let ?store4 = "[Obj (Labeled ''Bullet'') (0, 4) (0, 7) [], Obj Structural (0, 7) (0, 7) [0],
                  Obj (Labeled ''End'') (0, 7) (0, 7) []] :: string Store"
  have bullet: "freshP exBulletP 5 exShared 0 0 []
                  = Some (Inr (?store1, Some (5, 0)))"
    by (simp add: store_eval)
  have cut: "cutoutTextLines exShared (fst (oend (?store1 ! 0))) (snd (oend (?store1 ! 0)))
               exSpacesL exIndentationL = Inr exSharedWindow"
    using ex_shared_cutout by simp
  have body: "exSharingBodyS exShared 5 0 5 exSharedWindow 0 0 ?store1
                = Some (Inr (?store2, Some (5, 1)))"
    by (simp add: exSharingBodyS_def)
  have shift: "shiftResult_store exSharedWindow [1] ?store2 = Some (Inr ?store3)"
    by (simp add: exSharedWindow_def shiftResult_store_Nil shiftResult_store_Cons nat_is_def)
  have after: "?afterP 5 exShared (fst (oend (?store3 ! 1))) (snd (oend (?store3 ! 1))) ?store3
                 = Some (Inr (?store4, Some (6, 2)))"
    by (simp add: store_eval)
  have sec: "sectionP_store (freshP exBulletP) exSharingBodyS exSpacesL exIndentationL ?afterP
               5 exShared 0 0 []
             = Some (Inr (?store4 @ [Obj Structural (0, 0) (0, 7) [0, 1, 2]], Some (5, 3)))"
    by (simp add: store_eval)
  obtain store' state' result where
    sec': "sectionP_store (freshP exBulletP) exSharingBodyS exSpacesL exIndentationL ?afterP
             5 exShared 0 0 [] = Some (Inr (store', Some (state', result)))"
    using sec by blast
  from sectionP_returns_body_state[where lines = exShared and line = 0 and column = 0
        and bulletP = "freshP exBulletP" and bodyP = exSharingBodyS and spacesL = exSpacesL
        and indentationL = exIndentationL and afterP = ?afterP and state = 5
        and store = "[]", OF ex_shared_cutoff bullet cut body shift after sec']
  have "state' = 5" and "result = 3"
    and "store' = ?store4 @ [Obj Structural (0, 0) (0, 7) [0, 1, 2]]"
    by simp_all
  with sec' bullet after show ?thesis by simp
qed

text \<open>
  As stated, the claim fails where the after result is \<open>Discarded\<close>: with
  \<^verbatim>\<open>newlineP\<close> as \<open>afterP\<close> (made to add one to the state), \<open>sectionP\<close> succeeds and
  \<open>afterP\<close> succeeded after the body (its result is the object 4), the node returned
  (the object 5) ends at the end of the after result, but the after result is not among
  its children.
\<close>

theorem sectionP_after_child_counterexample:
  "freshP (countingP newlineP) 5 exSection 2 5
       [Obj (Labeled ''Bullet'') (0, 0) (0, 3) [],
        Obj (Labeled ''A'') (1, 4) (1, 5) [],
        Obj (Labeled ''B'') (2, 4) (2, 5) [],
        Obj Structural (0, 3) (2, 5) [1, 2]]
     = Some (Inr ([Obj (Labeled ''Bullet'') (0, 0) (0, 3) [],
                   Obj (Labeled ''A'') (1, 4) (1, 5) [],
                   Obj (Labeled ''B'') (2, 4) (2, 5) [],
                   Obj Structural (0, 3) (2, 5) [1, 2],
                   Obj Discarded (2, 5) (3, 0) []], Some (6, 4)))
   \<and> sectionP_store (freshP exBulletP) exBodyS exSpacesL exIndentationL
         (freshP (countingP newlineP)) 5 exSection 0 0 []
       = Some (Inr ([Obj (Labeled ''Bullet'') (0, 0) (0, 3) [],
                     Obj (Labeled ''A'') (1, 4) (1, 5) [],
                     Obj (Labeled ''B'') (2, 4) (2, 5) [],
                     Obj Structural (0, 3) (2, 5) [1, 2],
                     Obj Discarded (2, 5) (3, 0) [],
                     Obj Structural (0, 0) (3, 0) [0, 3]], Some (5, 5)))"
  by (simp add: store_eval)

section \<open>Spans of the results of built parsers\<close>

lemma pos_le_refl [simp]: "pos_le p p"
  by (simp add: pos_le_def)

lemma pos_le_trans: "pos_le p q \<Longrightarrow> pos_le q r \<Longrightarrow> pos_le p r"
  by (auto simp: pos_le_def)

lemma not_pos_less: "(\<not> pos_less p q) = pos_le q p"
  by (auto simp: pos_less_def pos_le_def)

lemma keptBetween_Nil [simp]: "keptBetween s [] s"
  by (simp add: keptBetween_def childrenOrdered_def)

lemma keptBetween_result:
  "keptBetween (sl, sc) kept (l, c) \<Longrightarrow> spanInvariant sl sc (Result ty sl sc l c kept)"
  by (auto simp: keptBetween_def spanInvariant_def spanValid_def within_def startOfResult_def
      endOfResult_def list_all_iff)

lemma keptBetween_step:
  assumes "keptBetween s kept cur" and "spanInvariant (fst cur) (snd cur) r"
  shows "keptBetween s (if type r \<noteq> Discarded then kept @ [r] else kept) (endOfResult r)"
proof -
  from assms(2) have st: "startOfResult r = cur" and v: "pos_le cur (endOfResult r)"
    by (auto simp: spanInvariant_def spanValid_def)
  from assms(1) have a: "pos_le s cur" and o: "childrenOrdered kept" and sv: "list_all spanValid kept"
    and w: "\<forall>k \<in> set kept. pos_le s (startOfResult k) \<and> pos_le (endOfResult k) cur"
    by (simp_all add: keptBetween_def list_all_iff)
  have 1: "pos_le s (endOfResult r)" using a v by (rule pos_le_trans)
  have 2: "\<forall>k \<in> set kept. pos_le (endOfResult k) (endOfResult r)"
    using w v by (blast intro: pos_le_trans)
  have 3: "childrenOrdered (kept @ [r])"
    using o w st by (simp add: childrenOrdered_def sorted_wrt_append)
  have 4: "spanValid r" using assms(2) by (simp add: spanInvariant_def)
  show ?thesis
    using 1 2 3 4 o sv w a st
    by (auto simp: keptBetween_def list_all_iff)
qed

lemma seqP_loop_spans:
  assumes "\<forall>p \<in> set parsers. good p"
    and "seqP_loop parsers lines sl sc state kept line column = Some (Inr (Some (state', r)))"
    and "keptBetween (sl, sc) kept (line, column)"
  shows "spanInvariant sl sc r"
  using assms
proof (induction parsers arbitrary: state kept line column)
  case Nil
  then show ?case by (auto intro: keptBetween_result)
next
  case (Cons p parsers)
  from Cons.prems(2) obtain st1 r1 where
    call: "p state lines line column = Some (Inr (Some (st1, r1)))"
    and rest: "seqP_loop parsers lines sl sc st1
                 (if type r1 \<noteq> Discarded then kept @ [r1] else kept)
                 (endLine r1) (endColumnExclusive r1) = Some (Inr (Some (state', r)))"
    by (auto split: option.splits sum.splits)
  from Cons.prems(1) call have "spanInvariant line column r1"
    by (auto simp: good_def)
  from keptBetween_step[OF Cons.prems(3), of r1] this
  have "keptBetween (sl, sc) (if type r1 \<noteq> Discarded then kept @ [r1] else kept)
          (endLine r1, endColumnExclusive r1)"
    by (simp add: endOfResult_def)
  from Cons.IH[OF _ rest this] Cons.prems(1) show ?case by simp
qed

lemma good_emptyP: "good emptyP"
  by (auto simp: good_def emptyP_def spanInvariant_def spanValid_def startOfResult_def
      endOfResult_def childrenOrdered_def split: if_splits)

lemma good_charP: "good (charP predicate)"
  by (auto simp: good_def charP_def spanInvariant_def spanValid_def startOfResult_def
      endOfResult_def childrenOrdered_def pos_le_def split: if_splits sum.splits)

lemma good_newlineP: "good newlineP"
  by (auto simp: good_def newlineP_def spanInvariant_def spanValid_def startOfResult_def
      endOfResult_def childrenOrdered_def pos_le_def split: if_splits sum.splits)

lemma good_eofP: "good eofP"
  by (auto simp: good_def eofP_def spanInvariant_def spanValid_def startOfResult_def
      endOfResult_def childrenOrdered_def split: if_splits sum.splits)

lemma good_bolP: "good bolP"
  by (auto simp: good_def bolP_def spanInvariant_def spanValid_def startOfResult_def
      endOfResult_def childrenOrdered_def split: if_splits)

lemma good_seqP:
  assumes "\<forall>p \<in> set parsers. good p"
  shows "good (seqP parsers)"
proof (cases "length parsers = 0 \<or> length parsers = 1")
  case True
  then show ?thesis
  proof
    assume "length parsers = 0"
    then show ?thesis by (simp add: seqP_def good_emptyP)
  next
    assume l: "length parsers = 1"
    then have "hd parsers \<in> set parsers" by (cases parsers) auto
    with assms l show ?thesis by (simp add: seqP_def)
  qed
next
  case False
  then have sp: "seqP parsers = (\<lambda>state lines line column.
              if \<not> valid lines line column then Some (Inl InvalidPosition)
              else seqP_loop parsers lines line column state [] line column)"
    by (simp add: seqP_def)
  show ?thesis
    unfolding good_def sp
    using seqP_loop_spans[OF assms]
    by (auto split: if_splits)
qed

lemma orP_loop_spans:
  assumes "\<forall>p \<in> set parsers. good p"
    and "orP_loop parsers state lines line column = Some (Inr (Some (state', r)))"
  shows "spanInvariant line column r"
  using assms
proof (induction parsers)
  case Nil
  then show ?case by simp
next
  case (Cons p parsers)
  then show ?case
    by (auto simp: good_def split: option.splits sum.splits)
qed

lemma good_orP:
  assumes "\<forall>p \<in> set parsers. good p"
  shows "good (orP parsers)"
  unfolding good_def orP_def
  using orP_loop_spans[OF assms]
  by (auto split: if_splits)

lemma repeats_spans:
  assumes "repeats parser lines p results q" and "good parser"
    and "keptBetween s kept (fst (snd p), snd (snd p))"
  shows "keptBetween s (kept @ filter (\<lambda>r. type r \<noteq> Discarded) results)
           (fst (snd q), snd (snd q))"
  using assms
proof (induction arbitrary: kept rule: repeats.induct)
  case (repeats_none p)
  then show ?case by simp
next
  case (repeats_step state line column state' result results q)
  from repeats_step.hyps(1) repeats_step.prems(1) have "spanInvariant line column result"
    by (auto simp: good_def)
  from keptBetween_step[OF repeats_step.prems(2)[simplified], of result] this
  have "keptBetween s (if type result \<noteq> Discarded then kept @ [result] else kept)
          (endLine result, endColumnExclusive result)"
    by (simp add: endOfResult_def)
  from repeats_step.IH[OF repeats_step.prems(1),
         of "if type result \<noteq> Discarded then kept @ [result] else kept"] this
  show ?case by (cases "type result = Discarded") simp_all
qed

lemma good_repP:
  assumes "\<forall>p \<in> set parsers. good p"
  shows "good (repP parsers)"
  unfolding good_def
proof (intro allI impI)
  fix state lines l c state' r
  assume a: "repP parsers state lines l c = Some (Inr (Some (state', r)))"
  then have "repP_loop (seqP parsers) lines l c state [] l c = Some (Inr (Some (state', r)))"
    by (auto simp: repP_def Let_def split: if_splits)
  from repP_loop_returns[OF this] obtain line' column' results where
    rep: "repeats (seqP parsers) lines (state, l, c) results (state', line', column')"
    and r: "r = Result Structural l c line' column' (filter (\<lambda>r. type r \<noteq> Discarded) results)"
    by auto
  from repeats_spans[OF rep good_seqP[OF assms], of "(l, c)" "[]"]
  have "keptBetween (l, c) (filter (\<lambda>r. type r \<noteq> Discarded) results) (line', column')"
    by simp
  then show "spanInvariant l c r"
    unfolding r by (rule keptBetween_result)
qed

lemma spanInvariant_type:
  "spanInvariant l c r \<Longrightarrow>
   spanInvariant l c (Result ty (startLine r) (startColumnInclusive r) (endLine r)
                        (endColumnExclusive r) (children r))"
  by (auto simp: spanInvariant_def spanValid_def within_def startOfResult_def endOfResult_def)

lemma good_literalP: "good (literalP text ty :: ('s, 't) Parser)"
proof -
  let ?ps = "map (\<lambda>c. charP (\<lambda>d. c = d)) (iterText (textOf text)) :: ('s, 't) Parser list"
  have "\<forall>p \<in> set ?ps. good p" by (auto simp: good_charP)
  then have g: "good (seqP ?ps)" by (rule good_seqP)
  show ?thesis
    unfolding good_def
  proof (intro allI impI)
    fix state state' :: 's and r :: "'t Result" and lines l c
    assume "literalP text ty state lines l c = Some (Inr (Some (state', r)))"
    then obtain r0 where "seqP ?ps state lines l c = Some (Inr (Some (state', r0)))"
      and r: "r = Result ty (startLine r0) (startColumnInclusive r0) (endLine r0)
                    (endColumnExclusive r0) (children r0)"
      by (auto simp: literalP_def Let_def setTypeP_def modifyTypeP_def modifyResultP_def
          modifyParseResultP_def split: option.splits sum.splits)
    with g have "spanInvariant l c r0" by (auto simp: good_def)
    then show "spanInvariant l c r" unfolding r by (rule spanInvariant_type)
  qed
qed

lemma shift_mono:
  assumes "shift lines l1 c1 = Inr p1" and "shift lines l2 c2 = Inr p2"
    and "pos_le (l1, c1) (l2, c2)"
  shows "pos_le p1 p2"
proof (cases lines)
  case (TextLinesWindow source sl ls cols)
  with assms show ?thesis
    by (auto simp: pos_le_def split: if_splits)
next
  case (EmptyTextLines source sl sc)
  with assms show ?thesis
    by (auto simp: pos_le_def split: if_splits)
qed (use assms in auto)

lemma shiftResult_spanValid:
  assumes "shiftResult lines r = Inr r'" and "spanValid r"
  shows "spanValid r'"
proof -
  obtain ty sl sc el ec ch where r: "r = Result ty sl sc el ec ch" by (cases r) auto
  from assms(1) obtain p1 p2 where s1: "shift lines sl sc = Inr p1"
    and s2: "shift lines el ec = Inr p2"
    and st: "startOfResult r' = p1" and en: "endOfResult r' = p2"
    unfolding r
    by (auto simp: startOfResult_def endOfResult_def split: sum.splits prod.splits)
  from assms(2) have "pos_le (sl, sc) (el, ec)"
    by (simp add: r spanValid_def startOfResult_def endOfResult_def)
  from shift_mono[OF s1 s2 this] show ?thesis
    by (simp add: spanValid_def st en)
qed

lemma layout_ok_spans:
  assumes "\<not> layoutViolated s rs e" and "list_all spanValid rs"
  shows "keptBetween s rs e"
  using assms
proof (induction rs arbitrary: s)
  case Nil
  then show ?case by (simp add: keptBetween_def childrenOrdered_def not_pos_less)
next
  case (Cons r rs)
  from Cons.prems have sr: "pos_le s (startOfResult r)"
    and rest: "\<not> layoutViolated (endOfResult r) rs e"
    and v: "spanValid r" and vs: "list_all spanValid rs"
    by (simp_all add: not_pos_less)
  from Cons.IH[OF rest vs] have k: "keptBetween (endOfResult r) rs e" .
  then have re: "pos_le (endOfResult r) e" and o: "childrenOrdered rs"
    and w: "\<forall>k \<in> set rs. pos_le (endOfResult r) (startOfResult k) \<and> pos_le (endOfResult k) e"
    by (simp_all add: keptBetween_def list_all_iff)
  have se: "pos_le s (endOfResult r)" using sr v by (auto simp: spanValid_def intro: pos_le_trans)
  have "pos_le s e" using se re by (rule pos_le_trans)
  moreover have "childrenOrdered (r # rs)" using o w by (simp add: childrenOrdered_def)
  moreover have "\<forall>k \<in> set rs. pos_le s (startOfResult k)"
    using w se by (blast intro: pos_le_trans)
  ultimately show ?case
    using sr re v vs w by (simp add: keptBetween_def list_all_iff)
qed

lemma keptBetween_filter:
  "keptBetween s rs e \<Longrightarrow> keptBetween s (filter P rs) e"
  by (auto simp: keptBetween_def childrenOrdered_def list_all_iff sorted_wrt_filter)

lemma joinResults_spans:
  assumes "joinResults rs ty (Some (l, c)) (Some e) = Inr r" and "list_all spanValid rs"
  shows "spanInvariant l c r"
proof -
  from assms(1) have nr: "\<not> layoutRejected (l, c) rs e"
    and r: "r = Result (defaultType ty) l c (fst e) (snd e)
                  (filter (\<lambda>r. type r \<noteq> Discarded) rs)"
    by (auto simp: joinResults_given_bounds split: if_splits)
  from nr have nv: "\<not> layoutViolated (l, c) rs e" by (rule not_layoutRejected)
  from keptBetween_filter[OF layout_ok_spans[OF nv assms(2)]]
  have "keptBetween (l, c) (filter (\<lambda>r. type r \<noteq> Discarded) rs) (fst e, snd e)" by simp
  then show ?thesis unfolding r by (rule keptBetween_result)
qed

lemma sectionP_after_spans:
  assumes "sectionP_after afterP lines (l, c) bulletResult bodyState shifted
             = Some (Inr (Some (state', r)))"
    and "good afterP" and "spanValid bulletResult" and "spanValid shifted"
  shows "spanInvariant l c r"
proof -
  from assms(1) obtain after where
    a: "afterP bodyState lines (endLine shifted) (endColumnExclusive shifted) = Some (Inr after)"
    by (auto simp: sectionP_after_def split: option.splits sum.splits)
  from assms(1) a have j: "joinResults (sectionResults bulletResult shifted after) Structural
        (Some (l, c)) (Some (sectionEnd shifted after)) = Inr r"
    by (auto simp: sectionP_after_def sectionResults_def sectionEnd_def endOfResult_def
        split: option.splits sum.splits)
  have "list_all spanValid (sectionResults bulletResult shifted after)"
  proof (cases after)
    case None
    with assms(3,4) show ?thesis by (simp add: sectionResults_def)
  next
    case (Some sr)
    obtain st ar where sr: "sr = (st, ar)" by (cases sr) auto
    from a Some sr assms(2) have "spanValid ar" by (auto simp: good_def spanInvariant_def)
    with assms(3,4) Some sr show ?thesis by (simp add: sectionResults_def)
  qed
  from joinResults_spans[OF j this] show ?thesis .
qed

lemma good_sectionP:
  assumes "good bulletP" and "\<And>lines state bullet_result. good (bodyP lines state bullet_result)"
    and "good afterP"
  shows "good (sectionP bulletP bodyP spacesL indentationL afterP)"
  unfolding good_def
proof (intro allI impI)
  fix state lines l c state' r
  assume a: "sectionP bulletP bodyP spacesL indentationL afterP state lines l c
               = Some (Inr (Some (state', r)))"
  then obtain bulletLines where
    cut: "cutoffAfterIndentation lines l (\<lambda>text. spacesL text 0 > 0) = Inr bulletLines"
    by (cases "cutoffAfterIndentation lines l (\<lambda>text. spacesL text 0 > 0)")
       (auto simp: sectionP_def split: if_splits)
  from a cut obtain bulletState bulletResult where
    b: "bulletP state bulletLines l c = Some (Inr (Some (bulletState, bulletResult)))"
    by (auto simp: sectionP_def split: if_splits option.splits sum.splits)
  from a cut b obtain bodyLines where
    co: "cutoutTextLines lines (endLine bulletResult) (endColumnExclusive bulletResult)
           spacesL indentationL = Inr bodyLines"
    by (auto simp: sectionP_def split: if_splits sum.splits)
  from a cut b co obtain bodyState bodyResult where
    bo: "bodyP lines bulletState bulletResult bulletState bodyLines 0 0
           = Some (Inr (Some (bodyState, bodyResult)))"
    by (auto simp: sectionP_def split: if_splits option.splits sum.splits)
  from a cut b co bo obtain shifted where
    sh: "shiftResult bodyLines bodyResult = Inr shifted"
    by (auto simp: sectionP_def split: if_splits sum.splits)
  from a cut b co bo sh have
    af: "sectionP_after afterP lines (l, c) bulletResult bodyState shifted
           = Some (Inr (Some (state', r)))"
    by (auto simp: sectionP_def split: if_splits)
  from b assms(1) have vb: "spanValid bulletResult" by (auto simp: good_def spanInvariant_def)
  from bo assms(2) have "spanValid bodyResult" by (auto simp: good_def spanInvariant_def)
  from shiftResult_spanValid[OF sh this] have vs: "spanValid shifted" .
  from sectionP_after_spans[OF af assms(3) vb vs] show "spanInvariant l c r" .
qed

lemma built_good: "built parser \<Longrightarrow> good parser"
proof (induction rule: built.induct)
  case built_emptyP
  show ?case by (rule good_emptyP)
next
  case (built_charP predicate)
  show ?case by (rule good_charP)
next
  case built_newlineP
  show ?case by (rule good_newlineP)
next
  case built_eofP
  show ?case by (rule good_eofP)
next
  case built_bolP
  show ?case by (rule good_bolP)
next
  case (built_seqP parsers)
  then show ?case by (auto intro: good_seqP)
next
  case (built_orP parsers)
  then show ?case by (auto intro: good_orP)
next
  case (built_repP parsers)
  then show ?case by (auto intro: good_repP)
next
  case (built_literalP literal ty)
  show ?case by (rule good_literalP)
next
  case (built_sectionP bulletP bodyP afterP spacesL indentationL)
  then show ?case by (auto intro: good_sectionP)
qed

text \<open>
  Claim C2.  For every parser built from the combinators, every user state, text and
  entry position: if the parser returns a result, the span of the result starts exactly
  at the entry position, its children are in order (each ends at or before the start of
  every later one), and every child lies within the span of the result.  (A parser that
  returns a result was entered at a valid position: every combinator asserts it.)
\<close>

theorem built_parser_spans:
  assumes "built parser"
    and "parser state lines line column = Some (Inr (Some (state', result)))"
  shows "startLine result = line \<and> startColumnInclusive result = column
       \<and> childrenOrdered (children result)
       \<and> list_all (\<lambda>child. within child result) (children result)"
  using built_good[OF assms(1)] assms(2)
  by (auto simp: good_def spanInvariant_def startOfResult_def)

lemma exSectionP_built: "built exSectionP"
  unfolding exSectionP_def exBulletP_def
proof (rule built_sectionP)
  show "built (literalP ''- x'' (Labeled ''Bullet'') :: (nat, string) Parser)"
    by (rule built_literalP)
  show "built (exBodyP lines state bullet_result)" for lines state bullet_result
    unfolding exBodyP_def by (rule built_seqP) (auto intro: built.intros)
  show "built (seqP [newlineP, literalP ''end'' (Labeled ''End'')] :: (nat, string) Parser)"
    by (rule built_seqP) (auto intro: built.intros)
qed

lemma exSectionP_run:
  "exSectionP 5 exSection 0 0
     = Some (Inr (Some (5, Result Structural 0 0 3 3
         [Result (Labeled ''Bullet'') 0 0 0 3 [],
          Result Structural 0 3 2 5
            [Result (Labeled ''A'') 1 4 1 5 [], Result (Labeled ''B'') 2 4 2 5 []],
          Result Structural 2 5 3 3 [Result (Labeled ''End'') 3 0 3 3 []]])))"
  by (simp add: exSectionP_def section_eval)

theorem built_parser_spans_witness:
  "built exSectionP
   \<and> exSectionP 5 exSection 0 0
     = Some (Inr (Some (5, Result Structural 0 0 3 3
         [Result (Labeled ''Bullet'') 0 0 0 3 [],
          Result Structural 0 3 2 5
            [Result (Labeled ''A'') 1 4 1 5 [], Result (Labeled ''B'') 2 4 2 5 []],
          Result Structural 2 5 3 3 [Result (Labeled ''End'') 3 0 3 3 []]])))
   \<and> childrenOrdered
         [Result (Labeled ''Bullet'') 0 0 0 3 [],
          Result Structural 0 3 2 5
            [Result (Labeled ''A'') 1 4 1 5 [], Result (Labeled ''B'') 2 4 2 5 []],
          Result Structural 2 5 3 3 [Result (Labeled ''End'') 3 0 3 3 []]]
   \<and> list_all (\<lambda>child. within child (Result Structural 0 0 3 3
         [Result (Labeled ''Bullet'') 0 0 0 3 [],
          Result Structural 0 3 2 5
            [Result (Labeled ''A'') 1 4 1 5 [], Result (Labeled ''B'') 2 4 2 5 []],
          Result Structural 2 5 3 3 [Result (Labeled ''End'') 3 0 3 3 []]]))
         [Result (Labeled ''Bullet'') 0 0 0 3 [],
          Result Structural 0 3 2 5
            [Result (Labeled ''A'') 1 4 1 5 [], Result (Labeled ''B'') 2 4 2 5 []],
          Result Structural 2 5 3 3 [Result (Labeled ''End'') 3 0 3 3 []]]"
  using built_parser_spans[OF exSectionP_built exSectionP_run] exSectionP_built exSectionP_run
  by simp


end

